(* ===== verification/Prelude.thy ===== *)
theory Prelude
  imports Complex_Main
begin

section \<open>Prelude: tables, keys, and the generic facts the components share\<close>

text \<open>
  A database table is the list of its rows. This theory holds the primitive reads and writes the
  services issue through Prisma on one table (\<open>lookup\<close> for a \<open>findUnique\<close>,
  \<open>update_where\<close> for an \<open>updateMany\<close>, \<open>update_row\<close> for an \<open>update\<close>,
  \<open>create_row\<close> for a \<open>create\<close>), the constraint errors they can raise, the
  \<open>$transaction([...])\<close> combinator, and the facts about unique keys that the component
  proofs use. The locale \<open>table_constraint\<close> is the interface between a table and one of
  its unique constraints; every table of the schema interprets it for its primary key and for
  each \<open>@unique\<close> of \<open>prisma/schema.prisma\<close>.
\<close>

named_theorems table_simps \<open>reads and writes of one table\<close>
named_theorems op_defs \<open>definitions of the service operations\<close>
named_theorems row_defs \<open>definitions of the row accessors of the world\<close>

subsection \<open>Reads\<close>

definition lookup :: "('r \<Rightarrow> 'k) \<Rightarrow> 'k \<Rightarrow> 'r list \<Rightarrow> 'r option" where
  "lookup key k t = find (\<lambda>r. key r = k) t"

definition unique_on :: "('r \<Rightarrow> 'k) \<Rightarrow> 'r list \<Rightarrow> bool" where
  "unique_on key t \<longleftrightarrow> distinct (map key t)"

lemma lookup_Nil [simp]: "lookup key k [] = None"
  by (simp add: lookup_def)

lemma lookup_Cons [simp]:
  "lookup key k (r # t) = (if key r = k then Some r else lookup key k t)"
  by (simp add: lookup_def)

lemma lookup_SomeD: "lookup key k t = Some r \<Longrightarrow> r \<in> set t \<and> key r = k"
  by (auto simp: lookup_def find_Some_iff)

lemma lookup_None_iff: "lookup key k t = None \<longleftrightarrow> (\<forall>r \<in> set t. key r \<noteq> k)"
  by (auto simp: lookup_def find_None_iff)

lemma lookup_None_image: "lookup key k t = None \<longleftrightarrow> k \<notin> key ` set t"
  by (auto simp: lookup_None_iff)

lemma lookup_in_keys: "lookup key k t = Some r \<Longrightarrow> k \<in> key ` set t"
  by (auto dest: lookup_SomeD)

lemma unique_on_Nil [simp]: "unique_on key []"
  by (simp add: unique_on_def)

lemma unique_on_eq:
  "unique_on key t \<Longrightarrow> r \<in> set t \<Longrightarrow> s \<in> set t \<Longrightarrow> key r = key s \<Longrightarrow> r = s"
  by (auto simp: unique_on_def distinct_map dest: inj_onD)

lemma lookup_unique:
  assumes "unique_on key t" and "r \<in> set t" and "key r = k"
  shows "lookup key k t = Some r"
proof (cases "lookup key k t")
  case None
  with assms show ?thesis by (auto simp: lookup_None_iff)
next
  case (Some s)
  then have "s \<in> set t" and "key s = k" by (auto dest: lookup_SomeD)
  with assms Some show ?thesis by (metis unique_on_eq)
qed

lemma lookup_Some_iff:
  "unique_on key t \<Longrightarrow> lookup key k t = Some r \<longleftrightarrow> r \<in> set t \<and> key r = k"
  by (auto dest: lookup_SomeD intro: lookup_unique)

lemma lookup_append:
  "lookup key k (t @ u) =
     (case lookup key k t of None \<Rightarrow> lookup key k u | Some r \<Rightarrow> Some r)"
  by (induction t) auto

subsection \<open>Writes\<close>

definition update_where :: "('r \<Rightarrow> bool) \<Rightarrow> ('r \<Rightarrow> 'r) \<Rightarrow> 'r list \<Rightarrow> 'r list" where
  "update_where p f t = map (\<lambda>r. if p r then f r else r) t"

text \<open>The codes of Prisma's \<open>PrismaClientKnownRequestError\<close> the schema can raise.\<close>

datatype db_error =
    P2002 \<comment> \<open>a unique constraint failed\<close>
  | P2003 \<comment> \<open>a foreign key constraint failed\<close>
  | P2025 \<comment> \<open>the record to update does not exist\<close>

definition create_row ::
  "('r \<Rightarrow> 'r \<Rightarrow> bool) \<Rightarrow> bool \<Rightarrow> 'r \<Rightarrow> 'r list \<Rightarrow> db_error + 'r list" where
  "create_row conflicts fk r t =
     (if list_ex (conflicts r) t then Inl P2002
      else if \<not> fk then Inl P2003
      else Inr (t @ [r]))"

definition update_row ::
  "('r \<Rightarrow> 'r \<Rightarrow> bool) \<Rightarrow> ('r \<Rightarrow> bool) \<Rightarrow> ('r \<Rightarrow> 'r) \<Rightarrow> 'r list \<Rightarrow> db_error + 'r list" where
  "update_row conflicts p f t =
     (case find p t of
        None \<Rightarrow> Inl P2025
      | Some r \<Rightarrow>
          if list_ex (\<lambda>x. \<not> p x \<and> conflicts (f r) x) t then Inl P2002
          else Inr (update_where p f t))"

fun transaction :: "('w \<Rightarrow> 'e + 'w) list \<Rightarrow> 'w \<Rightarrow> 'e + 'w" where
  "transaction [] w = Inr w"
| "transaction (q # qs) w = (case q w of Inl e \<Rightarrow> Inl e | Inr w' \<Rightarrow> transaction qs w')"

lemma update_where_Nil [simp]: "update_where p f [] = []"
  by (simp add: update_where_def)

lemma update_where_Cons [simp]:
  "update_where p f (r # t) = (if p r then f r else r) # update_where p f t"
  by (simp add: update_where_def)

lemma length_update_where [simp]: "length (update_where p f t) = length t"
  by (simp add: update_where_def)

lemma set_update_where [table_simps]:
  "set (update_where p f t) = (\<lambda>r. if p r then f r else r) ` set t"
  by (simp add: update_where_def)

lemma in_update_whereE:
  assumes "x \<in> set (update_where p f t)"
  obtains (same) "x \<in> set t" "\<not> p x" | (changed) y where "y \<in> set t" "p y" "x = f y"
  using assms by (auto simp: set_update_where split: if_splits)

lemma in_update_where_changed: "y \<in> set t \<Longrightarrow> p y \<Longrightarrow> f y \<in> set (update_where p f t)"
  by (force simp: set_update_where)

lemma in_update_where_same: "y \<in> set t \<Longrightarrow> \<not> p y \<Longrightarrow> y \<in> set (update_where p f t)"
  by (force simp: set_update_where)

lemma map_update_where:
  "(\<And>r. key (f r) = key r) \<Longrightarrow> map key (update_where p f t) = map key t"
  by (simp add: update_where_def)

lemma unique_on_update_where:
  "(\<And>r. key (f r) = key r) \<Longrightarrow> unique_on key (update_where p f t) = unique_on key t"
  by (simp add: unique_on_def map_update_where)

lemma image_update_where:
  "(\<And>r. key (f r) = key r) \<Longrightarrow> key ` set (update_where p f t) = key ` set t"
  by (metis list.set_map map_update_where)

lemma lookup_update_where:
  "(\<And>r. key (f r) = key r) \<Longrightarrow>
     lookup key k (update_where p f t) = map_option (\<lambda>r. if p r then f r else r) (lookup key k t)"
  by (induction t) auto

lemma update_where_cong:
  "(\<And>r. r \<in> set t \<Longrightarrow> p r = q r) \<Longrightarrow> update_where p f t = update_where q f t"
  by (simp add: update_where_def)

lemma update_where_none: "(\<And>r. r \<in> set t \<Longrightarrow> \<not> p r) \<Longrightarrow> update_where p f t = t"
  by (simp add: update_where_def map_idI)

lemma unique_on_update_one:
  assumes "unique_on key t"
    and "\<And>r s. r \<in> set t \<Longrightarrow> s \<in> set t \<Longrightarrow> p r \<Longrightarrow> p s \<Longrightarrow> r = s"
    and "\<And>r. r \<in> set t \<Longrightarrow> p r \<Longrightarrow> key (f r) \<notin> key ` set t"
  shows "unique_on key (update_where p f t)"
proof -
  let ?g = "\<lambda>r. if p r then f r else r"
  have "inj_on (\<lambda>r. key (?g r)) (set t)"
  proof (rule inj_onI)
    fix r s assume rs: "r \<in> set t" "s \<in> set t" "key (?g r) = key (?g s)"
    consider "p r" "p s" | "p r" "\<not> p s" | "\<not> p r" "p s" | "\<not> p r" "\<not> p s" by blast
    then show "r = s"
    proof cases
      case 1
      with rs show ?thesis using assms(2) by blast
    next
      case 2
      with rs have "key (f r) \<in> key ` set t" by simp
      with 2 rs assms(3) show ?thesis by blast
    next
      case 3
      with rs have "key (f s) \<in> key ` set t" by (metis image_eqI)
      with 3 rs assms(3) show ?thesis by blast
    next
      case 4
      with rs show ?thesis using assms(1) by (auto intro: unique_on_eq)
    qed
  qed
  moreover have "distinct t" using assms(1) by (simp add: unique_on_def distinct_map)
  ultimately show ?thesis by (simp add: unique_on_def update_where_def distinct_map comp_def)
qed

lemma create_row_Inr:
  "create_row conflicts fk r t = Inr t' \<longleftrightarrow>
     t' = t @ [r] \<and> (\<forall>x \<in> set t. \<not> conflicts r x) \<and> fk"
  by (auto simp: create_row_def list_ex_iff)

lemma update_row_Inr:
  "update_row conflicts p f t = Inr t' \<Longrightarrow>
     t' = update_where p f t \<and> (\<exists>r \<in> set t. p r \<and> find p t = Some r)"
  by (auto simp: update_row_def find_Some_iff split: option.splits if_splits)

lemma update_row_NoConflict:
  "(\<And>r x. \<not> conflicts r x) \<Longrightarrow>
     update_row conflicts p f t =
       (if list_ex p t then Inr (update_where p f t) else Inl P2025)"
  by (auto simp: update_row_def list_ex_iff find_None_iff find_Some_iff split: option.splits)

text \<open>A transaction that succeeds has run every write; one that fails has none of them.\<close>

lemma transaction_append:
  "transaction (ps @ qs) w =
     (case transaction ps w of Inl e \<Rightarrow> Inl e | Inr w' \<Rightarrow> transaction qs w')"
  by (induction ps arbitrary: w) (auto split: sum.splits)

lemma transaction_invariant:
  assumes "transaction qs w = Inr w'" and "I w"
    and "\<And>q v v'. q \<in> set qs \<Longrightarrow> q v = Inr v' \<Longrightarrow> I v \<Longrightarrow> I v'"
  shows "I w'"
  using assms
proof (induction qs arbitrary: w)
  case (Cons q qs)
  then obtain v where "q w = Inr v" "transaction qs v = Inr w'"
    by (auto split: sum.splits)
  with Cons show ?case by (meson list.set_intros)
qed simp

subsection \<open>A table and one of its unique constraints\<close>

text \<open>
  \<open>key\<close> is what the constraint makes unique, \<open>conflicts\<close> the test the table's
  \<open>create\<close> makes; the law is that the test covers the key.
\<close>

locale table_constraint =
  fixes key :: "'r \<Rightarrow> 'k"
    and conflicts :: "'r \<Rightarrow> 'r \<Rightarrow> bool"
  assumes covers: "key r = key x \<Longrightarrow> conflicts r x"
begin

lemma created_key_fresh:
  "create_row conflicts fk r t = Inr t' \<Longrightarrow> key r \<notin> key ` set t"
  using covers by (fastforce simp: create_row_Inr)

lemma unique_create:
  "create_row conflicts fk r t = Inr t' \<Longrightarrow> unique_on key t \<Longrightarrow> unique_on key t'"
  using created_key_fresh [of fk r t t'] by (auto simp: create_row_Inr unique_on_def)

lemma lookup_created:
  "create_row conflicts fk r t = Inr t' \<Longrightarrow> lookup key (key r) t' = Some r"
  using created_key_fresh [of fk r t t'] lookup_None_image [of key "key r" t]
  by (auto simp: create_row_Inr lookup_append)

lemma lookup_create_other:
  "create_row conflicts fk r t = Inr t' \<Longrightarrow> k \<noteq> key r \<Longrightarrow> lookup key k t' = lookup key k t"
  by (auto simp: create_row_Inr lookup_append split: option.splits)

lemma create_duplicate:
  "lookup key (key r) t = Some x \<Longrightarrow> create_row conflicts fk r t = Inl P2002"
  by (metis covers create_row_def list_ex_iff lookup_SomeD)

end

subsection \<open>Transition systems and their invariants\<close>

text \<open>
  A component's operations as a step relation, with what every step keeps. The components that
  state such an invariant interpret this locale on their own step relation.
\<close>

locale invariant_system =
  fixes start :: "'s \<Rightarrow> bool"
    and step :: "'s \<Rightarrow> 's \<Rightarrow> bool"
    and inv :: "'s \<Rightarrow> bool"
  assumes start_inv: "start s \<Longrightarrow> inv s"
    and step_inv: "step s t \<Longrightarrow> inv s \<Longrightarrow> inv t"
begin

lemma steps_inv: "step\<^sup>*\<^sup>* s t \<Longrightarrow> inv s \<Longrightarrow> inv t"
  by (induction rule: rtranclp_induct) (auto intro: step_inv)

lemma reachable_inv: "start s \<Longrightarrow> step\<^sup>*\<^sup>* s t \<Longrightarrow> inv t"
  using start_inv steps_inv by blast

text \<open>A relation every step respects is respected by every run.\<close>

lemma steps_monotone:
  assumes "step\<^sup>*\<^sup>* s t" and "inv s"
    and refl: "\<And>u. R u u" and trans: "\<And>u v x. R u v \<Longrightarrow> R v x \<Longrightarrow> R u x"
    and mono: "\<And>u v. inv u \<Longrightarrow> step u v \<Longrightarrow> R u v"
  shows "R s t"
  using assms(1)
proof (induction rule: rtranclp_induct)
  case base
  show ?case by (rule refl)
next
  case (step u v)
  moreover from step.hyps(1) \<open>inv s\<close> have "inv u" by (rule steps_inv)
  ultimately show ?case using mono trans by blast
qed

end

end
