(* ===== verification/Schema.thy ===== *)
theory Schema
  imports Prelude
begin

section \<open>Schema: the enums and models of prisma/schema.prisma\<close>

text \<open>
  Enums are datatypes with the source's constructors, which are qualified by their type wherever
  two enums share a name (\<open>RideRequestStatus.PENDING\<close>, \<open>OfferStatus.PENDING\<close>), as in the
  TypeScript. Models are records; a field's name carries a prefix for its model. Identifiers
  (\<open>@default(uuid())\<close>) and other strings are \<open>string\<close>, \<open>Float\<close> columns are
  \<open>real\<close>, \<open>Decimal\<close> columns are \<open>rat\<close> (exact, as in the database), \<open>DateTime\<close>
  columns are milliseconds in an \<open>int\<close>, a nullable column is an \<open>option\<close>. The
  \<open>Unsupported("geography(Point, 4326)")\<close> columns are derived from the coordinates by a trigger
  (\<open>sync_driver_location\<close>) and are not stored a second time.

  For every table, \<open>..._conflicts\<close> is the disjunction of its primary key and its unique
  constraints, and one interpretation of \<open>table_constraint\<close> per constraint gives the facts
  about created rows.
\<close>

subsection \<open>Enums\<close>

datatype Role = USER | ADMIN

datatype ActiveProfile = RIDER | DRIVER

datatype DriverApplicationStatus =
    NOT_STARTED
  | PERSONAL_INFO_SUBMITTED
  | LICENSE_SUBMITTED
  | VEHICLE_SUBMITTED
  | UNDER_REVIEW
  | VERIFIED
  | REJECTED

datatype RideRequestStatus = PENDING | MATCHED | IN_PROGRESS | COMPLETED | CANCELLED

datatype OfferStatus = PENDING | ACCEPTED | REJECTED | EXPIRED

datatype TripStatus = MATCHED | STARTED | COMPLETED | CANCELLED

datatype DriverDocumentType =
    DRIVERS_LICENSE
  | VEHICLE_REGISTRATION
  | VEHICLE_PHOTO
  | PROOF_OF_INSURANCE
  | PROFILE_PHOTO

subsection \<open>Models\<close>

record User =
  u_id :: string
  u_name :: string
  u_phone :: string
  u_password :: string
  u_role :: Role
  u_activeProfile :: ActiveProfile
  u_rating :: real
  u_createdAt :: int

record RefreshToken =
  rtk_id :: string
  rtk_userId :: string
  rtk_tokenHash :: string
  rtk_expiresAt :: int
  rtk_revokedAt :: "int option"
  rtk_createdAt :: int

record PasswordResetToken =
  prt_id :: string
  prt_userId :: string
  prt_codeHash :: string
  prt_expiresAt :: int
  prt_usedAt :: "int option"
  prt_createdAt :: int

record DriverApplication =
  da_id :: string
  da_userId :: string
  da_status :: DriverApplicationStatus
  da_fullLegalName :: "string option"
  da_dateOfBirth :: "int option"
  da_residentialAddress :: "string option"
  da_licenseNumber :: "string option"
  da_licenseExpiryDate :: "int option"
  da_vehicleMake :: "string option"
  da_vehicleModel :: "string option"
  da_vehicleYear :: "int option"
  da_vehicleColor :: "string option"
  da_plateNumber :: "string option"
  da_registrationExpiryDate :: "int option"
  da_rejectionReason :: "string option"
  da_submittedAt :: "int option"
  da_reviewedAt :: "int option"
  da_createdAt :: int
  da_updatedAt :: int

record DriverProfile =
  dp_id :: string
  dp_userId :: string
  dp_driverApplicationId :: string
  dp_isOnline :: bool
  dp_currentLat :: "real option"
  dp_currentLng :: "real option"
  dp_locationUpdatedAt :: "int option"

record DriverDocument =
  dd_id :: string
  dd_driverApplicationId :: string
  dd_type :: DriverDocumentType
  dd_storageKey :: string
  dd_originalFilename :: string
  dd_mimeType :: string
  dd_sizeBytes :: int
  dd_uploadedAt :: int

record RideRequest =
  rr_id :: string
  rr_riderId :: string
  rr_pickupLat :: real
  rr_pickupLng :: real
  rr_dropoffLat :: real
  rr_dropoffLng :: real
  rr_suggestedFare :: rat
  rr_status :: RideRequestStatus
  rr_cancelReason :: "string option"
  rr_cancelledAt :: "int option"
  rr_createdAt :: int

record RideOffer =
  ro_id :: string
  ro_rideRequestId :: string
  ro_driverId :: string
  ro_offeredFare :: rat
  ro_status :: OfferStatus
  ro_createdAt :: int
  ro_expiresAt :: "int option"

record Trip =
  t_id :: string
  t_rideRequestId :: string
  t_driverId :: string
  t_riderId :: string
  t_agreedFare :: rat
  t_status :: TripStatus
  t_routePolyline :: "string option"
  t_startedAt :: "int option"
  t_endedAt :: "int option"
  t_cancelReason :: "string option"
  t_createdAt :: int

record Rating =
  rt_id :: string
  rt_tripId :: string
  rt_fromUserId :: string
  rt_toUserId :: string
  rt_score :: int
  rt_comment :: "string option"
  rt_createdAt :: int

subsection \<open>The primary and unique keys of each table\<close>

definition user_conflicts :: "User \<Rightarrow> User \<Rightarrow> bool" where
  "user_conflicts a b \<longleftrightarrow> u_id a = u_id b \<or> u_phone a = u_phone b"

definition refreshToken_conflicts :: "RefreshToken \<Rightarrow> RefreshToken \<Rightarrow> bool" where
  "refreshToken_conflicts a b \<longleftrightarrow> rtk_id a = rtk_id b \<or> rtk_tokenHash a = rtk_tokenHash b"

definition passwordResetToken_conflicts :: "PasswordResetToken \<Rightarrow> PasswordResetToken \<Rightarrow> bool" where
  "passwordResetToken_conflicts a b \<longleftrightarrow> prt_id a = prt_id b"

text \<open>Postgres allows any number of NULLs under a unique index: two missing plates do not conflict.\<close>

definition driverApplication_conflicts :: "DriverApplication \<Rightarrow> DriverApplication \<Rightarrow> bool" where
  "driverApplication_conflicts a b \<longleftrightarrow>
     da_id a = da_id b \<or> da_userId a = da_userId b \<or>
     (da_plateNumber a \<noteq> None \<and> da_plateNumber a = da_plateNumber b)"

definition driverProfile_conflicts :: "DriverProfile \<Rightarrow> DriverProfile \<Rightarrow> bool" where
  "driverProfile_conflicts a b \<longleftrightarrow>
     dp_id a = dp_id b \<or> dp_userId a = dp_userId b \<or>
     dp_driverApplicationId a = dp_driverApplicationId b"

definition dd_key :: "DriverDocument \<Rightarrow> string \<times> DriverDocumentType" where
  "dd_key d = (dd_driverApplicationId d, dd_type d)"

definition driverDocument_conflicts :: "DriverDocument \<Rightarrow> DriverDocument \<Rightarrow> bool" where
  "driverDocument_conflicts a b \<longleftrightarrow> dd_id a = dd_id b \<or> dd_key a = dd_key b"

definition rideRequest_conflicts :: "RideRequest \<Rightarrow> RideRequest \<Rightarrow> bool" where
  "rideRequest_conflicts a b \<longleftrightarrow> rr_id a = rr_id b"

definition ro_key :: "RideOffer \<Rightarrow> string \<times> string" where
  "ro_key f = (ro_rideRequestId f, ro_driverId f)"

definition rideOffer_conflicts :: "RideOffer \<Rightarrow> RideOffer \<Rightarrow> bool" where
  "rideOffer_conflicts a b \<longleftrightarrow> ro_id a = ro_id b \<or> ro_key a = ro_key b"

definition trip_conflicts :: "Trip \<Rightarrow> Trip \<Rightarrow> bool" where
  "trip_conflicts a b \<longleftrightarrow> t_id a = t_id b \<or> t_rideRequestId a = t_rideRequestId b"

definition rt_key :: "Rating \<Rightarrow> string \<times> string \<times> string" where
  "rt_key r = (rt_tripId r, rt_fromUserId r, rt_toUserId r)"

definition rating_conflicts :: "Rating \<Rightarrow> Rating \<Rightarrow> bool" where
  "rating_conflicts a b \<longleftrightarrow> rt_id a = rt_id b \<or> rt_key a = rt_key b"

lemmas conflict_defs =
  user_conflicts_def refreshToken_conflicts_def passwordResetToken_conflicts_def
  driverApplication_conflicts_def driverProfile_conflicts_def driverDocument_conflicts_def
  rideRequest_conflicts_def rideOffer_conflicts_def trip_conflicts_def rating_conflicts_def

interpretation users_id: table_constraint u_id user_conflicts
  by unfold_locales (simp add: conflict_defs)

interpretation users_phone: table_constraint u_phone user_conflicts
  by unfold_locales (simp add: conflict_defs)

interpretation refreshTokens_id: table_constraint rtk_id refreshToken_conflicts
  by unfold_locales (simp add: conflict_defs)

interpretation refreshTokens_hash: table_constraint rtk_tokenHash refreshToken_conflicts
  by unfold_locales (simp add: conflict_defs)

interpretation resetTokens_id: table_constraint prt_id passwordResetToken_conflicts
  by unfold_locales (simp add: conflict_defs)

interpretation applications_id: table_constraint da_id driverApplication_conflicts
  by unfold_locales (simp add: conflict_defs)

interpretation applications_user: table_constraint da_userId driverApplication_conflicts
  by unfold_locales (simp add: conflict_defs)

interpretation profiles_id: table_constraint dp_id driverProfile_conflicts
  by unfold_locales (simp add: conflict_defs)

interpretation profiles_user: table_constraint dp_userId driverProfile_conflicts
  by unfold_locales (simp add: conflict_defs)

interpretation profiles_application:
  table_constraint dp_driverApplicationId driverProfile_conflicts
  by unfold_locales (simp add: conflict_defs)

interpretation documents_id: table_constraint dd_id driverDocument_conflicts
  by unfold_locales (simp add: conflict_defs)

interpretation documents_type: table_constraint dd_key driverDocument_conflicts
  by unfold_locales (simp add: conflict_defs)

interpretation requests_id: table_constraint rr_id rideRequest_conflicts
  by unfold_locales (simp add: conflict_defs)

interpretation offers_id: table_constraint ro_id rideOffer_conflicts
  by unfold_locales (simp add: conflict_defs)

interpretation offers_driver: table_constraint ro_key rideOffer_conflicts
  by unfold_locales (simp add: conflict_defs)

interpretation trips_id: table_constraint t_id trip_conflicts
  by unfold_locales (simp add: conflict_defs)

interpretation trips_request: table_constraint t_rideRequestId trip_conflicts
  by unfold_locales (simp add: conflict_defs)

interpretation ratings_id: table_constraint rt_id rating_conflicts
  by unfold_locales (simp add: conflict_defs)

interpretation ratings_author: table_constraint rt_key rating_conflicts
  by unfold_locales (simp add: conflict_defs)

end
