(* ===== verification/World.thy ===== *)
theory World
  imports Schema
begin

section \<open>World: the state the services share, its effects and its row accessors\<close>

text \<open>
  The state every service reads and writes: the tables of the database, the log of the domain
  events emitted (\<open>common/events/domain-events.ts\<close>), the log of the commands sent to the
  offer-expiry queue (\<open>queues/queue-names.ts\<close>; BullMQ itself is not modelled, any job may be
  delivered at any time and any number of times), the keys of the Redis cache, the files of the
  storage and the messages handed to the SMS service.

  A service operation is a function from the world to a result (an \<open>error\<close> or a value) and the
  world it leaves: an exception does not undo the effects made before it, and a
  \<open>$transaction([...])\<close> that fails leaves the database as it was. Values the code draws from its
  environment, the clock (\<open>now\<close>, read once per operation) and the generated identifiers, are
  arguments.

  The second half holds one accessor for each Prisma call of the services, named
  \<open><model>_<call>\<close>, with its foreign keys and unique constraints.
\<close>

subsection \<open>Errors\<close>

datatype error =
    NotFoundException string
  | ForbiddenException string
  | BadRequestException string
  | ConflictException string
  | UnauthorizedException string
  | InternalServerErrorException string
  | ServiceUnavailableException string
  | PrismaError db_error
  | RawQueryError string \<comment> \<open>a \<open>$queryRaw\<close> refused by Postgres, with its SQLSTATE\<close>
  | StorageError
  | InconsistentResult \<comment> \<open>Prisma: a required relation of an \<open>include\<close> has no row\<close>
  | TypeError \<comment> \<open>a property of \<open>undefined\<close> was read\<close>

text \<open>What \<open>new ForbiddenException()\<close> and \<open>new UnauthorizedException()\<close> say without an argument.\<close>

abbreviation forbidden :: error where
  "forbidden \<equiv> ForbiddenException ''Forbidden''"

abbreviation unauthorized :: error where
  "unauthorized \<equiv> UnauthorizedException ''Unauthorized''"

text \<open>The UTF-8 bytes of the dash used in some messages.\<close>

definition em_dash :: string where
  "em_dash = [CHR 0xE2, CHR 0x80, CHR 0x94]"

subsection \<open>Domain events\<close>

datatype DomainEvent =
    RideRequestCreated RideRequest "string list"
  | OfferSubmitted RideOffer string
  | OfferAccepted RideRequest Trip RideOffer "string list"
  | TripStarted Trip
  | TripCompleted Trip
  | RideRequestCancelled RideRequest "string list"
  | OfferExpired string string string
  | DriverLocationUpdated string real real
  | DriverOnlineStatusChanged string bool "real option" "real option"

subsection \<open>The offer-expiry queue\<close>

datatype OfferExpiryJob =
    ExpireOffer string
  | ExpireDriverPendingOffers string

text \<open>
  \<open>AddJob jobId job delay attempts backoff\<close> is \<open>queue.add\<close>; \<open>RemoveJob jobId\<close> is
  \<open>getJob\<close> followed by \<open>remove\<close> with its failure swallowed, which removes the job if the
  queue still has it.
\<close>

datatype queue_command =
    AddJob string OfferExpiryJob real nat nat
  | RemoveJob string

subsection \<open>The world\<close>

record world =
  users :: "User list"
  refreshTokens :: "RefreshToken list"
  passwordResetTokens :: "PasswordResetToken list"
  driverApplications :: "DriverApplication list"
  driverProfiles :: "DriverProfile list"
  driverDocuments :: "DriverDocument list"
  rideRequests :: "RideRequest list"
  rideOffers :: "RideOffer list"
  trips :: "Trip list"
  ratings :: "Rating list"
  events :: "DomainEvent list"
  queue :: "queue_command list"
  redis :: "string \<rightharpoonup> string \<times> int"
  disk :: "string \<rightharpoonup> string"
  outbox :: "(string \<times> string) list"

definition empty_world :: world where
  "empty_world =
     \<lparr>users = [], refreshTokens = [], passwordResetTokens = [], driverApplications = [],
      driverProfiles = [], driverDocuments = [], rideRequests = [], rideOffers = [], trips = [],
      ratings = [], events = [], queue = [], redis = Map.empty, disk = Map.empty, outbox = []\<rparr>"

type_synonym 'a result = "(error + 'a) \<times> world"

definition emit :: "DomainEvent \<Rightarrow> world \<Rightarrow> world" where
  "emit e w = w\<lparr>events := events w @ [e]\<rparr>"

definition enqueue :: "queue_command \<Rightarrow> world \<Rightarrow> world" where
  "enqueue c w = w\<lparr>queue := queue w @ [c]\<rparr>"

subsection \<open>Row accessors\<close>

text \<open>Lifting a write of one table to the world: the row errors become Prisma errors.\<close>

definition on_table ::
  "(world \<Rightarrow> 'r list) \<Rightarrow> ('r list \<Rightarrow> world \<Rightarrow> world) \<Rightarrow>
   ('r list \<Rightarrow> db_error + 'r list) \<Rightarrow> world \<Rightarrow> error + world" where
  "on_table get put write w =
     (case write (get w) of
        Inl e \<Rightarrow> Inl (PrismaError e)
      | Inr t \<Rightarrow> Inr (put t w))"

abbreviation user_exists :: "string \<Rightarrow> world \<Rightarrow> bool" where
  "user_exists i w \<equiv> lookup u_id i (users w) \<noteq> None"

abbreviation profile_exists :: "string \<Rightarrow> world \<Rightarrow> bool" where
  "profile_exists i w \<equiv> lookup dp_id i (driverProfiles w) \<noteq> None"

abbreviation application_exists :: "string \<Rightarrow> world \<Rightarrow> bool" where
  "application_exists i w \<equiv> lookup da_id i (driverApplications w) \<noteq> None"

abbreviation request_exists :: "string \<Rightarrow> world \<Rightarrow> bool" where
  "request_exists i w \<equiv> lookup rr_id i (rideRequests w) \<noteq> None"

abbreviation trip_exists :: "string \<Rightarrow> world \<Rightarrow> bool" where
  "trip_exists i w \<equiv> lookup t_id i (trips w) \<noteq> None"

definition rideRequest_create :: "RideRequest \<Rightarrow> world \<Rightarrow> error + world" where
  "rideRequest_create r w =
     on_table rideRequests (\<lambda>t. rideRequests_update (\<lambda>_. t))
       (create_row rideRequest_conflicts (user_exists (rr_riderId r) w) r) w"

definition rideRequest_update ::
  "string \<Rightarrow> (RideRequest \<Rightarrow> RideRequest) \<Rightarrow> world \<Rightarrow> error + world" where
  "rideRequest_update i f =
     on_table rideRequests (\<lambda>t. rideRequests_update (\<lambda>_. t))
       (update_row rideRequest_conflicts (\<lambda>r. rr_id r = i) f)"

definition rideOffer_create :: "RideOffer \<Rightarrow> world \<Rightarrow> error + world" where
  "rideOffer_create f w =
     on_table rideOffers (\<lambda>t. rideOffers_update (\<lambda>_. t))
       (create_row rideOffer_conflicts
          (request_exists (ro_rideRequestId f) w \<and> profile_exists (ro_driverId f) w) f) w"

definition rideOffer_update ::
  "string \<Rightarrow> (RideOffer \<Rightarrow> RideOffer) \<Rightarrow> world \<Rightarrow> error + world" where
  "rideOffer_update i f =
     on_table rideOffers (\<lambda>t. rideOffers_update (\<lambda>_. t))
       (update_row rideOffer_conflicts (\<lambda>r. ro_id r = i) f)"

definition rideOffer_updateMany ::
  "(RideOffer \<Rightarrow> bool) \<Rightarrow> (RideOffer \<Rightarrow> RideOffer) \<Rightarrow> world \<Rightarrow> error + world" where
  "rideOffer_updateMany p f w = Inr (w\<lparr>rideOffers := update_where p f (rideOffers w)\<rparr>)"

definition trip_create :: "Trip \<Rightarrow> world \<Rightarrow> error + world" where
  "trip_create t w =
     on_table trips (\<lambda>ts. trips_update (\<lambda>_. ts))
       (create_row trip_conflicts
          (request_exists (t_rideRequestId t) w \<and> user_exists (t_driverId t) w \<and>
           user_exists (t_riderId t) w) t) w"

definition trip_update :: "string \<Rightarrow> (Trip \<Rightarrow> Trip) \<Rightarrow> world \<Rightarrow> error + world" where
  "trip_update i f =
     on_table trips (\<lambda>t. trips_update (\<lambda>_. t))
       (update_row trip_conflicts (\<lambda>r. t_id r = i) f)"

definition rating_create :: "Rating \<Rightarrow> world \<Rightarrow> error + world" where
  "rating_create r w =
     on_table ratings (\<lambda>t. ratings_update (\<lambda>_. t))
       (create_row rating_conflicts
          (trip_exists (rt_tripId r) w \<and> user_exists (rt_fromUserId r) w \<and>
           user_exists (rt_toUserId r) w) r) w"

definition user_create :: "User \<Rightarrow> world \<Rightarrow> error + world" where
  "user_create u =
     on_table users (\<lambda>t. users_update (\<lambda>_. t)) (create_row user_conflicts True u)"

definition user_update :: "string \<Rightarrow> (User \<Rightarrow> User) \<Rightarrow> world \<Rightarrow> error + world" where
  "user_update i f =
     on_table users (\<lambda>t. users_update (\<lambda>_. t))
       (update_row user_conflicts (\<lambda>r. u_id r = i) f)"

definition driverProfile_create :: "DriverProfile \<Rightarrow> world \<Rightarrow> error + world" where
  "driverProfile_create p w =
     on_table driverProfiles (\<lambda>t. driverProfiles_update (\<lambda>_. t))
       (create_row driverProfile_conflicts
          (user_exists (dp_userId p) w \<and> application_exists (dp_driverApplicationId p) w) p) w"

definition driverProfile_update ::
  "(DriverProfile \<Rightarrow> bool) \<Rightarrow> (DriverProfile \<Rightarrow> DriverProfile) \<Rightarrow> world \<Rightarrow> error + world" where
  "driverProfile_update p f =
     on_table driverProfiles (\<lambda>t. driverProfiles_update (\<lambda>_. t))
       (update_row driverProfile_conflicts p f)"

definition driverApplication_create :: "DriverApplication \<Rightarrow> world \<Rightarrow> error + world" where
  "driverApplication_create a w =
     on_table driverApplications (\<lambda>t. driverApplications_update (\<lambda>_. t))
       (create_row driverApplication_conflicts (user_exists (da_userId a) w) a) w"

definition driverApplication_update ::
  "string \<Rightarrow> (DriverApplication \<Rightarrow> DriverApplication) \<Rightarrow> world \<Rightarrow> error + world" where
  "driverApplication_update i f =
     on_table driverApplications (\<lambda>t. driverApplications_update (\<lambda>_. t))
       (update_row driverApplication_conflicts (\<lambda>r. da_id r = i) f)"

definition driverDocument_create :: "DriverDocument \<Rightarrow> world \<Rightarrow> error + world" where
  "driverDocument_create d w =
     on_table driverDocuments (\<lambda>t. driverDocuments_update (\<lambda>_. t))
       (create_row driverDocument_conflicts
          (application_exists (dd_driverApplicationId d) w) d) w"

definition driverDocument_update ::
  "(DriverDocument \<Rightarrow> bool) \<Rightarrow> (DriverDocument \<Rightarrow> DriverDocument) \<Rightarrow> world \<Rightarrow> error + world" where
  "driverDocument_update p f =
     on_table driverDocuments (\<lambda>t. driverDocuments_update (\<lambda>_. t))
       (update_row driverDocument_conflicts p f)"

lemmas accessor_defs [row_defs] =
  on_table_def rideRequest_create_def rideRequest_update_def rideOffer_create_def
  rideOffer_update_def rideOffer_updateMany_def trip_create_def trip_update_def
  rating_create_def user_create_def user_update_def driverProfile_create_def
  driverProfile_update_def driverApplication_create_def driverApplication_update_def
  driverDocument_create_def driverDocument_update_def

subsection \<open>What a write leaves when it succeeds\<close>

lemma on_table_Inr:
  "on_table get put write w = Inr w' \<longleftrightarrow> (\<exists>t. write (get w) = Inr t \<and> w' = put t w)"
  by (auto simp: on_table_def split: sum.splits)

lemma rideRequest_create_Inr:
  "rideRequest_create r w = Inr w' \<longleftrightarrow>
     create_row rideRequest_conflicts (user_exists (rr_riderId r) w) r (rideRequests w)
       = Inr (rideRequests w @ [r]) \<and>
     w' = w\<lparr>rideRequests := rideRequests w @ [r]\<rparr>"
  by (auto simp: rideRequest_create_def on_table_Inr create_row_Inr)

lemma rideOffer_create_Inr:
  "rideOffer_create f w = Inr w' \<longleftrightarrow>
     create_row rideOffer_conflicts
       (request_exists (ro_rideRequestId f) w \<and> profile_exists (ro_driverId f) w) f (rideOffers w)
       = Inr (rideOffers w @ [f]) \<and>
     w' = w\<lparr>rideOffers := rideOffers w @ [f]\<rparr>"
  by (auto simp: rideOffer_create_def on_table_Inr create_row_Inr)

lemma trip_create_Inr:
  "trip_create t w = Inr w' \<longleftrightarrow>
     create_row trip_conflicts
       (request_exists (t_rideRequestId t) w \<and> user_exists (t_driverId t) w \<and>
        user_exists (t_riderId t) w) t (trips w) = Inr (trips w @ [t]) \<and>
     w' = w\<lparr>trips := trips w @ [t]\<rparr>"
  by (auto simp: trip_create_def on_table_Inr create_row_Inr)

lemma rating_create_Inr:
  "rating_create r w = Inr w' \<longleftrightarrow>
     create_row rating_conflicts
       (trip_exists (rt_tripId r) w \<and> user_exists (rt_fromUserId r) w \<and>
        user_exists (rt_toUserId r) w) r (ratings w) = Inr (ratings w @ [r]) \<and>
     w' = w\<lparr>ratings := ratings w @ [r]\<rparr>"
  by (auto simp: rating_create_def on_table_Inr create_row_Inr)

lemma rideRequest_update_Inr:
  "rideRequest_update i f w = Inr w' \<Longrightarrow>
     w' = w\<lparr>rideRequests := update_where (\<lambda>r. rr_id r = i) f (rideRequests w)\<rparr> \<and>
     lookup rr_id i (rideRequests w) \<noteq> None"
  by (auto simp: rideRequest_update_def on_table_Inr lookup_def dest!: update_row_Inr)

lemma rideOffer_update_Inr:
  "rideOffer_update i f w = Inr w' \<Longrightarrow>
     w' = w\<lparr>rideOffers := update_where (\<lambda>r. ro_id r = i) f (rideOffers w)\<rparr> \<and>
     lookup ro_id i (rideOffers w) \<noteq> None"
  by (auto simp: rideOffer_update_def on_table_Inr lookup_def dest!: update_row_Inr)

lemma trip_update_Inr:
  "trip_update i f w = Inr w' \<Longrightarrow>
     w' = w\<lparr>trips := update_where (\<lambda>r. t_id r = i) f (trips w)\<rparr> \<and>
     lookup t_id i (trips w) \<noteq> None"
  by (auto simp: trip_update_def on_table_Inr lookup_def dest!: update_row_Inr)

lemma user_update_Inr:
  "user_update i f w = Inr w' \<Longrightarrow>
     w' = w\<lparr>users := update_where (\<lambda>r. u_id r = i) f (users w)\<rparr> \<and>
     lookup u_id i (users w) \<noteq> None"
  by (auto simp: user_update_def on_table_Inr lookup_def dest!: update_row_Inr)

subsection \<open>When a write succeeds\<close>

text \<open>
  An update that keeps the unique columns of an existing row always succeeds: the test for
  conflicts only meets other rows, which differ in those columns already.
\<close>

lemma update_row_ok:
  assumes "lookup key k t = Some r"
    and "\<And>x. x \<in> set t \<Longrightarrow> conflicts (f r) x \<Longrightarrow> x = r"
  shows "update_row conflicts (\<lambda>x. key x = k) f t = Inr (update_where (\<lambda>x. key x = k) f t)"
proof -
  from assms(1) have "find (\<lambda>x. key x = k) t = Some r" and "key r = k"
    by (auto simp: lookup_def find_Some_iff)
  then show ?thesis using assms(2) by (auto simp: update_row_def list_ex_iff)
qed

lemma rideRequest_update_ok:
  assumes "unique_on rr_id (rideRequests w)" "lookup rr_id i (rideRequests w) = Some r"
    and "rr_id (f r) = i"
  shows "rideRequest_update i f w
    = Inr (w\<lparr>rideRequests := update_where (\<lambda>r. rr_id r = i) f (rideRequests w)\<rparr>)"
proof -
  have "x = r" if "x \<in> set (rideRequests w)" "rideRequest_conflicts (f r) x" for x
    using that assms by (metis lookup_Some_iff option.inject rideRequest_conflicts_def)
  with assms(2) have "update_row rideRequest_conflicts (\<lambda>r. rr_id r = i) f (rideRequests w)
    = Inr (update_where (\<lambda>r. rr_id r = i) f (rideRequests w))" by (rule update_row_ok)
  then show ?thesis by (simp add: rideRequest_update_def on_table_def)
qed

lemma rideOffer_update_ok:
  assumes "unique_on ro_id (rideOffers w)" "unique_on ro_key (rideOffers w)"
    and "lookup ro_id i (rideOffers w) = Some r" "ro_id (f r) = i" "ro_key (f r) = ro_key r"
  shows "rideOffer_update i f w
    = Inr (w\<lparr>rideOffers := update_where (\<lambda>r. ro_id r = i) f (rideOffers w)\<rparr>)"
proof -
  from assms(3) have r: "r \<in> set (rideOffers w)" "ro_id r = i" by (auto dest: lookup_SomeD)
  have "x = r" if "x \<in> set (rideOffers w)" "rideOffer_conflicts (f r) x" for x
    using that assms r unique_on_eq [of ro_id "rideOffers w" r x]
      unique_on_eq [of ro_key "rideOffers w" r x]
    by (auto simp: rideOffer_conflicts_def)
  with assms(3) have "update_row rideOffer_conflicts (\<lambda>r. ro_id r = i) f (rideOffers w)
    = Inr (update_where (\<lambda>r. ro_id r = i) f (rideOffers w))" by (rule update_row_ok)
  then show ?thesis by (simp add: rideOffer_update_def on_table_def)
qed

lemma trip_update_ok:
  assumes "unique_on t_id (trips w)" "unique_on t_rideRequestId (trips w)"
    and "lookup t_id i (trips w) = Some r" "t_id (f r) = i"
    and "t_rideRequestId (f r) = t_rideRequestId r"
  shows "trip_update i f w = Inr (w\<lparr>trips := update_where (\<lambda>r. t_id r = i) f (trips w)\<rparr>)"
proof -
  from assms(3) have r: "r \<in> set (trips w)" "t_id r = i" by (auto dest: lookup_SomeD)
  have "x = r" if "x \<in> set (trips w)" "trip_conflicts (f r) x" for x
    using that assms r unique_on_eq [of t_id "trips w" r x]
      unique_on_eq [of t_rideRequestId "trips w" r x]
    by (auto simp: trip_conflicts_def)
  with assms(3) have "update_row trip_conflicts (\<lambda>r. t_id r = i) f (trips w)
    = Inr (update_where (\<lambda>r. t_id r = i) f (trips w))" by (rule update_row_ok)
  then show ?thesis by (simp add: trip_update_def on_table_def)
qed

lemma user_update_ok:
  assumes "unique_on u_id (users w)" "unique_on u_phone (users w)"
    and "lookup u_id i (users w) = Some r" "u_id (f r) = i" "u_phone (f r) = u_phone r"
  shows "user_update i f w = Inr (w\<lparr>users := update_where (\<lambda>r. u_id r = i) f (users w)\<rparr>)"
proof -
  from assms(3) have r: "r \<in> set (users w)" "u_id r = i" by (auto dest: lookup_SomeD)
  have "x = r" if "x \<in> set (users w)" "user_conflicts (f r) x" for x
    using that assms r unique_on_eq [of u_id "users w" r x]
      unique_on_eq [of u_phone "users w" r x]
    by (auto simp: user_conflicts_def)
  with assms(3) have "update_row user_conflicts (\<lambda>r. u_id r = i) f (users w)
    = Inr (update_where (\<lambda>r. u_id r = i) f (users w))" by (rule update_row_ok)
  then show ?thesis by (simp add: user_update_def on_table_def)
qed

end
