(* ===== verification/Offers.thy ===== *)
theory Offers
  imports World
begin

section \<open>Offers: negotiation on a ride request\<close>

text \<open>
  Models \<open>offers/offers.service.ts\<close> and \<open>offers/offer-expiry.processor.ts\<close>. An operation that
  awaits between its checks and its writes is a composition of its phases (\<open>..._load\<close>,
  \<open>..._commit\<close>, \<open>..._finish\<close>), so that the interleaving of two requests can be stated on the same
  definitions. \<open>expirySeconds\<close> is the configuration \<open>OFFER_EXPIRY_SECONDS\<close>.
\<close>

subsection \<open>Scheduling\<close>

definition JOB_RETRY_ATTEMPTS :: nat where
  "JOB_RETRY_ATTEMPTS = 3"

definition JOB_RETRY_BACKOFF :: nat where
  "JOB_RETRY_BACKOFF = 2000"

definition offer_job_id :: "string \<Rightarrow> string" where
  "offer_job_id offerId = ''offer-'' @ offerId"

definition disconnect_job_id :: "string \<Rightarrow> string" where
  "disconnect_job_id driverProfileId = ''driver-disconnect-'' @ driverProfileId"

definition cancelScheduledExpiry :: "string \<Rightarrow> world \<Rightarrow> world" where
  "cancelScheduledExpiry offerId = enqueue (RemoveJob (offer_job_id offerId))"

definition scheduleExpiry :: "real \<Rightarrow> string \<Rightarrow> world \<Rightarrow> world" where
  "scheduleExpiry expirySeconds offerId w =
     enqueue (AddJob (offer_job_id offerId) (ExpireOffer offerId) (expirySeconds * 1000)
                JOB_RETRY_ATTEMPTS JOB_RETRY_BACKOFF)
       (cancelScheduledExpiry offerId w)"

definition scheduleDriverOfferExpiry :: "real \<Rightarrow> string \<Rightarrow> world \<Rightarrow> world" where
  "scheduleDriverOfferExpiry expirySeconds driverProfileId =
     enqueue (AddJob (disconnect_job_id driverProfileId)
                (ExpireDriverPendingOffers driverProfileId) (expirySeconds * 1000)
                JOB_RETRY_ATTEMPTS JOB_RETRY_BACKOFF)"

subsection \<open>submitOffer\<close>

definition submitOffer_load ::
  "string \<Rightarrow> string \<Rightarrow> world \<Rightarrow> error + DriverProfile \<times> RideRequest" where
  "submitOffer_load driverUserId rideRequestId w =
     (case lookup dp_userId driverUserId (driverProfiles w) of
        None \<Rightarrow> Inl (NotFoundException ''Driver profile not found'')
      | Some profile \<Rightarrow>
          (case lookup rr_id rideRequestId (rideRequests w) of
             None \<Rightarrow> Inl (NotFoundException ''Ride request not found'')
           | Some request \<Rightarrow>
               if rr_status request \<noteq> RideRequestStatus.PENDING
               then Inl (BadRequestException ''Ride request is no longer accepting offers'')
               else Inr (profile, request)))"

definition new_offer :: "string \<Rightarrow> int \<Rightarrow> string \<Rightarrow> string \<Rightarrow> rat \<Rightarrow> RideOffer" where
  "new_offer newId now rideRequestId driverId fare =
     \<lparr>ro_id = newId, ro_rideRequestId = rideRequestId, ro_driverId = driverId,
      ro_offeredFare = fare, ro_status = OfferStatus.PENDING, ro_createdAt = now,
      ro_expiresAt = None\<rparr>"

definition resubmit :: "rat \<Rightarrow> RideOffer \<Rightarrow> RideOffer" where
  "resubmit fare f = f\<lparr>ro_offeredFare := fare, ro_status := OfferStatus.PENDING\<rparr>"

text \<open>The upsert on \<open>rideRequestId_driverId\<close>.\<close>

definition rideOffer_upsert ::
  "string \<Rightarrow> int \<Rightarrow> string \<Rightarrow> string \<Rightarrow> rat \<Rightarrow> world \<Rightarrow> error + RideOffer \<times> world" where
  "rideOffer_upsert newId now rideRequestId driverId fare w =
     (case lookup ro_key (rideRequestId, driverId) (rideOffers w) of
        Some existing \<Rightarrow>
          (case rideOffer_update (ro_id existing) (resubmit fare) w of
             Inl e \<Rightarrow> Inl e
           | Inr w' \<Rightarrow> Inr (resubmit fare existing, w'))
      | None \<Rightarrow>
          (case rideOffer_create (new_offer newId now rideRequestId driverId fare) w of
             Inl e \<Rightarrow> Inl e
           | Inr w' \<Rightarrow> Inr (new_offer newId now rideRequestId driverId fare, w')))"

definition submitOffer_finish :: "real \<Rightarrow> RideOffer \<Rightarrow> RideRequest \<Rightarrow> world \<Rightarrow> world" where
  "submitOffer_finish expirySeconds f request w =
     emit (OfferSubmitted f (rr_riderId request)) (scheduleExpiry expirySeconds (ro_id f) w)"

definition submitOffer ::
  "real \<Rightarrow> string \<Rightarrow> int \<Rightarrow> string \<Rightarrow> string \<Rightarrow> rat \<Rightarrow> world \<Rightarrow> RideOffer result" where
  "submitOffer expirySeconds newId now driverUserId rideRequestId offeredFare w =
     (case submitOffer_load driverUserId rideRequestId w of
        Inl e \<Rightarrow> (Inl e, w)
      | Inr (profile, request) \<Rightarrow>
          (case rideOffer_upsert newId now rideRequestId (dp_id profile) offeredFare w of
             Inl e \<Rightarrow> (Inl e, w)
           | Inr (f, w') \<Rightarrow> (Inr f, submitOffer_finish expirySeconds f request w')))"

subsection \<open>acceptOffer\<close>

text \<open>
  \<open>include: { driver: { include: { user: { select: ... } } } }\<close>: the user behind an offer's driver
  profile; the callers read the selected columns off the row.
\<close>

definition driver_user_of :: "RideOffer \<Rightarrow> world \<Rightarrow> error + User" where
  "driver_user_of f w =
     (case lookup dp_id (ro_driverId f) (driverProfiles w) of
        None \<Rightarrow> Inl InconsistentResult
      | Some p \<Rightarrow>
          (case lookup u_id (dp_userId p) (users w) of
             None \<Rightarrow> Inl InconsistentResult
           | Some u \<Rightarrow> Inr u))"

fun with_driver_users :: "RideOffer list \<Rightarrow> world \<Rightarrow> error + (RideOffer \<times> User) list" where
  "with_driver_users [] w = Inr []"
| "with_driver_users (f # fs) w =
     (case driver_user_of f w of
        Inl e \<Rightarrow> Inl e
      | Inr u \<Rightarrow>
          (case with_driver_users fs w of
             Inl e \<Rightarrow> Inl e
           | Inr us \<Rightarrow> Inr ((f, u) # us)))"

record OfferView =
  ov_offer :: RideOffer
  ov_request :: RideRequest
  ov_driverUserId :: string

definition acceptOffer_load :: "string \<Rightarrow> string \<Rightarrow> world \<Rightarrow> error + OfferView" where
  "acceptOffer_load riderId offerId w =
     (case lookup ro_id offerId (rideOffers w) of
        None \<Rightarrow> Inl (NotFoundException ''Offer not found'')
      | Some f \<Rightarrow>
          (case (lookup rr_id (ro_rideRequestId f) (rideRequests w), driver_user_of f w) of
             (None, _) \<Rightarrow> Inl InconsistentResult
           | (_, Inl e) \<Rightarrow> Inl e
           | (Some r, Inr d) \<Rightarrow>
               if rr_riderId r \<noteq> riderId then Inl forbidden
               else if rr_status r \<noteq> RideRequestStatus.PENDING \<or> ro_status f \<noteq> OfferStatus.PENDING
               then Inl (BadRequestException ''Offer can no longer be accepted'')
               else Inr \<lparr>ov_offer = f, ov_request = r, ov_driverUserId = u_id d\<rparr>))"

definition competing :: "RideOffer \<Rightarrow> RideOffer \<Rightarrow> bool" where
  "competing f x \<longleftrightarrow>
     ro_rideRequestId x = ro_rideRequestId f \<and> ro_status x = OfferStatus.PENDING \<and>
     ro_id x \<noteq> ro_id f"

definition acceptOffer_others ::
  "OfferView \<Rightarrow> world \<Rightarrow> error + (RideOffer \<times> User) list" where
  "acceptOffer_others v w = with_driver_users (filter (competing (ov_offer v)) (rideOffers w)) w"

definition new_trip :: "string \<Rightarrow> int \<Rightarrow> string \<Rightarrow> OfferView \<Rightarrow> Trip" where
  "new_trip newId now riderId v =
     \<lparr>t_id = newId, t_rideRequestId = ro_rideRequestId (ov_offer v),
      t_driverId = ov_driverUserId v, t_riderId = riderId,
      t_agreedFare = ro_offeredFare (ov_offer v), t_status = TripStatus.MATCHED,
      t_routePolyline = None, t_startedAt = None, t_endedAt = None, t_cancelReason = None,
      t_createdAt = now\<rparr>"

definition acceptOffer_commit ::
  "string \<Rightarrow> int \<Rightarrow> string \<Rightarrow> OfferView \<Rightarrow> world \<Rightarrow> error + world" where
  "acceptOffer_commit newId now riderId v =
     transaction
       [rideOffer_update (ro_id (ov_offer v)) (\<lambda>f. f\<lparr>ro_status := OfferStatus.ACCEPTED\<rparr>),
        rideOffer_updateMany (competing (ov_offer v)) (\<lambda>f. f\<lparr>ro_status := OfferStatus.EXPIRED\<rparr>),
        rideRequest_update (ro_rideRequestId (ov_offer v))
          (\<lambda>r. r\<lparr>rr_status := RideRequestStatus.MATCHED\<rparr>),
        trip_create (new_trip newId now riderId v)]"

definition acceptOffer_finish ::
  "OfferView \<Rightarrow> (RideOffer \<times> User) list \<Rightarrow> Trip \<Rightarrow> world \<Rightarrow> world" where
  "acceptOffer_finish v others trip w =
     emit (OfferAccepted ((ov_request v)\<lparr>rr_status := RideRequestStatus.MATCHED\<rparr>) trip
             ((ov_offer v)\<lparr>ro_status := OfferStatus.ACCEPTED\<rparr>) (map (u_id \<circ> snd) others))
       (fold cancelScheduledExpiry (map ro_id (ov_offer v # map fst others)) w)"

definition acceptOffer ::
  "string \<Rightarrow> int \<Rightarrow> string \<Rightarrow> string \<Rightarrow> world \<Rightarrow> Trip result" where
  "acceptOffer newId now riderId offerId w =
     (case acceptOffer_load riderId offerId w of
        Inl e \<Rightarrow> (Inl e, w)
      | Inr v \<Rightarrow>
          (case acceptOffer_others v w of
             Inl e \<Rightarrow> (Inl e, w)
           | Inr others \<Rightarrow>
               (case acceptOffer_commit newId now riderId v w of
                  Inl e \<Rightarrow> (Inl e, w)
                | Inr w' \<Rightarrow>
                    (Inr (new_trip newId now riderId v),
                     acceptOffer_finish v others (new_trip newId now riderId v) w'))))"

subsection \<open>Expiry\<close>

definition expireIfStillPending_load ::
  "string \<Rightarrow> world \<Rightarrow> error + (RideOffer \<times> User) option" where
  "expireIfStillPending_load offerId w =
     (case lookup ro_id offerId (rideOffers w) of
        None \<Rightarrow> Inr None
      | Some f \<Rightarrow>
          (case driver_user_of f w of
             Inl e \<Rightarrow> Inl e
           | Inr d \<Rightarrow> Inr (if ro_status f \<noteq> OfferStatus.PENDING then None else Some (f, d))))"

definition expireOffer_commit :: "string \<Rightarrow> world \<Rightarrow> error + world" where
  "expireOffer_commit offerId =
     rideOffer_update offerId (\<lambda>f. f\<lparr>ro_status := OfferStatus.EXPIRED\<rparr>)"

definition expireIfStillPending :: "string \<Rightarrow> world \<Rightarrow> (string \<times> string) option result" where
  "expireIfStillPending offerId w =
     (case expireIfStillPending_load offerId w of
        Inl e \<Rightarrow> (Inl e, w)
      | Inr None \<Rightarrow> (Inr None, w)
      | Inr (Some (f, d)) \<Rightarrow>
          (case expireOffer_commit offerId w of
             Inl e \<Rightarrow> (Inl e, w)
           | Inr w' \<Rightarrow> (Inr (Some (ro_rideRequestId f, u_id d)), w')))"

definition pending_of_driver :: "string \<Rightarrow> RideOffer \<Rightarrow> bool" where
  "pending_of_driver driverProfileId f \<longleftrightarrow>
     ro_driverId f = driverProfileId \<and> ro_status f = OfferStatus.PENDING"

definition expireAllPendingOffersForDriver :: "string \<Rightarrow> world \<Rightarrow> unit result" where
  "expireAllPendingOffersForDriver driverProfileId w =
     (case lookup dp_id driverProfileId (driverProfiles w) of
        None \<Rightarrow> (Inr (), w)
      | Some p \<Rightarrow>
          if dp_isOnline p then (Inr (), w)
          else
            (case rideOffer_updateMany (pending_of_driver driverProfileId)
                    (\<lambda>f. f\<lparr>ro_status := OfferStatus.EXPIRED\<rparr>) w of
               Inl e \<Rightarrow> (Inl e, w)
             | Inr w' \<Rightarrow> (Inr (), w')))"

text \<open>\<open>OfferExpiryProcessor.process\<close>, by the job's name and data.\<close>

fun process_job :: "OfferExpiryJob \<Rightarrow> world \<Rightarrow> unit result" where
  "process_job (ExpireOffer offerId) w =
     (case expireIfStillPending offerId w of
        (Inl e, w') \<Rightarrow> (Inl e, w')
      | (Inr None, w') \<Rightarrow> (Inr (), w')
      | (Inr (Some (rideRequestId, driverUserId)), w') \<Rightarrow>
          (Inr (), emit (OfferExpired rideRequestId offerId driverUserId) w'))"
| "process_job (ExpireDriverPendingOffers driverProfileId) w =
     expireAllPendingOffersForDriver driverProfileId w"

lemmas offer_ops [op_defs] =
  submitOffer_def submitOffer_load_def rideOffer_upsert_def submitOffer_finish_def
  acceptOffer_def acceptOffer_load_def acceptOffer_commit_def
  expireIfStillPending_def expireIfStillPending_load_def expireOffer_commit_def
  expireAllPendingOffersForDriver_def

end
