(* ===== verification/Matching.thy ===== *)
theory Matching
  imports World
begin

section \<open>Matching: the radius queries of MatchingService\<close>

text \<open>
  Models \<open>matching/matching.service.ts\<close>. PostGIS is a parameter (the record \<open>geography\<close>: the
  functions the two queries call on points \<open>(lng, lat)\<close>); the \<open>WHERE\<close>, \<open>ORDER BY\<close> and
  \<open>LIMIT\<close> clauses are the model's own. The columns of \<open>driver_profiles\<close> are computed from the
  migrations, because the second query names columns a later migration drops.
\<close>

type_synonym point = "real \<times> real"

record geography =
  st_distance :: "point \<Rightarrow> point \<Rightarrow> real"
  st_dwithin :: "point \<Rightarrow> point \<Rightarrow> real \<Rightarrow> bool"
  st_knn :: "point \<Rightarrow> point \<Rightarrow> real"

text \<open>The trigger \<open>sync_driver_location\<close>: the geography column, from the coordinates.\<close>

definition dp_location :: "DriverProfile \<Rightarrow> point option" where
  "dp_location p =
     (case (dp_currentLat p, dp_currentLng p) of
        (Some y, Some x) \<Rightarrow> Some (x, y)
      | _ \<Rightarrow> None)"

record NearbyDriver =
  nd_driverId :: string
  nd_userId :: string
  nd_distanceMeters :: real

definition radius_meters :: "real \<Rightarrow> real option \<Rightarrow> real" where
  "radius_meters defaultKm radiusKm = (case radiusKm of None \<Rightarrow> defaultKm | Some r \<Rightarrow> r) * 1000"

text \<open>The shared part of both queries: \<open>FROM ... WHERE ... ORDER BY ... LIMIT 50\<close>.\<close>

definition in_radius :: "geography \<Rightarrow> point \<Rightarrow> real \<Rightarrow> DriverProfile \<Rightarrow> bool" where
  "in_radius g c radius p \<longleftrightarrow>
     dp_isOnline p \<and>
     (case dp_location p of None \<Rightarrow> False | Some l \<Rightarrow> st_dwithin g l c radius)"

definition knn_of :: "geography \<Rightarrow> point \<Rightarrow> DriverProfile \<Rightarrow> real" where
  "knn_of g c p = (case dp_location p of None \<Rightarrow> 0 | Some l \<Rightarrow> st_knn g l c)"

definition distance_of :: "geography \<Rightarrow> point \<Rightarrow> DriverProfile \<Rightarrow> real" where
  "distance_of g c p = (case dp_location p of None \<Rightarrow> 0 | Some l \<Rightarrow> st_distance g l c)"

definition nearby_rows :: "geography \<Rightarrow> point \<Rightarrow> real \<Rightarrow> world \<Rightarrow> DriverProfile list" where
  "nearby_rows g c radius w =
     take 50 (sort_key (knn_of g c) (filter (in_radius g c radius) (driverProfiles w)))"

definition findNearbyDrivers ::
  "geography \<Rightarrow> real \<Rightarrow> real \<Rightarrow> real \<Rightarrow> real option \<Rightarrow> world \<Rightarrow> NearbyDriver list" where
  "findNearbyDrivers g defaultKm lat lng radiusKm w =
     map (\<lambda>p. \<lparr>nd_driverId = dp_id p, nd_userId = dp_userId p,
               nd_distanceMeters = distance_of g (lng, lat) p\<rparr>)
       (nearby_rows g (lng, lat) (radius_meters defaultKm radiusKm) w)"

subsection \<open>The columns of driver_profiles, migration by migration\<close>

definition driver_profiles_init :: "string list" where
  "driver_profiles_init =
     [''id'', ''user_id'', ''vehicle_make'', ''vehicle_model'', ''plate_number'', ''is_online'',
      ''is_verified'', ''current_lat'', ''current_lng'', ''location_updated_at'', ''location'']"

definition driver_profiles_dual :: "string list \<Rightarrow> string list" where
  "driver_profiles_dual cols =
     filter (\<lambda>c. c \<notin> set [''is_verified'', ''plate_number'', ''vehicle_make'', ''vehicle_model'']) cols
       @ [''driver_application_id'']"

definition driver_profiles_columns :: "string list" where
  "driver_profiles_columns = driver_profiles_dual driver_profiles_init"

datatype cell = CText string | CBool bool | CFloat "real option" | CDate "int option"

definition profile_cell :: "string \<Rightarrow> DriverProfile \<Rightarrow> cell option" where
  "profile_cell c p =
     (if c = ''id'' then Some (CText (dp_id p))
      else if c = ''user_id'' then Some (CText (dp_userId p))
      else if c = ''driver_application_id'' then Some (CText (dp_driverApplicationId p))
      else if c = ''is_online'' then Some (CBool (dp_isOnline p))
      else if c = ''current_lat'' then Some (CFloat (dp_currentLat p))
      else if c = ''current_lng'' then Some (CFloat (dp_currentLng p))
      else if c = ''location_updated_at'' then Some (CDate (dp_locationUpdatedAt p))
      else None)"

text \<open>The columns the live-map query selects, with their aliases.\<close>

definition live_map_select :: "(string \<times> string) list" where
  "live_map_select =
     [(''id'', ''driverId''), (''user_id'', ''userId''), (''current_lat'', ''lat''),
      (''current_lng'', ''lng''), (''vehicle_make'', ''vehicleMake''),
      (''vehicle_model'', ''vehicleModel'')]"

text \<open>
  Postgres resolves every column name when it parses the statement, before it reads a row: an
  unknown one is SQLSTATE 42703 (undefined_column), whatever the table holds.
\<close>

definition findNearbyDriverLocations ::
  "string list \<Rightarrow> geography \<Rightarrow> real \<Rightarrow> real \<Rightarrow> real \<Rightarrow> real option \<Rightarrow> world \<Rightarrow>
   error + ((string \<times> cell option) list \<times> real) list" where
  "findNearbyDriverLocations columns g defaultKm lat lng radiusKm w =
     (if \<exists>c \<in> set (map fst live_map_select @ [''location'', ''is_online'']). c \<notin> set columns
      then Inl (RawQueryError ''42703'')
      else Inr (map (\<lambda>p. (map (\<lambda>(c, alias). (alias, profile_cell c p)) live_map_select,
                          distance_of g (lng, lat) p))
                 (nearby_rows g (lng, lat) (radius_meters defaultKm radiusKm) w)))"

lemmas matching_defs = findNearbyDrivers_def nearby_rows_def in_radius_def

subsection \<open>What the ride broadcast promises\<close>

lemma nearby_rows_subset:
  "p \<in> set (nearby_rows g c radius w) \<Longrightarrow> p \<in> set (driverProfiles w) \<and> in_radius g c radius p"
  by (auto simp: nearby_rows_def dest: in_set_takeD)

lemma nearby_rows_length: "length (nearby_rows g c radius w) \<le> 50"
  by (simp add: nearby_rows_def)

lemma nearby_rows_sorted: "sorted (map (knn_of g c) (nearby_rows g c radius w))"
  by (simp add: nearby_rows_def sorted_wrt_take flip: take_map)

text \<open>A driver left out by the \<open>LIMIT\<close> is at least as far as every driver returned.\<close>

lemma sorted_take_drop:
  "sorted xs \<Longrightarrow> x \<in> set (take n xs) \<Longrightarrow> y \<in> set (drop n xs) \<Longrightarrow> x \<le> y"
  by (metis append_take_drop_id sorted_append)

lemma nearby_rows_nearest:
  assumes "p \<in> set (driverProfiles w)" and "in_radius g c radius p"
    and "p \<notin> set (nearby_rows g c radius w)" and "q \<in> set (nearby_rows g c radius w)"
  shows "knn_of g c q \<le> knn_of g c p"
proof -
  let ?s = "sort_key (knn_of g c) (filter (in_radius g c radius) (driverProfiles w))"
  from assms(1,2) have "p \<in> set ?s" by simp
  with assms(3) have "p \<in> set (drop 50 ?s)"
    by (metis Un_iff append_take_drop_id nearby_rows_def set_append)
  with assms(4) have "knn_of g c q \<in> set (take 50 (map (knn_of g c) ?s))"
    and "knn_of g c p \<in> set (drop 50 (map (knn_of g c) ?s))"
    by (auto simp: nearby_rows_def take_map drop_map)
  then show ?thesis by (rule sorted_take_drop [rotated]) simp
qed

end
