(* ===== verification/RideRequests.thy ===== *)
theory RideRequests
  imports Offers Matching
begin

section \<open>Ride requests: creation, access and cancellation\<close>

text \<open>
  Models \<open>ride-requests/ride-requests.service.ts\<close> and the response shape of
  \<open>ride-requests/dto/ride-request-response.dto.ts\<close>. Access is decided by participation: the owning
  rider, a driver with an offer, the matched driver.
\<close>

record CreateRideRequestDto =
  crr_pickupLat :: real
  crr_pickupLng :: real
  crr_dropoffLat :: real
  crr_dropoffLng :: real
  crr_suggestedFare :: rat

record RideOfferDriverResponse =
  rod_id :: string
  rod_name :: string
  rod_rating :: real

record RideOfferResponse =
  ror_id :: string
  ror_offeredFare :: rat
  ror_status :: OfferStatus
  ror_createdAt :: int
  ror_driver :: RideOfferDriverResponse

record RideRequestResponse =
  rrr_request :: RideRequest
  rrr_nearbyDriverCount :: "nat option"
  rrr_trip :: "Trip option"
  rrr_offers :: "RideOfferResponse list option"

definition RideOfferResponse_from :: "RideOffer \<times> User \<Rightarrow> RideOfferResponse" where
  "RideOfferResponse_from fu =
     \<lparr>ror_id = ro_id (fst fu), ror_offeredFare = ro_offeredFare (fst fu),
      ror_status = ro_status (fst fu), ror_createdAt = ro_createdAt (fst fu),
      ror_driver = \<lparr>rod_id = u_id (snd fu), rod_name = u_name (snd fu), rod_rating = u_rating (snd fu)\<rparr>\<rparr>"

subsection \<open>create\<close>

definition new_request :: "string \<Rightarrow> int \<Rightarrow> string \<Rightarrow> CreateRideRequestDto \<Rightarrow> RideRequest" where
  "new_request newId now riderId dto =
     \<lparr>rr_id = newId, rr_riderId = riderId,
      rr_pickupLat = crr_pickupLat dto, rr_pickupLng = crr_pickupLng dto,
      rr_dropoffLat = crr_dropoffLat dto, rr_dropoffLng = crr_dropoffLng dto,
      rr_suggestedFare = crr_suggestedFare dto, rr_status = RideRequestStatus.PENDING,
      rr_cancelReason = None, rr_cancelledAt = None, rr_createdAt = now\<rparr>"

definition createRideRequest ::
  "geography \<Rightarrow> real \<Rightarrow> string \<Rightarrow> int \<Rightarrow> string \<Rightarrow> CreateRideRequestDto \<Rightarrow> world \<Rightarrow>
   RideRequestResponse result" where
  "createRideRequest g radiusKm newId now riderId dto w =
     (case rideRequest_create (new_request newId now riderId dto) w of
        Inl e \<Rightarrow> (Inl e, w)
      | Inr w' \<Rightarrow>
          (let nearby = findNearbyDrivers g radiusKm (crr_pickupLat dto) (crr_pickupLng dto) None w'
           in (Inr \<lparr>rrr_request = new_request newId now riderId dto,
                    rrr_nearbyDriverCount = Some (length nearby),
                    rrr_trip = None, rrr_offers = None\<rparr>,
               emit (RideRequestCreated (new_request newId now riderId dto)
                       (map nd_userId nearby)) w')))"

subsection \<open>The request with its offers and trip, and who may see or cancel it\<close>

record RideRequestView =
  rv_request :: RideRequest
  rv_offers :: "(RideOffer \<times> User) list"
  rv_trip :: "Trip option"

definition load_request :: "string \<Rightarrow> world \<Rightarrow> error + RideRequestView" where
  "load_request i w =
     (case lookup rr_id i (rideRequests w) of
        None \<Rightarrow> Inl (NotFoundException ''Ride request not found'')
      | Some r \<Rightarrow>
          (case with_driver_users (filter (\<lambda>f. ro_rideRequestId f = i) (rideOffers w)) w of
             Inl e \<Rightarrow> Inl e
           | Inr fs \<Rightarrow>
               Inr \<lparr>rv_request = r, rv_offers = fs,
                    rv_trip = lookup t_rideRequestId i (trips w)\<rparr>))"

definition isOwnerRider :: "RideRequestView \<Rightarrow> string \<Rightarrow> bool" where
  "isOwnerRider v requester \<longleftrightarrow> rr_riderId (rv_request v) = requester"

definition isOfferingDriver :: "RideRequestView \<Rightarrow> string \<Rightarrow> bool" where
  "isOfferingDriver v requester \<longleftrightarrow> list_ex (\<lambda>fu. u_id (snd fu) = requester) (rv_offers v)"

definition isMatchedDriver :: "RideRequestView \<Rightarrow> string \<Rightarrow> bool" where
  "isMatchedDriver v requester \<longleftrightarrow> map_option t_driverId (rv_trip v) = Some requester"

definition canView :: "RideRequestView \<Rightarrow> string \<Rightarrow> bool" where
  "canView v requester \<longleftrightarrow>
     isOwnerRider v requester \<or> isOfferingDriver v requester \<or> isMatchedDriver v requester"

definition canCancel :: "RideRequestView \<Rightarrow> string \<Rightarrow> bool" where
  "canCancel v requester \<longleftrightarrow> isOwnerRider v requester \<or> isMatchedDriver v requester"

definition findOneForUser :: "string \<Rightarrow> string \<Rightarrow> world \<Rightarrow> RideRequestResponse result" where
  "findOneForUser i requester w =
     (case load_request i w of
        Inl e \<Rightarrow> (Inl e, w)
      | Inr v \<Rightarrow>
          if \<not> canView v requester then (Inl forbidden, w)
          else (Inr \<lparr>rrr_request = rv_request v, rrr_nearbyDriverCount = None,
                     rrr_trip = rv_trip v,
                     rrr_offers = Some (map RideOfferResponse_from (rv_offers v))\<rparr>, w))"

subsection \<open>cancel\<close>

definition cancel_load :: "string \<Rightarrow> string \<Rightarrow> world \<Rightarrow> error + RideRequestView" where
  "cancel_load i requester w =
     (case load_request i w of
        Inl e \<Rightarrow> Inl e
      | Inr v \<Rightarrow>
          if \<not> canCancel v requester then Inl forbidden
          else if rr_status (rv_request v) \<noteq> RideRequestStatus.PENDING \<and>
                  rr_status (rv_request v) \<noteq> RideRequestStatus.MATCHED
          then Inl (BadRequestException ''Ride request can no longer be cancelled'')
          else Inr v)"

definition affectedDriverUserIds :: "RideRequestView \<Rightarrow> string list" where
  "affectedDriverUserIds v =
     map (u_id \<circ> snd) (filter (\<lambda>fu. ro_status (fst fu) = OfferStatus.PENDING) (rv_offers v))"

definition cancelled_request :: "int \<Rightarrow> string option \<Rightarrow> RideRequest \<Rightarrow> RideRequest" where
  "cancelled_request now reason r =
     r\<lparr>rr_status := RideRequestStatus.CANCELLED,
       rr_cancelReason := (case reason of None \<Rightarrow> rr_cancelReason r | Some s \<Rightarrow> Some s),
       rr_cancelledAt := Some now\<rparr>"

definition cancelled_trip :: "string option \<Rightarrow> Trip \<Rightarrow> Trip" where
  "cancelled_trip reason t =
     t\<lparr>t_status := TripStatus.CANCELLED,
       t_cancelReason := (case reason of None \<Rightarrow> t_cancelReason t | Some s \<Rightarrow> Some s)\<rparr>"

definition pending_of_request :: "string \<Rightarrow> RideOffer \<Rightarrow> bool" where
  "pending_of_request i f \<longleftrightarrow> ro_rideRequestId f = i \<and> ro_status f = OfferStatus.PENDING"

definition cancel_commit ::
  "string \<Rightarrow> int \<Rightarrow> string option \<Rightarrow> RideRequestView \<Rightarrow> world \<Rightarrow> error + world" where
  "cancel_commit i now reason v =
     transaction
       ([rideRequest_update i (cancelled_request now reason),
         rideOffer_updateMany (pending_of_request i) (\<lambda>f. f\<lparr>ro_status := OfferStatus.EXPIRED\<rparr>)] @
        (case rv_trip v of
           None \<Rightarrow> []
         | Some t \<Rightarrow> [trip_update (t_id t) (cancelled_trip reason)]))"

definition cancelRideRequest ::
  "string \<Rightarrow> int \<Rightarrow> string \<Rightarrow> string option \<Rightarrow> world \<Rightarrow> RideRequestResponse result" where
  "cancelRideRequest i now requester reason w =
     (case cancel_load i requester w of
        Inl e \<Rightarrow> (Inl e, w)
      | Inr v \<Rightarrow>
          (case cancel_commit i now reason v w of
             Inl e \<Rightarrow> (Inl e, w)
           | Inr w' \<Rightarrow>
               (case lookup rr_id i (rideRequests w') of
                  None \<Rightarrow> (Inl (PrismaError P2025), w')
                | Some updated \<Rightarrow>
                    (Inr \<lparr>rrr_request = updated, rrr_nearbyDriverCount = None, rrr_trip = None,
                          rrr_offers = None\<rparr>,
                     emit (RideRequestCancelled updated (affectedDriverUserIds v)) w'))))"

lemmas request_ops [op_defs] =
  createRideRequest_def load_request_def findOneForUser_def cancel_load_def cancel_commit_def
  cancelRideRequest_def

end
