(* ===== verification/Trips.thy ===== *)
theory Trips
  imports World
begin

section \<open>Trips: starting and completing a ride\<close>

text \<open>
  Models \<open>trips/trips.service.ts\<close>: only the driver of a trip moves it, from \<open>MATCHED\<close> to
  \<open>STARTED\<close> to \<open>COMPLETED\<close>, and the ride request is moved in the same transaction.
\<close>

definition findOwnedByDriver :: "string \<Rightarrow> string \<Rightarrow> world \<Rightarrow> error + Trip" where
  "findOwnedByDriver tripId driverUserId w =
     (case lookup t_id tripId (trips w) of
        None \<Rightarrow> Inl (NotFoundException ''Trip not found'')
      | Some t \<Rightarrow> if t_driverId t \<noteq> driverUserId then Inl forbidden else Inr t)"

definition start_load :: "string \<Rightarrow> string \<Rightarrow> world \<Rightarrow> error + Trip" where
  "start_load tripId driverUserId w =
     (case findOwnedByDriver tripId driverUserId w of
        Inl e \<Rightarrow> Inl e
      | Inr t \<Rightarrow>
          if t_status t \<noteq> TripStatus.MATCHED
          then Inl (BadRequestException ''Trip cannot be started from its current status'')
          else Inr t)"

definition start_commit :: "string \<Rightarrow> int \<Rightarrow> Trip \<Rightarrow> world \<Rightarrow> error + world" where
  "start_commit tripId now t =
     transaction
       [trip_update tripId (\<lambda>t. t\<lparr>t_status := TripStatus.STARTED, t_startedAt := Some now\<rparr>),
        rideRequest_update (t_rideRequestId t)
          (\<lambda>r. r\<lparr>rr_status := RideRequestStatus.IN_PROGRESS\<rparr>)]"

definition trip_result ::
  "string \<Rightarrow> (Trip \<Rightarrow> DomainEvent) \<Rightarrow> world \<Rightarrow> error + world \<Rightarrow> Trip result" where
  "trip_result tripId event w committed =
     (case committed of
        Inl e \<Rightarrow> (Inl e, w)
      | Inr w' \<Rightarrow>
          (case lookup t_id tripId (trips w') of
             None \<Rightarrow> (Inl (PrismaError P2025), w')
           | Some updated \<Rightarrow> (Inr updated, emit (event updated) w')))"

definition startTrip :: "string \<Rightarrow> int \<Rightarrow> string \<Rightarrow> world \<Rightarrow> Trip result" where
  "startTrip tripId now driverUserId w =
     (case start_load tripId driverUserId w of
        Inl e \<Rightarrow> (Inl e, w)
      | Inr t \<Rightarrow> trip_result tripId TripStarted w (start_commit tripId now t w))"

definition complete_load :: "string \<Rightarrow> string \<Rightarrow> world \<Rightarrow> error + Trip" where
  "complete_load tripId driverUserId w =
     (case findOwnedByDriver tripId driverUserId w of
        Inl e \<Rightarrow> Inl e
      | Inr t \<Rightarrow>
          if t_status t \<noteq> TripStatus.STARTED
          then Inl (BadRequestException ''Trip cannot be completed from its current status'')
          else Inr t)"

definition complete_commit :: "string \<Rightarrow> int \<Rightarrow> Trip \<Rightarrow> world \<Rightarrow> error + world" where
  "complete_commit tripId now t =
     transaction
       [trip_update tripId (\<lambda>t. t\<lparr>t_status := TripStatus.COMPLETED, t_endedAt := Some now\<rparr>),
        rideRequest_update (t_rideRequestId t)
          (\<lambda>r. r\<lparr>rr_status := RideRequestStatus.COMPLETED\<rparr>)]"

definition completeTrip :: "string \<Rightarrow> int \<Rightarrow> string \<Rightarrow> world \<Rightarrow> Trip result" where
  "completeTrip tripId now driverUserId w =
     (case complete_load tripId driverUserId w of
        Inl e \<Rightarrow> (Inl e, w)
      | Inr t \<Rightarrow> trip_result tripId TripCompleted w (complete_commit tripId now t w))"

lemmas trip_ops [op_defs] =
  findOwnedByDriver_def start_load_def start_commit_def trip_result_def startTrip_def
  complete_load_def complete_commit_def completeTrip_def

end
