(* ===== verification/Ratings.thy ===== *)
theory Ratings
  imports World
begin

section \<open>Ratings: one score per participant and trip, and the average it feeds\<close>

text \<open>
  Models \<open>ratings/ratings.service.ts\<close>, the validation of \<open>ratings/dto/rate-trip.dto.ts\<close> and
  \<open>UsersService.recalculateRating\<close> of \<open>users/users.service.ts\<close>. The average is an exact real where
  the database returns a double.
\<close>

record RateTripDto =
  rd_score :: int
  rd_comment :: "string option"

definition valid_RateTripDto :: "RateTripDto \<Rightarrow> bool" where
  "valid_RateTripDto dto \<longleftrightarrow>
     1 \<le> rd_score dto \<and> rd_score dto \<le> 5 \<and>
     (case rd_comment dto of None \<Rightarrow> True | Some c \<Rightarrow> length c \<le> 500)"

subsection \<open>The recalculated average\<close>

definition scores_of :: "string \<Rightarrow> world \<Rightarrow> int list" where
  "scores_of userId w = map rt_score (filter (\<lambda>r. rt_toUserId r = userId) (ratings w))"

definition average :: "int list \<Rightarrow> real option" where
  "average xs = (if xs = [] then None else Some (real_of_int (sum_list xs) / real (length xs)))"

definition recalculated :: "string \<Rightarrow> world \<Rightarrow> real" where
  "recalculated userId w = (case average (scores_of userId w) of None \<Rightarrow> 5 | Some a \<Rightarrow> a)"

definition recalculateRating :: "string \<Rightarrow> world \<Rightarrow> unit result" where
  "recalculateRating userId w =
     (case user_update userId (\<lambda>u. u\<lparr>u_rating := recalculated userId w\<rparr>) w of
        Inl e \<Rightarrow> (Inl e, w)
      | Inr w' \<Rightarrow> (Inr (), w'))"

subsection \<open>rateTrip\<close>

definition rate_target :: "Trip \<Rightarrow> string \<Rightarrow> error + string" where
  "rate_target t fromUserId =
     (if fromUserId = t_riderId t then Inr (t_driverId t)
      else if fromUserId = t_driverId t then Inr (t_riderId t)
      else Inl (ForbiddenException ''You were not a participant on this trip''))"

definition rate_load :: "string \<Rightarrow> string \<Rightarrow> world \<Rightarrow> error + string" where
  "rate_load tripId fromUserId w =
     (case lookup t_id tripId (trips w) of
        None \<Rightarrow> Inl (NotFoundException ''Trip not found'')
      | Some t \<Rightarrow>
          if t_status t \<noteq> TripStatus.COMPLETED
          then Inl (ForbiddenException ''Trip must be completed before it can be rated'')
          else rate_target t fromUserId)"

definition new_rating ::
  "string \<Rightarrow> int \<Rightarrow> string \<Rightarrow> string \<Rightarrow> string \<Rightarrow> RateTripDto \<Rightarrow> Rating" where
  "new_rating newId now tripId fromUserId toUserId dto =
     \<lparr>rt_id = newId, rt_tripId = tripId, rt_fromUserId = fromUserId, rt_toUserId = toUserId,
      rt_score = rd_score dto, rt_comment = rd_comment dto, rt_createdAt = now\<rparr>"

text \<open>The \<open>catch\<close>: a unique violation is reported as a conflict, anything else is rethrown.\<close>

definition rate_error :: "error \<Rightarrow> error" where
  "rate_error e =
     (if e = PrismaError P2002 then ConflictException ''You have already rated this trip'' else e)"

definition rateTrip ::
  "string \<Rightarrow> int \<Rightarrow> string \<Rightarrow> string \<Rightarrow> RateTripDto \<Rightarrow> world \<Rightarrow> Rating result" where
  "rateTrip newId now tripId fromUserId dto w =
     (case rate_load tripId fromUserId w of
        Inl e \<Rightarrow> (Inl e, w)
      | Inr toUserId \<Rightarrow>
          (case rating_create (new_rating newId now tripId fromUserId toUserId dto) w of
             Inl e \<Rightarrow> (Inl (rate_error e), w)
           | Inr w' \<Rightarrow>
               (case recalculateRating toUserId w' of
                  (Inl e, w'') \<Rightarrow> (Inl (rate_error e), w'')
                | (Inr _, w'') \<Rightarrow>
                    (Inr (new_rating newId now tripId fromUserId toUserId dto), w''))))"

lemmas rating_ops [op_defs] =
  recalculateRating_def rate_load_def rate_target_def rateTrip_def

end
