(* ===== verification/Lifecycle.thy ===== *)
theory Lifecycle
  imports RideRequests Trips Ratings
begin

section \<open>Lifecycle: what every ride operation keeps of a ride\<close>

text \<open>
  The invariant that ties a ride request, its offers and its trip together, and the proof that
  every operation of OffersService, RideRequestsService, TripsService and RatingsService keeps it.
  A ride is seen through two maps, \<open>status_of\<close> (the request's status) and \<open>trip_of\<close> (its trip),
  so that a write is an update at one point.
\<close>

subsection \<open>The abstraction\<close>

definition status_of :: "world \<Rightarrow> string \<Rightarrow> RideRequestStatus option" where
  "status_of w i = map_option rr_status (lookup rr_id i (rideRequests w))"

definition trip_of :: "world \<Rightarrow> string \<Rightarrow> Trip option" where
  "trip_of w i = lookup t_rideRequestId i (trips w)"

text \<open>Which trip, if any, goes with which status of the request.\<close>

fun linked :: "RideRequestStatus option \<Rightarrow> TripStatus option \<Rightarrow> bool" where
  "linked None t \<longleftrightarrow> t = None"
| "linked (Some RideRequestStatus.PENDING) t \<longleftrightarrow> t = None"
| "linked (Some RideRequestStatus.MATCHED) t \<longleftrightarrow> t = Some TripStatus.MATCHED"
| "linked (Some RideRequestStatus.IN_PROGRESS) t \<longleftrightarrow> t = Some TripStatus.STARTED"
| "linked (Some RideRequestStatus.COMPLETED) t \<longleftrightarrow> t = Some TripStatus.COMPLETED"
| "linked (Some RideRequestStatus.CANCELLED) t \<longleftrightarrow> t = None \<or> t = Some TripStatus.CANCELLED"

definition profile_users :: "world \<Rightarrow> (string \<times> string) set" where
  "profile_users w = (\<lambda>p. (dp_id p, dp_userId p)) ` set (driverProfiles w)"

definition request_riders :: "world \<Rightarrow> (string \<times> string) set" where
  "request_riders w = (\<lambda>r. (rr_id r, rr_riderId r)) ` set (rideRequests w)"

text \<open>The trip is the one the offer was accepted for: same request, rider, driver and fare.\<close>

definition agrees :: "world \<Rightarrow> RideOffer \<Rightarrow> Trip \<Rightarrow> bool" where
  "agrees w f t \<longleftrightarrow>
     t_rideRequestId t = ro_rideRequestId f \<and> t_agreedFare t = ro_offeredFare f \<and>
     (ro_driverId f, t_driverId t) \<in> profile_users w \<and>
     (t_rideRequestId t, t_riderId t) \<in> request_riders w"

definition keys_ok :: "world \<Rightarrow> bool" where
  "keys_ok w \<longleftrightarrow>
     unique_on u_id (users w) \<and> unique_on dp_id (driverProfiles w) \<and>
     unique_on dp_userId (driverProfiles w) \<and> unique_on rr_id (rideRequests w) \<and>
     unique_on ro_id (rideOffers w) \<and> unique_on ro_key (rideOffers w) \<and>
     unique_on t_id (trips w) \<and> unique_on t_rideRequestId (trips w)"

definition refs_ok :: "world \<Rightarrow> bool" where
  "refs_ok w \<longleftrightarrow>
     dp_userId ` set (driverProfiles w) \<subseteq> u_id ` set (users w) \<and>
     ro_driverId ` set (rideOffers w) \<subseteq> dp_id ` set (driverProfiles w) \<and>
     ro_rideRequestId ` set (rideOffers w) \<subseteq> rr_id ` set (rideRequests w) \<and>
     rr_riderId ` set (rideRequests w) \<subseteq> u_id ` set (users w)"

definition links_ok :: "world \<Rightarrow> bool" where
  "links_ok w \<longleftrightarrow> (\<forall>i. linked (status_of w i) (map_option t_status (trip_of w i)))"

definition pending_ok :: "world \<Rightarrow> bool" where
  "pending_ok w \<longleftrightarrow>
     (\<forall>f \<in> set (rideOffers w). ro_status f = OfferStatus.PENDING \<longrightarrow>
        status_of w (ro_rideRequestId f) = Some RideRequestStatus.PENDING)"

definition accepted_ok :: "world \<Rightarrow> bool" where
  "accepted_ok w \<longleftrightarrow>
     (\<forall>f \<in> set (rideOffers w). ro_status f = OfferStatus.ACCEPTED \<longrightarrow>
        (\<exists>t. trip_of w (ro_rideRequestId f) = Some t \<and> agrees w f t))"

definition trips_ok :: "world \<Rightarrow> bool" where
  "trips_ok w \<longleftrightarrow>
     (\<forall>t \<in> set (trips w). \<exists>f \<in> set (rideOffers w).
        ro_status f = OfferStatus.ACCEPTED \<and> agrees w f t)"

definition ride_inv :: "world \<Rightarrow> bool" where
  "ride_inv w \<longleftrightarrow>
     keys_ok w \<and> refs_ok w \<and> links_ok w \<and> pending_ok w \<and> accepted_ok w \<and> trips_ok w"

lemmas ride_parts =
  keys_ok_def refs_ok_def links_ok_def pending_ok_def accepted_ok_def trips_ok_def

lemma ride_invD:
  assumes "ride_inv w"
  shows "keys_ok w" "refs_ok w" "links_ok w" "pending_ok w" "accepted_ok w" "trips_ok w"
  using assms by (simp_all add: ride_inv_def)

lemma ride_inv_empty: "ride_inv empty_world"
  by (simp add: ride_inv_def ride_parts empty_world_def status_of_def trip_of_def)

subsection \<open>The frame: what the invariant does not read may change\<close>

lemma ride_inv_frame:
  assumes "ride_inv w"
    and "rideRequests w' = rideRequests w" "rideOffers w' = rideOffers w" "trips w' = trips w"
    and "unique_on u_id (users w')" "unique_on dp_id (driverProfiles w')"
    and "unique_on dp_userId (driverProfiles w')"
    and "dp_userId ` set (driverProfiles w') \<subseteq> u_id ` set (users w')"
    and "profile_users w \<subseteq> profile_users w'"
    and "u_id ` set (users w) \<subseteq> u_id ` set (users w')"
  shows "ride_inv w'"
proof -
  have views: "status_of w' = status_of w" "trip_of w' = trip_of w"
    "request_riders w' = request_riders w"
    using assms(2-4) by (auto simp: status_of_def trip_of_def request_riders_def)
  have agr: "agrees w f t \<Longrightarrow> agrees w' f t" for f t
    using assms(9) views(3) by (auto simp: agrees_def)
  have "dp_id ` set (driverProfiles w) = fst ` profile_users w"
    and "dp_id ` set (driverProfiles w') = fst ` profile_users w'"
    by (auto simp: profile_users_def image_image)
  then have ids: "dp_id ` set (driverProfiles w) \<subseteq> dp_id ` set (driverProfiles w')"
    using assms(9) by auto
  have "refs_ok w'"
    using ride_invD(2) [OF assms(1)] assms(8) subset_trans [OF _ assms(10)]
      subset_trans [OF _ ids]
    by (simp add: refs_ok_def assms(2,3))
  moreover have "keys_ok w'"
    using ride_invD(1) [OF assms(1)] assms(2-7) by (simp add: keys_ok_def)
  moreover have "links_ok w'" "pending_ok w'"
    using ride_invD(3,4) [OF assms(1)] views assms(3) by (simp_all add: links_ok_def pending_ok_def)
  moreover have "accepted_ok w'" "trips_ok w'"
    using ride_invD(5,6) [OF assms(1)] views agr assms(3,4)
    by (fastforce simp: accepted_ok_def trips_ok_def)+
  ultimately show ?thesis by (simp add: ride_inv_def)
qed

text \<open>In particular the logs, the cache, the files and the other tables.\<close>

lemma ride_inv_logs [simp]:
  "ride_inv (w\<lparr>events := es\<rparr>) = ride_inv w" "ride_inv (w\<lparr>queue := qs\<rparr>) = ride_inv w"
  "ride_inv (w\<lparr>redis := m\<rparr>) = ride_inv w" "ride_inv (w\<lparr>disk := d\<rparr>) = ride_inv w"
  "ride_inv (w\<lparr>outbox := ob\<rparr>) = ride_inv w" "ride_inv (w\<lparr>ratings := rs\<rparr>) = ride_inv w"
  "ride_inv (w\<lparr>driverApplications := as\<rparr>) = ride_inv w"
  "ride_inv (w\<lparr>driverDocuments := ds\<rparr>) = ride_inv w"
  "ride_inv (w\<lparr>refreshTokens := ts\<rparr>) = ride_inv w"
  "ride_inv (w\<lparr>passwordResetTokens := ps\<rparr>) = ride_inv w"
  by (simp_all add: ride_inv_def ride_parts status_of_def trip_of_def agrees_def profile_users_def
      request_riders_def)

lemma ride_inv_emit [simp]: "ride_inv (emit e w) = ride_inv w"
  by (simp add: emit_def)

lemma ride_inv_enqueue [simp]: "ride_inv (enqueue c w) = ride_inv w"
  by (simp add: enqueue_def)

lemma ride_inv_cancelScheduledExpiry [simp]:
  "ride_inv (cancelScheduledExpiry i w) = ride_inv w"
  "ride_inv (fold cancelScheduledExpiry is w) = ride_inv w"
  by (simp add: cancelScheduledExpiry_def)
     (induction "is" arbitrary: w, simp_all add: cancelScheduledExpiry_def)

lemma ride_inv_scheduleExpiry [simp]: "ride_inv (scheduleExpiry s i w) = ride_inv w"
  by (simp add: scheduleExpiry_def)

subsection \<open>The views after a write\<close>


lemma status_of_set:
  assumes "\<And>r. rr_id (f r) = rr_id r" and "\<And>r. rr_status (f r) = s"
  shows "status_of (w\<lparr>rideRequests := update_where (\<lambda>r. rr_id r = i) f (rideRequests w)\<rparr>) j
    = (if j = i then map_option (\<lambda>_. s) (status_of w i) else status_of w j)"
proof -
  have "lookup rr_id j (update_where (\<lambda>r. rr_id r = i) f (rideRequests w))
    = map_option (\<lambda>r. if rr_id r = i then f r else r) (lookup rr_id j (rideRequests w))"
    by (rule lookup_update_where) (rule assms(1))
  then show ?thesis
    using assms(2)
    by (cases "lookup rr_id j (rideRequests w)") (auto simp: status_of_def dest: lookup_SomeD)
qed

lemma trip_of_set:
  assumes "\<And>t. t_rideRequestId (f t) = t_rideRequestId t"
  shows "trip_of (w\<lparr>trips := update_where p f (trips w)\<rparr>) j
    = map_option (\<lambda>t. if p t then f t else t) (trip_of w j)"
  unfolding trip_of_def by (simp add: lookup_update_where assms)

lemma trip_of_append:
  "trip_of (w\<lparr>trips := trips w @ [t]\<rparr>) j
    = (case trip_of w j of None \<Rightarrow> if t_rideRequestId t = j then Some t else None | Some x \<Rightarrow> Some x)"
  by (simp add: trip_of_def lookup_append split: option.split)

lemma views_frame [simp]:
  "status_of (w\<lparr>rideOffers := fs\<rparr>) = status_of w" "trip_of (w\<lparr>rideOffers := fs\<rparr>) = trip_of w"
  "status_of (w\<lparr>trips := ts\<rparr>) = status_of w" "trip_of (w\<lparr>rideRequests := rs\<rparr>) = trip_of w"
  "profile_users (w\<lparr>rideOffers := fs\<rparr>) = profile_users w"
  "profile_users (w\<lparr>trips := ts\<rparr>) = profile_users w"
  "profile_users (w\<lparr>rideRequests := rs\<rparr>) = profile_users w"
  "request_riders (w\<lparr>rideOffers := fs\<rparr>) = request_riders w"
  "request_riders (w\<lparr>trips := ts\<rparr>) = request_riders w"
  by (simp_all add: status_of_def trip_of_def profile_users_def request_riders_def fun_eq_iff)

lemma request_riders_set:
  assumes "\<And>r. rr_id (f r) = rr_id r" and "\<And>r. rr_riderId (f r) = rr_riderId r"
  shows "request_riders (w\<lparr>rideRequests := update_where p f (rideRequests w)\<rparr>) = request_riders w"
proof -
  have "(\<lambda>r. (rr_id r, rr_riderId r)) ` set (update_where p f (rideRequests w))
    = (\<lambda>r. (rr_id r, rr_riderId r)) ` set (rideRequests w)"
    by (rule image_update_where) (simp add: assms)
  then show ?thesis by (simp add: request_riders_def)
qed

lemma trip_of_member:
  "ride_inv w \<Longrightarrow> trip_of w i = Some t \<longleftrightarrow> t \<in> set (trips w) \<and> t_rideRequestId t = i"
  by (simp add: trip_of_def lookup_Some_iff ride_inv_def keys_ok_def)

lemma linked_of: "ride_inv w \<Longrightarrow> linked (status_of w i) (map_option t_status (trip_of w i))"
  by (simp add: ride_inv_def links_ok_def)

subsection \<open>Writes the operations make\<close>

text \<open>Offers only ever expire from \<open>PENDING\<close>.\<close>

lemma ride_inv_expire:
  assumes inv: "ride_inv w"
    and pend: "\<And>f. f \<in> set (rideOffers w) \<Longrightarrow> p f \<Longrightarrow> ro_status f = OfferStatus.PENDING"
  shows "ride_inv (w\<lparr>rideOffers :=
    update_where p (\<lambda>f. f\<lparr>ro_status := OfferStatus.EXPIRED\<rparr>) (rideOffers w)\<rparr>)"
    (is "ride_inv ?w")
proof -
  note parts = ride_invD [OF inv]
  have keys: "keys_ok ?w" and refs: "refs_ok ?w"
    using parts(1,2) by (auto simp: keys_ok_def refs_ok_def unique_on_update_where
        image_update_where ro_key_def)
  have links: "links_ok ?w" using parts(3) by (simp add: links_ok_def)
  have pending: "pending_ok ?w"
    using parts(4) by (auto simp: pending_ok_def elim!: in_update_whereE)
  have accepted: "accepted_ok ?w"
    using parts(5) by (fastforce simp: accepted_ok_def agrees_def elim!: in_update_whereE)
  have "trips_ok ?w"
    unfolding trips_ok_def
  proof
    fix t assume "t \<in> set (trips ?w)"
    then obtain f where "f \<in> set (rideOffers w)" "ro_status f = OfferStatus.ACCEPTED" "agrees w f t"
      using parts(6) by (auto simp: trips_ok_def)
    moreover from this pend have "\<not> p f" by force
    ultimately show "\<exists>f \<in> set (rideOffers ?w). ro_status f = OfferStatus.ACCEPTED \<and> agrees ?w f t"
      by (auto simp: agrees_def intro!: bexI [of _ f] in_update_where_same)
  qed
  with keys refs links pending accepted show ?thesis by (simp add: ride_inv_def)
qed

text \<open>A new offer on an open request.\<close>

lemma ride_inv_offer_created:
  assumes inv: "ride_inv w"
    and created: "rideOffer_create f w = Inr w'"
    and pend: "ro_status f = OfferStatus.PENDING"
    and opn: "status_of w (ro_rideRequestId f) = Some RideRequestStatus.PENDING"
  shows "ride_inv w'"
proof -
  note parts = ride_invD [OF inv]
  from created have w': "w' = w\<lparr>rideOffers := rideOffers w @ [f]\<rparr>"
    and row: "create_row rideOffer_conflicts
       (request_exists (ro_rideRequestId f) w \<and> profile_exists (ro_driverId f) w) f (rideOffers w)
       = Inr (rideOffers w @ [f])"
    by (auto simp: rideOffer_create_Inr)
  have keys: "keys_ok w'"
    using parts(1) offers_id.unique_create [OF row] offers_driver.unique_create [OF row]
    by (simp add: keys_ok_def w')
  have refs: "refs_ok w'"
    using parts(2) row by (auto simp: refs_ok_def w' create_row_Inr lookup_None_image)
  have links: "links_ok w'" using parts(3) by (simp add: links_ok_def w')
  have pending: "pending_ok w'" using parts(4) opn by (auto simp: pending_ok_def w')
  have accepted: "accepted_ok w'" using parts(5) pend by (auto simp: accepted_ok_def agrees_def w')
  have "trips_ok w'" using parts(6) by (fastforce simp: trips_ok_def agrees_def w')
  with keys refs links pending accepted show ?thesis by (simp add: ride_inv_def)
qed

text \<open>A new price on an existing offer of an open request.\<close>

lemma ride_inv_resubmit:
  assumes inv: "ride_inv w" and f: "f \<in> set (rideOffers w)"
    and opn: "status_of w (ro_rideRequestId f) = Some RideRequestStatus.PENDING"
  shows "ride_inv (w\<lparr>rideOffers :=
    update_where (\<lambda>r. ro_id r = ro_id f) (resubmit fare) (rideOffers w)\<rparr>)"
    (is "ride_inv ?w")
proof -
  note parts = ride_invD [OF inv]
  have only: "ro_id g = ro_id f \<longleftrightarrow> g = f" if "g \<in> set (rideOffers w)" for g
    using parts(1) f that by (auto simp: keys_ok_def dest: unique_on_eq)
  have keys: "keys_ok ?w" and refs: "refs_ok ?w"
    using parts(1,2) by (auto simp: keys_ok_def refs_ok_def unique_on_update_where
        image_update_where ro_key_def resubmit_def)
  have links: "links_ok ?w" using parts(3) by (simp add: links_ok_def)
  have pending: "pending_ok ?w"
    using parts(4) opn by (auto simp: pending_ok_def resubmit_def only elim!: in_update_whereE)
  have accepted: "accepted_ok ?w"
    using parts(5) by (fastforce simp: accepted_ok_def agrees_def resubmit_def elim!: in_update_whereE)
  have "trips_ok ?w"
    unfolding trips_ok_def
  proof
    fix t assume "t \<in> set (trips ?w)"
    then obtain g where g: "g \<in> set (rideOffers w)" "ro_status g = OfferStatus.ACCEPTED" "agrees w g t"
      using parts(6) by (auto simp: trips_ok_def)
    then have "trip_of w (ro_rideRequestId g) \<noteq> None"
      using parts(5) by (auto simp: accepted_ok_def)
    with linked_of [OF inv, of "ro_rideRequestId g"] opn only g(1) have "ro_id g \<noteq> ro_id f"
      by auto
    with g show "\<exists>f \<in> set (rideOffers ?w). ro_status f = OfferStatus.ACCEPTED \<and> agrees ?w f t"
      by (auto simp: agrees_def intro!: bexI [of _ g] in_update_where_same)
  qed
  with keys refs links pending accepted show ?thesis by (simp add: ride_inv_def)
qed

text \<open>A new request is open, has no trip and no offer yet.\<close>

lemma ride_inv_request_created:
  assumes inv: "ride_inv w" and created: "rideRequest_create r w = Inr w'"
    and st: "rr_status r = RideRequestStatus.PENDING"
  shows "ride_inv w'"
proof -
  note parts = ride_invD [OF inv]
  from created have w': "w' = w\<lparr>rideRequests := rideRequests w @ [r]\<rparr>"
    and row: "create_row rideRequest_conflicts (user_exists (rr_riderId r) w) r (rideRequests w)
       = Inr (rideRequests w @ [r])"
    by (auto simp: rideRequest_create_Inr)
  have fresh: "rr_id r \<notin> rr_id ` set (rideRequests w)" by (rule requests_id.created_key_fresh [OF row])
  have st': "status_of w' i = (if i = rr_id r then Some RideRequestStatus.PENDING else status_of w i)" for i
    using fresh st lookup_None_image [of rr_id "rr_id r" "rideRequests w"]
    by (auto simp: status_of_def w' lookup_append split: option.splits)
  have none: "status_of w (rr_id r) = None"
    using fresh by (auto simp: status_of_def lookup_None_image)
  have tr: "trip_of w' = trip_of w" and off: "rideOffers w' = rideOffers w" by (simp_all add: w')
  have riders: "request_riders w \<subseteq> request_riders w'" by (auto simp: request_riders_def w')
  have agr: "agrees w f t \<Longrightarrow> agrees w' f t" for f t
    using riders by (auto simp: agrees_def w')
  have keys: "keys_ok w'"
    using parts(1) requests_id.unique_create [OF row] by (simp add: keys_ok_def w')
  have refs: "refs_ok w'"
    using parts(2) row by (auto simp: refs_ok_def w' create_row_Inr dest: lookup_in_keys)
  have links: "links_ok w'"
    unfolding links_ok_def
  proof
    fix i
    show "linked (status_of w' i) (map_option t_status (trip_of w' i))"
      using linked_of [OF inv, of i] none by (cases "i = rr_id r") (simp_all add: st' tr)
  qed
  have pending: "pending_ok w'" using parts(4) none by (auto simp: pending_ok_def st' off)
  have accepted: "accepted_ok w'" using parts(5) agr by (auto simp: accepted_ok_def w')
  have "trips_ok w'" using parts(6) agr by (fastforce simp: trips_ok_def w')
  with keys refs links pending accepted show ?thesis by (simp add: ride_inv_def)
qed

text \<open>Accepting: one offer accepted, its competitors expired, the request matched, a trip made.\<close>

definition accepted_offers :: "RideOffer \<Rightarrow> RideOffer list \<Rightarrow> RideOffer list" where
  "accepted_offers f fs =
     update_where (competing f) (\<lambda>g. g\<lparr>ro_status := OfferStatus.EXPIRED\<rparr>)
       (update_where (\<lambda>g. ro_id g = ro_id f) (\<lambda>g. g\<lparr>ro_status := OfferStatus.ACCEPTED\<rparr>) fs)"

lemma acceptOffer_commit_Inr:
  assumes "acceptOffer_commit newId now riderId v w = Inr w'"
  shows "w' = w\<lparr>rideOffers := accepted_offers (ov_offer v) (rideOffers w),
       rideRequests := update_where (\<lambda>r. rr_id r = ro_rideRequestId (ov_offer v))
         (\<lambda>r. r\<lparr>rr_status := RideRequestStatus.MATCHED\<rparr>) (rideRequests w),
       trips := trips w @ [new_trip newId now riderId v]\<rparr>"
    and "create_row trip_conflicts True (new_trip newId now riderId v) (trips w)
       = Inr (trips w @ [new_trip newId now riderId v])"
  using assms
  by (auto simp: acceptOffer_commit_def rideOffer_updateMany_def trip_create_Inr accepted_offers_def
      create_row_Inr split: sum.splits dest!: rideOffer_update_Inr rideRequest_update_Inr)

lemma accepted_offers_cases:
  assumes "g \<in> set (accepted_offers f fs)"
  obtains (accepted) h where "h \<in> set fs" "ro_id h = ro_id f"
      "g = h\<lparr>ro_status := OfferStatus.ACCEPTED\<rparr>"
    | (expired) h where "h \<in> set fs" "ro_id h \<noteq> ro_id f" "competing f h"
      "g = h\<lparr>ro_status := OfferStatus.EXPIRED\<rparr>"
    | (kept) "g \<in> set fs" "ro_id g \<noteq> ro_id f" "\<not> competing f g"
  using assms unfolding accepted_offers_def
  by (auto elim!: in_update_whereE simp: competing_def)

lemma accepted_offers_kept:
  "g \<in> set fs \<Longrightarrow> ro_id g \<noteq> ro_id f \<Longrightarrow> ro_status g \<noteq> OfferStatus.PENDING \<Longrightarrow>
     g \<in> set (accepted_offers f fs)"
  unfolding accepted_offers_def
  by (rule in_update_where_same, rule in_update_where_same) (auto simp: competing_def)

lemma accepted_offers_accepted:
  "f \<in> set fs \<Longrightarrow> f\<lparr>ro_status := OfferStatus.ACCEPTED\<rparr> \<in> set (accepted_offers f fs)"
  unfolding accepted_offers_def
  by (rule in_update_where_same, rule in_update_where_changed) (auto simp: competing_def)

lemma keys_accepted_offers:
  "(\<And>g s. key (g\<lparr>ro_status := s\<rparr>) = key g) \<Longrightarrow> key ` set (accepted_offers f fs) = key ` set fs"
  "(\<And>g s. key (g\<lparr>ro_status := s\<rparr>) = key g) \<Longrightarrow>
     unique_on key (accepted_offers f fs) = unique_on key fs"
  by (simp_all add: accepted_offers_def image_update_where unique_on_update_where)

lemma ride_inv_accept:
  assumes inv: "ride_inv w"
    and commit: "acceptOffer_commit newId now riderId v w = Inr w'"
    and f: "ov_offer v \<in> set (rideOffers w)" "ro_status (ov_offer v) = OfferStatus.PENDING"
    and rider: "(ro_rideRequestId (ov_offer v), riderId) \<in> request_riders w"
    and drv: "(ro_driverId (ov_offer v), ov_driverUserId v) \<in> profile_users w"
  shows "ride_inv w'"
proof -
  let ?f = "ov_offer v" and ?t = "new_trip newId now riderId v"
  let ?i = "ro_rideRequestId (ov_offer v)"
  note parts = ride_invD [OF inv]
  note w' = acceptOffer_commit_Inr(1) [OF commit]
  note row = acceptOffer_commit_Inr(2) [OF commit]
  have opn: "status_of w ?i = Some RideRequestStatus.PENDING"
    using parts(4) f by (simp add: pending_ok_def)
  have notrip: "trip_of w ?i = None" using linked_of [OF inv, of ?i] opn by simp
  have only: "ro_id g = ro_id ?f \<longleftrightarrow> g = ?f" if "g \<in> set (rideOffers w)" for g
    using parts(1) f that by (auto simp: keys_ok_def dest: unique_on_eq)
  have ti: "t_rideRequestId ?t = ?i" by (simp add: new_trip_def)
  have st: "status_of w' j = (if j = ?i then Some RideRequestStatus.MATCHED else status_of w j)" for j
  proof -
    have "status_of w' j = status_of (w\<lparr>rideRequests := update_where (\<lambda>r. rr_id r = ?i)
        (\<lambda>r. r\<lparr>rr_status := RideRequestStatus.MATCHED\<rparr>) (rideRequests w)\<rparr>) j"
      by (simp add: w' status_of_def)
    also have "... = (if j = ?i then map_option (\<lambda>_. RideRequestStatus.MATCHED) (status_of w ?i)
        else status_of w j)"
      by (rule status_of_set) simp_all
    finally show ?thesis using opn by simp
  qed
  have tr: "trip_of w' j = (if j = ?i then Some ?t else trip_of w j)" for j
    using notrip ti trip_of_append [where w = w and t = ?t and j = j] by (auto simp: w' trip_of_def split: option.splits)
  have riders: "request_riders w' = request_riders w"
    using request_riders_set [where w = w and f = "\<lambda>r. r\<lparr>rr_status := RideRequestStatus.MATCHED\<rparr>"]
    by (simp add: w' request_riders_def)
  have pus: "profile_users w' = profile_users w" by (simp add: w' profile_users_def)
  have agr: "agrees w' g t \<longleftrightarrow> agrees w g t" for g t by (simp add: agrees_def riders pus)
  have agr_f: "agrees w (?f\<lparr>ro_status := OfferStatus.ACCEPTED\<rparr>) ?t"
    using rider drv by (simp add: agrees_def new_trip_def)
  have offers: "rideOffers w' = accepted_offers ?f (rideOffers w)" by (simp add: w')
  have trips: "trips w' = trips w @ [?t]" by (simp add: w')
  have keys: "keys_ok w'"
    using parts(1) trips_id.unique_create [OF row] trips_request.unique_create [OF row]
    by (simp add: keys_ok_def w' unique_on_update_where keys_accepted_offers ro_key_def)
  have refs: "refs_ok w'"
    using parts(2) by (simp add: refs_ok_def w' image_update_where keys_accepted_offers)
  have links: "links_ok w'"
    using linked_of [OF inv] by (simp add: links_ok_def st tr new_trip_def)
  have pending: "pending_ok w'"
    using parts(4) by (auto simp: pending_ok_def offers st competing_def elim!: accepted_offers_cases)
  have accepted: "accepted_ok w'"
    unfolding accepted_ok_def
  proof (intro ballI impI)
    fix g assume "g \<in> set (rideOffers w')" and acc: "ro_status g = OfferStatus.ACCEPTED"
    then show "\<exists>t. trip_of w' (ro_rideRequestId g) = Some t \<and> agrees w' g t"
      unfolding offers
    proof (cases rule: accepted_offers_cases)
      case (accepted h)
      then show ?thesis using only agr_f by (auto simp: tr agr)
    next
      case (expired h)
      then show ?thesis using acc by simp
    next
      case kept
      with parts(5) acc obtain t where "trip_of w (ro_rideRequestId g) = Some t" "agrees w g t"
        by (auto simp: accepted_ok_def)
      with notrip show ?thesis by (auto simp: tr agr)
    qed
  qed
  have "trips_ok w'"
    unfolding trips_ok_def
  proof
    fix t assume "t \<in> set (trips w')"
    then consider "t \<in> set (trips w)" | "t = ?t" by (auto simp: trips)
    then show "\<exists>g \<in> set (rideOffers w'). ro_status g = OfferStatus.ACCEPTED \<and> agrees w' g t"
    proof cases
      case 1
      then obtain g where g: "g \<in> set (rideOffers w)" "ro_status g = OfferStatus.ACCEPTED" "agrees w g t"
        using parts(6) by (auto simp: trips_ok_def)
      with f(2) only have "ro_id g \<noteq> ro_id ?f" by auto
      with g show ?thesis by (auto simp: offers agr intro!: accepted_offers_kept)
    next
      case 2
      with agr_f accepted_offers_accepted [OF f(1)] show ?thesis
        by (intro bexI [of _ "?f\<lparr>ro_status := OfferStatus.ACCEPTED\<rparr>"]) (simp_all add: offers agr)
    qed
  qed
  with keys refs links pending accepted show ?thesis by (simp add: ride_inv_def)
qed

text \<open>Read from the trip's side.\<close>

lemma linked_trip:
  "linked x (Some TripStatus.MATCHED) \<longleftrightarrow> x = Some RideRequestStatus.MATCHED"
  "linked x (Some TripStatus.STARTED) \<longleftrightarrow> x = Some RideRequestStatus.IN_PROGRESS"
  "linked x (Some TripStatus.COMPLETED) \<longleftrightarrow> x = Some RideRequestStatus.COMPLETED"
  "linked x (Some TripStatus.CANCELLED) \<longleftrightarrow> x = Some RideRequestStatus.CANCELLED"
  by (cases "(x, None :: TripStatus option)" rule: linked.cases; simp)+

text \<open>
  Moving a request, together with its trip if it has one: starting, completing and cancelling are
  instances. The request must have no open offer left.
\<close>

lemma ride_inv_advance:
  assumes inv: "ride_inv w"
    and f: "\<And>r. rr_id (f r) = rr_id r" "\<And>r. rr_riderId (f r) = rr_riderId r" "\<And>r. rr_status (f r) = s"
    and h: "\<And>t. t_id (h t) = t_id t" "\<And>t. t_rideRequestId (h t) = t_rideRequestId t"
      "\<And>t. t_driverId (h t) = t_driverId t" "\<And>t. t_riderId (h t) = t_riderId t"
      "\<And>t. t_agreedFare (h t) = t_agreedFare t" "\<And>t. t_status (h t) = s'"
    and known: "status_of w i \<noteq> None"
    and linked: "linked (Some s) (map_option (\<lambda>_. s') (trip_of w i))"
    and closed: "\<And>g. g \<in> set (rideOffers w) \<Longrightarrow> ro_rideRequestId g = i \<Longrightarrow>
      ro_status g \<noteq> OfferStatus.PENDING"
    and w': "w' = w\<lparr>rideRequests := update_where (\<lambda>r. rr_id r = i) f (rideRequests w),
       trips := update_where (\<lambda>t. t_rideRequestId t = i) h (trips w)\<rparr>"
  shows "ride_inv w'"
proof -
  note parts = ride_invD [OF inv]
  have st: "status_of w' j = (if j = i then Some s else status_of w j)" for j
  proof -
    have "status_of w' j
      = status_of (w\<lparr>rideRequests := update_where (\<lambda>r. rr_id r = i) f (rideRequests w)\<rparr>) j"
      by (simp add: w' status_of_def)
    also have "... = (if j = i then map_option (\<lambda>_. s) (status_of w i) else status_of w j)"
      by (rule status_of_set) (rule f)+
    finally show ?thesis using known by auto
  qed
  have tr: "trip_of w' j = map_option (\<lambda>t. if t_rideRequestId t = i then h t else t) (trip_of w j)" for j
    by (simp add: w' trip_of_def lookup_update_where h)
  have trip_key: "trip_of w j = Some t \<Longrightarrow> t_rideRequestId t = j" for j t
    by (auto simp: trip_of_def dest: lookup_SomeD)
  have riders: "request_riders w' = request_riders w"
    using request_riders_set [where f = f and w = w] f by (simp add: w' request_riders_def)
  have pus: "profile_users w' = profile_users w" by (simp add: w' profile_users_def)
  have off: "rideOffers w' = rideOffers w" by (simp add: w')
  have agr: "agrees w' g t \<longleftrightarrow> agrees w g t" "agrees w g (h t) \<longleftrightarrow> agrees w g t" for g t
    by (simp_all add: agrees_def riders pus h)
  have keys: "keys_ok w'" and refs: "refs_ok w'"
    using parts(1,2) by (simp_all add: keys_ok_def refs_ok_def w' unique_on_update_where
        image_update_where f h)
  have links: "links_ok w'"
    unfolding links_ok_def
  proof
    fix j show "linked (status_of w' j) (map_option t_status (trip_of w' j))"
      using linked linked_of [OF inv, of j] trip_key [of j]
      by (cases "trip_of w j") (auto simp: st tr h)
  qed
  have pending: "pending_ok w'"
    using parts(4) closed by (auto simp: pending_ok_def st off)
  have accepted: "accepted_ok w'"
    unfolding accepted_ok_def off
  proof (intro ballI impI)
    fix g assume "g \<in> set (rideOffers w)" "ro_status g = OfferStatus.ACCEPTED"
    with parts(5) obtain t where "trip_of w (ro_rideRequestId g) = Some t" "agrees w g t"
      by (auto simp: accepted_ok_def)
    then show "\<exists>t. trip_of w' (ro_rideRequestId g) = Some t \<and> agrees w' g t"
      by (simp add: tr agr)
  qed
  have trs: "trips w' = update_where (\<lambda>t. t_rideRequestId t = i) h (trips w)" by (simp add: w')
  have "trips_ok w'"
    using parts(6) by (auto simp: trips_ok_def off agr trs elim!: in_update_whereE)
  with keys refs links pending accepted show ?thesis by (simp add: ride_inv_def)
qed

text \<open>A trip's row is the only one of its request, so writing it by either key is the same.\<close>

lemma trip_write_by_request:
  assumes "ride_inv w" "t \<in> set (trips w)"
  shows "update_where (\<lambda>x. t_id x = t_id t) h (trips w)
    = update_where (\<lambda>x. t_rideRequestId x = t_rideRequestId t) h (trips w)"
  using assms by (auto simp: ride_inv_def keys_ok_def intro!: update_where_cong dest: unique_on_eq)

lemma no_pending_offers:
  assumes "ride_inv w" "status_of w i \<noteq> Some RideRequestStatus.PENDING"
    and "g \<in> set (rideOffers w)" "ro_rideRequestId g = i"
  shows "ro_status g \<noteq> OfferStatus.PENDING"
  using assms by (auto simp: ride_inv_def pending_ok_def)

lemma ride_inv_start_commit:
  assumes inv: "ride_inv w" and t: "t \<in> set (trips w)" "t_status t = TripStatus.MATCHED"
    and commit: "start_commit (t_id t) now t w = Inr w'"
  shows "ride_inv w'"
proof -
  let ?i = "t_rideRequestId t"
  have tr: "trip_of w ?i = Some t" using inv t(1) by (simp add: trip_of_member)
  from linked_of [OF inv, of ?i] tr t(2) have st: "status_of w ?i = Some RideRequestStatus.MATCHED"
    by (simp add: linked_trip)
  show ?thesis
  proof (rule ride_inv_advance [OF inv, where i = ?i
        and f = "\<lambda>r. r\<lparr>rr_status := RideRequestStatus.IN_PROGRESS\<rparr>"
        and h = "\<lambda>t. t\<lparr>t_status := TripStatus.STARTED, t_startedAt := Some now\<rparr>"
        and s = RideRequestStatus.IN_PROGRESS and s' = TripStatus.STARTED])
    show "w' = w\<lparr>rideRequests := update_where (\<lambda>r. rr_id r = ?i)
           (\<lambda>r. r\<lparr>rr_status := RideRequestStatus.IN_PROGRESS\<rparr>) (rideRequests w),
         trips := update_where (\<lambda>x. t_rideRequestId x = ?i)
           (\<lambda>t. t\<lparr>t_status := TripStatus.STARTED, t_startedAt := Some now\<rparr>) (trips w)\<rparr>"
      using commit trip_write_by_request [OF inv t(1)]
      by (auto simp: start_commit_def split: sum.splits
          dest!: trip_update_Inr rideRequest_update_Inr)
  qed (use st tr no_pending_offers [OF inv, of ?i] in auto)
qed

lemma ride_inv_complete_commit:
  assumes inv: "ride_inv w" and t: "t \<in> set (trips w)" "t_status t = TripStatus.STARTED"
    and commit: "complete_commit (t_id t) now t w = Inr w'"
  shows "ride_inv w'"
proof -
  let ?i = "t_rideRequestId t"
  have tr: "trip_of w ?i = Some t" using inv t(1) by (simp add: trip_of_member)
  from linked_of [OF inv, of ?i] tr t(2) have st: "status_of w ?i = Some RideRequestStatus.IN_PROGRESS"
    by (simp add: linked_trip)
  show ?thesis
  proof (rule ride_inv_advance [OF inv, where i = ?i
        and f = "\<lambda>r. r\<lparr>rr_status := RideRequestStatus.COMPLETED\<rparr>"
        and h = "\<lambda>t. t\<lparr>t_status := TripStatus.COMPLETED, t_endedAt := Some now\<rparr>"
        and s = RideRequestStatus.COMPLETED and s' = TripStatus.COMPLETED])
    show "w' = w\<lparr>rideRequests := update_where (\<lambda>r. rr_id r = ?i)
           (\<lambda>r. r\<lparr>rr_status := RideRequestStatus.COMPLETED\<rparr>) (rideRequests w),
         trips := update_where (\<lambda>x. t_rideRequestId x = ?i)
           (\<lambda>t. t\<lparr>t_status := TripStatus.COMPLETED, t_endedAt := Some now\<rparr>) (trips w)\<rparr>"
      using commit trip_write_by_request [OF inv t(1)]
      by (auto simp: complete_commit_def split: sum.splits
          dest!: trip_update_Inr rideRequest_update_Inr)
  qed (use st tr no_pending_offers [OF inv, of ?i] in auto)
qed

lemma ride_inv_cancel_commit:
  assumes inv: "ride_inv w"
    and st: "status_of w i = Some RideRequestStatus.PENDING \<or> status_of w i = Some RideRequestStatus.MATCHED"
    and v: "rv_trip v = trip_of w i"
    and commit: "cancel_commit i now reason v w = Inr w'"
  shows "ride_inv w'"
proof -
  let ?e = "\<lambda>f. f\<lparr>ro_status := OfferStatus.EXPIRED\<rparr>"
  let ?u = "w\<lparr>rideOffers := update_where (pending_of_request i) ?e (rideOffers w)\<rparr>"
  have inv': "ride_inv ?u" by (rule ride_inv_expire [OF inv]) (simp add: pending_of_request_def)
  have w': "w' = ?u\<lparr>rideRequests := update_where (\<lambda>r. rr_id r = i) (cancelled_request now reason) (rideRequests ?u),
       trips := update_where (\<lambda>t. t_rideRequestId t = i) (cancelled_trip reason) (trips ?u)\<rparr>"
  proof (cases "trip_of w i")
    case None
    then have "update_where (\<lambda>t. t_rideRequestId t = i) (cancelled_trip reason) (trips w) = trips w"
      by (intro update_where_none) (auto simp: trip_of_def lookup_None_iff)
    with None commit v show ?thesis
      by (auto simp: cancel_commit_def rideOffer_updateMany_def split: sum.splits
          dest!: rideRequest_update_Inr)
  next
    case (Some t)
    then have t: "t \<in> set (trips w)" "t_rideRequestId t = i" using inv by (simp_all add: trip_of_member)
    from Some commit v trip_write_by_request [OF inv t(1)] t(2) show ?thesis
      by (auto simp: cancel_commit_def rideOffer_updateMany_def split: sum.splits
          dest!: rideRequest_update_Inr trip_update_Inr)
  qed
  show ?thesis
    by (rule ride_inv_advance [OF inv' _ _ _ _ _ _ _ _ _ _ _ _ w', where s = RideRequestStatus.CANCELLED
          and s' = TripStatus.CANCELLED])
      (use st in \<open>auto simp: cancelled_request_def cancelled_trip_def pending_of_request_def
        elim!: in_update_whereE\<close>)
qed

subsection \<open>Every operation keeps the invariant\<close>

text \<open>The rows an operation reads, in the terms of the invariant.\<close>

lemma status_of_lookup:
  "lookup rr_id i (rideRequests w) = Some r \<Longrightarrow> status_of w i = Some (rr_status r)"
  by (simp add: status_of_def)

lemma driver_user_of_Inr:
  assumes "driver_user_of f w = Inr u"
  shows "(ro_driverId f, u_id u) \<in> profile_users w"
  using assms
  by (force simp: driver_user_of_def profile_users_def split: option.splits dest!: lookup_SomeD)

lemma acceptOffer_load_Inr:
  assumes "acceptOffer_load riderId offerId w = Inr v"
  shows "ov_offer v \<in> set (rideOffers w)" "ro_status (ov_offer v) = OfferStatus.PENDING"
    "ro_id (ov_offer v) = offerId"
    "lookup rr_id (ro_rideRequestId (ov_offer v)) (rideRequests w) = Some (ov_request v)"
    "rr_status (ov_request v) = RideRequestStatus.PENDING" "rr_riderId (ov_request v) = riderId"
    "(ro_rideRequestId (ov_offer v), riderId) \<in> request_riders w"
    "(ro_driverId (ov_offer v), ov_driverUserId v) \<in> profile_users w"
proof -
  from assms obtain f r u where *: "lookup ro_id offerId (rideOffers w) = Some f"
    "lookup rr_id (ro_rideRequestId f) (rideRequests w) = Some r" "driver_user_of f w = Inr u"
    "rr_riderId r = riderId" "rr_status r = RideRequestStatus.PENDING" "ro_status f = OfferStatus.PENDING"
    "v = \<lparr>ov_offer = f, ov_request = r, ov_driverUserId = u_id u\<rparr>"
    by (auto simp: acceptOffer_load_def split: option.splits sum.splits if_splits)
  then show "ov_offer v \<in> set (rideOffers w)" "ro_status (ov_offer v) = OfferStatus.PENDING"
    "ro_id (ov_offer v) = offerId"
    "lookup rr_id (ro_rideRequestId (ov_offer v)) (rideRequests w) = Some (ov_request v)"
    "rr_status (ov_request v) = RideRequestStatus.PENDING" "rr_riderId (ov_request v) = riderId"
    by (auto dest: lookup_SomeD)
  from * show "(ro_rideRequestId (ov_offer v), riderId) \<in> request_riders w"
    by (force simp: request_riders_def dest: lookup_SomeD)
  from * show "(ro_driverId (ov_offer v), ov_driverUserId v) \<in> profile_users w"
    by (simp add: driver_user_of_Inr)
qed

lemma load_request_Inr:
  assumes "load_request i w = Inr v"
  shows "lookup rr_id i (rideRequests w) = Some (rv_request v)" "rv_trip v = trip_of w i"
  using assms by (auto simp: load_request_def trip_of_def split: option.splits sum.splits)

lemma findOwnedByDriver_Inr:
  "findOwnedByDriver tripId u w = Inr t \<longleftrightarrow> lookup t_id tripId (trips w) = Some t \<and> t_driverId t = u"
  by (auto simp: findOwnedByDriver_def split: option.splits)

lemma ride_inv_createRideRequest:
  "ride_inv w \<Longrightarrow> ride_inv (snd (createRideRequest g km newId now riderId dto w))"
  by (auto simp: createRideRequest_def Let_def new_request_def split: sum.splits
      intro: ride_inv_request_created)

lemma ride_inv_upsert:
  assumes inv: "ride_inv w" and st: "status_of w i = Some RideRequestStatus.PENDING"
    and ups: "rideOffer_upsert newId now i driverId fare w = Inr (f, w')"
  shows "ride_inv w'"
proof (cases "lookup ro_key (i, driverId) (rideOffers w)")
  case None
  with ups have "rideOffer_create (new_offer newId now i driverId fare) w = Inr w'"
    by (auto simp: rideOffer_upsert_def split: sum.splits)
  from ride_inv_offer_created [OF inv this] st show ?thesis by (simp add: new_offer_def)
next
  case (Some g)
  then have g: "g \<in> set (rideOffers w)" "ro_rideRequestId g = i"
    by (auto simp: ro_key_def dest: lookup_SomeD)
  from Some ups have "rideOffer_update (ro_id g) (resubmit fare) w = Inr w'"
    by (auto simp: rideOffer_upsert_def split: sum.splits)
  with ride_inv_resubmit [OF inv g(1)] st g(2) show ?thesis by (auto dest!: rideOffer_update_Inr)
qed

lemma ride_inv_submitOffer:
  assumes "ride_inv w"
  shows "ride_inv (snd (submitOffer secs newId now u i fare w))"
  using assms
  by (auto simp: submitOffer_def submitOffer_load_def submitOffer_finish_def
      split: option.splits sum.splits if_splits dest!: status_of_lookup intro: ride_inv_upsert)

lemma ride_inv_acceptOffer:
  assumes "ride_inv w"
  shows "ride_inv (snd (acceptOffer newId now riderId offerId w))"
  using assms acceptOffer_load_Inr [of riderId offerId w]
  by (auto simp: acceptOffer_def acceptOffer_finish_def split: sum.splits intro: ride_inv_accept)

lemma ride_inv_expire_commit:
  assumes inv: "ride_inv w" and f: "lookup ro_id offerId (rideOffers w) = Some f"
      "ro_status f = OfferStatus.PENDING"
    and commit: "expireOffer_commit offerId w = Inr w'"
  shows "ride_inv w'"
proof -
  have only: "g = f" if "g \<in> set (rideOffers w)" "ro_id g = offerId" for g
    using inv f that by (auto simp: ride_inv_def keys_ok_def dest: unique_on_eq lookup_SomeD)
  have "ride_inv (w\<lparr>rideOffers := update_where (\<lambda>r. ro_id r = offerId)
      (\<lambda>f. f\<lparr>ro_status := OfferStatus.EXPIRED\<rparr>) (rideOffers w)\<rparr>)"
    by (rule ride_inv_expire [OF inv]) (use only f in auto)
  with commit show ?thesis by (auto simp: expireOffer_commit_def dest!: rideOffer_update_Inr)
qed

lemma ride_inv_expireIfStillPending:
  assumes "ride_inv w"
  shows "ride_inv (snd (expireIfStillPending offerId w))"
  using assms
  by (auto simp: expireIfStillPending_def expireIfStillPending_load_def
      split: option.splits sum.splits if_splits intro: ride_inv_expire_commit)

lemma ride_inv_expireAllPendingOffersForDriver:
  assumes "ride_inv w"
  shows "ride_inv (snd (expireAllPendingOffersForDriver p w))"
  using assms
  by (auto simp: expireAllPendingOffersForDriver_def rideOffer_updateMany_def pending_of_driver_def
      split: option.splits intro!: ride_inv_expire)

lemma ride_inv_process_job:
  assumes "ride_inv w"
  shows "ride_inv (snd (process_job j w))"
proof (cases j)
  case (ExpireOffer i)
  with ride_inv_expireIfStillPending [OF assms, of i] show ?thesis
    by (auto split: prod.splits sum.splits option.splits)
qed (simp add: ride_inv_expireAllPendingOffersForDriver assms)

lemma ride_inv_cancelRideRequest:
  assumes "ride_inv w"
  shows "ride_inv (snd (cancelRideRequest i now requester reason w))"
proof -
  have "ride_inv w'" if "cancel_load i requester w = Inr v" "cancel_commit i now reason v w = Inr w'" for v w'
    using that load_request_Inr [of i w v] assms
    by (auto simp: cancel_load_def split: sum.splits if_splits dest!: status_of_lookup
        intro: ride_inv_cancel_commit)
  then show ?thesis using assms
    by (auto simp: cancelRideRequest_def split: sum.splits option.splits)
qed

lemma ride_inv_trip_result:
  assumes "ride_inv w" "\<And>w'. c = Inr w' \<Longrightarrow> ride_inv w'"
  shows "ride_inv (snd (trip_result tripId e w c))"
  using assms by (auto simp: trip_result_def split: sum.splits option.splits)

lemma ride_inv_startTrip:
  assumes "ride_inv w"
  shows "ride_inv (snd (startTrip tripId now u w))"
  using assms
  by (auto simp: startTrip_def start_load_def findOwnedByDriver_Inr split: sum.splits if_splits
      intro!: ride_inv_trip_result ride_inv_start_commit [where w = w] dest!: lookup_SomeD)

lemma ride_inv_completeTrip:
  assumes "ride_inv w"
  shows "ride_inv (snd (completeTrip tripId now u w))"
  using assms
  by (auto simp: completeTrip_def complete_load_def findOwnedByDriver_Inr split: sum.splits if_splits
      intro!: ride_inv_trip_result ride_inv_complete_commit [where w = w] dest!: lookup_SomeD)

lemma ride_inv_user_update:
  assumes "ride_inv w" "user_update i f w = Inr w'" "\<And>u. u_id (f u) = u_id u"
  shows "ride_inv w'"
proof -
  from assms(2) have w': "w' = w\<lparr>users := update_where (\<lambda>u. u_id u = i) f (users w)\<rparr>"
    by (auto dest: user_update_Inr)
  show ?thesis
    by (rule ride_inv_frame [OF assms(1)])
      (use ride_invD(1,2) [OF assms(1)] assms(3) in \<open>simp_all add: w' keys_ok_def refs_ok_def
        unique_on_update_where image_update_where profile_users_def\<close>)
qed

lemma ride_inv_recalculateRating:
  "recalculateRating u w = (r, w') \<Longrightarrow> ride_inv w \<Longrightarrow> ride_inv w'"
  by (auto simp: recalculateRating_def split: sum.splits intro: ride_inv_user_update)

lemma ride_inv_rateTrip:
  assumes "ride_inv w"
  shows "ride_inv (snd (rateTrip newId now tripId u dto w))"
  using assms
  by (auto simp: rateTrip_def rating_create_Inr split: sum.splits prod.splits
      elim!: ride_inv_recalculateRating)

end
