(* ===== verification/Progress.thy ===== *)
theory Progress
  imports Lifecycle
begin

section \<open>Progress: a ride only moves forward\<close>

text \<open>
  The abstract state machine of a ride request (\<open>ride_edge\<close>) and the proof that every operation
  refines it: seen through \<open>status_of\<close>, an operation takes one edge or none, and a trip, once
  made, keeps its request, rider, driver and fare for ever.
\<close>

inductive ride_edge :: "RideRequestStatus option \<Rightarrow> RideRequestStatus option \<Rightarrow> bool" where
  opened: "ride_edge None (Some RideRequestStatus.PENDING)"
| matched: "ride_edge (Some RideRequestStatus.PENDING) (Some RideRequestStatus.MATCHED)"
| started: "ride_edge (Some RideRequestStatus.MATCHED) (Some RideRequestStatus.IN_PROGRESS)"
| completed: "ride_edge (Some RideRequestStatus.IN_PROGRESS) (Some RideRequestStatus.COMPLETED)"
| cancelled: "s = RideRequestStatus.PENDING \<or> s = RideRequestStatus.MATCHED \<Longrightarrow>
    ride_edge (Some s) (Some RideRequestStatus.CANCELLED)"

inductive_cases ride_edgeE: "ride_edge s s'"
inductive_simps ride_edge_from [simp]:
  "ride_edge (Some RideRequestStatus.COMPLETED) s" "ride_edge (Some RideRequestStatus.CANCELLED) s"

definition terminal :: "RideRequestStatus option \<Rightarrow> bool" where
  "terminal s \<longleftrightarrow> s = Some RideRequestStatus.COMPLETED \<or> s = Some RideRequestStatus.CANCELLED"

lemma ride_edge_terminal: "ride_edge\<^sup>*\<^sup>* s s' \<Longrightarrow> terminal s \<Longrightarrow> s' = s"
  by (induction rule: rtranclp_induct) (auto simp: terminal_def)

text \<open>The terms of a trip that no operation touches.\<close>

definition same_terms :: "Trip \<Rightarrow> Trip \<Rightarrow> bool" where
  "same_terms t t' \<longleftrightarrow>
     t_id t' = t_id t \<and> t_rideRequestId t' = t_rideRequestId t \<and> t_driverId t' = t_driverId t \<and>
     t_riderId t' = t_riderId t \<and> t_agreedFare t' = t_agreedFare t"

definition terms_kept :: "world \<Rightarrow> world \<Rightarrow> bool" where
  "terms_kept w w' \<longleftrightarrow>
     (\<forall>i t. trip_of w i = Some t \<longrightarrow> (\<exists>t'. trip_of w' i = Some t' \<and> same_terms t t'))"

text \<open>One step: one edge at most, at one request at most.\<close>

definition moves :: "world \<Rightarrow> world \<Rightarrow> bool" where
  "moves w w' \<longleftrightarrow>
     terms_kept w w' \<and>
     (status_of w' = status_of w \<or>
      (\<exists>i s. status_of w' = (status_of w)(i \<mapsto> s) \<and> ride_edge (status_of w i) (Some s)))"

text \<open>Any number of steps.\<close>

definition progress :: "world \<Rightarrow> world \<Rightarrow> bool" where
  "progress w w' \<longleftrightarrow>
     terms_kept w w' \<and> (\<forall>i. ride_edge\<^sup>*\<^sup>* (status_of w i) (status_of w' i))"

lemma same_terms_refl [simp]: "same_terms t t"
  by (simp add: same_terms_def)

lemma same_terms_trans: "same_terms t t' \<Longrightarrow> same_terms t' t'' \<Longrightarrow> same_terms t t''"
  by (simp add: same_terms_def)

lemma terms_kept_refl [simp]: "terms_kept w w"
  by (simp add: terms_kept_def)

lemma terms_kept_trans: "terms_kept w w' \<Longrightarrow> terms_kept w' w'' \<Longrightarrow> terms_kept w w''"
  unfolding terms_kept_def by (meson same_terms_trans)

lemma progress_refl [simp]: "progress w w"
  by (simp add: progress_def)

lemma progress_trans: "progress w w' \<Longrightarrow> progress w' w'' \<Longrightarrow> progress w w''"
  unfolding progress_def by (meson rtranclp_trans terms_kept_trans)

lemma moves_progress: "moves w w' \<Longrightarrow> progress w w'"
  by (auto simp: moves_def progress_def)

subsection \<open>Writes\<close>

lemma moves_frame:
  "rideRequests w' = rideRequests w \<Longrightarrow> trips w' = trips w \<Longrightarrow> moves w w'"
  by (auto simp: moves_def terms_kept_def status_of_def trip_of_def)

lemma moves_refl [simp]: "moves w w"
  by (rule moves_frame) simp_all

text \<open>The log and the queue are not read.\<close>

lemma views_logs [simp]:
  "status_of (emit e w) = status_of w" "trip_of (emit e w) = trip_of w"
  "status_of (enqueue c w) = status_of w" "trip_of (enqueue c w) = trip_of w"
  "status_of (cancelScheduledExpiry o1 w) = status_of w"
  "trip_of (cancelScheduledExpiry o1 w) = trip_of w"
  "status_of (scheduleExpiry secs o1 w) = status_of w"
  "trip_of (scheduleExpiry secs o1 w) = trip_of w"
  by (simp_all add: emit_def enqueue_def cancelScheduledExpiry_def scheduleExpiry_def
      status_of_def trip_of_def fun_eq_iff)

lemma views_fold [simp]:
  "status_of (fold cancelScheduledExpiry os w) = status_of w"
  "trip_of (fold cancelScheduledExpiry os w) = trip_of w"
  by (induction os arbitrary: w) simp_all

lemma moves_logs [simp]:
  "moves w (emit e w') = moves w w'" "moves w (cancelScheduledExpiry o1 w') = moves w w'"
  "moves w (scheduleExpiry secs o1 w') = moves w w'"
  "moves w (fold cancelScheduledExpiry os w') = moves w w'"
  by (simp_all add: moves_def terms_kept_def)

lemma moves_request_created:
  assumes created: "rideRequest_create r w = Inr w'" and st: "rr_status r = RideRequestStatus.PENDING"
  shows "moves w w'"
proof -
  from created have w': "w' = w\<lparr>rideRequests := rideRequests w @ [r]\<rparr>"
    and row: "create_row rideRequest_conflicts (user_exists (rr_riderId r) w) r (rideRequests w)
       = Inr (rideRequests w @ [r])"
    by (auto simp: rideRequest_create_Inr)
  have none: "lookup rr_id (rr_id r) (rideRequests w) = None"
    using requests_id.created_key_fresh [OF row] by (simp add: lookup_None_image)
  have "status_of w' = (status_of w)(rr_id r \<mapsto> RideRequestStatus.PENDING)"
    using none st by (auto simp: fun_eq_iff w' status_of_def lookup_append split: option.splits)
  moreover have "terms_kept w w'" by (simp add: w' terms_kept_def)
  moreover have "ride_edge (status_of w (rr_id r)) (Some RideRequestStatus.PENDING)"
    using none by (simp add: status_of_def ride_edge.opened)
  ultimately show ?thesis unfolding moves_def by blast
qed

lemma moves_accept:
  assumes commit: "acceptOffer_commit newId now riderId v w = Inr w'"
    and opn: "status_of w (ro_rideRequestId (ov_offer v)) = Some RideRequestStatus.PENDING"
  shows "moves w w'"
proof -
  let ?i = "ro_rideRequestId (ov_offer v)" and ?t = "new_trip newId now riderId v"
  note w' = acceptOffer_commit_Inr(1) [OF commit]
  have "status_of w' j = ((status_of w)(?i \<mapsto> RideRequestStatus.MATCHED)) j" for j
  proof -
    have "status_of w' j = status_of (w\<lparr>rideRequests := update_where (\<lambda>r. rr_id r = ?i)
        (\<lambda>r. r\<lparr>rr_status := RideRequestStatus.MATCHED\<rparr>) (rideRequests w)\<rparr>) j"
      by (simp add: w' status_of_def)
    also have "... = (if j = ?i then map_option (\<lambda>_. RideRequestStatus.MATCHED) (status_of w ?i)
        else status_of w j)"
      by (rule status_of_set) simp_all
    finally show ?thesis using opn by simp
  qed
  then have "status_of w' = (status_of w)(?i \<mapsto> RideRequestStatus.MATCHED)" by blast
  moreover have "terms_kept w w'"
    by (auto simp: terms_kept_def w' trip_of_def lookup_append)
  ultimately show ?thesis unfolding moves_def using opn ride_edge.matched by metis
qed

lemma moves_advance:
  assumes f: "\<And>r. rr_id (f r) = rr_id r" "\<And>r. rr_status (f r) = s"
    and h: "\<And>t. same_terms t (h t)"
    and edge: "ride_edge (status_of w i) (Some s)" and known: "status_of w i \<noteq> None"
    and w': "rideRequests w' = update_where (\<lambda>r. rr_id r = i) f (rideRequests w)"
      "trips w' = update_where p h (trips w)"
  shows "moves w w'"
proof -
  have "status_of w' j = ((status_of w)(i \<mapsto> s)) j" for j
  proof -
    have "status_of w' j
      = status_of (w\<lparr>rideRequests := update_where (\<lambda>r. rr_id r = i) f (rideRequests w)\<rparr>) j"
      by (simp add: w' status_of_def)
    also have "... = (if j = i then map_option (\<lambda>_. s) (status_of w i) else status_of w j)"
      by (rule status_of_set) (rule f)+
    finally show ?thesis using known by auto
  qed
  then have "status_of w' = (status_of w)(i \<mapsto> s)" by blast
  moreover have "terms_kept w w'"
    using h by (auto simp: terms_kept_def trip_of_def w' lookup_update_where same_terms_def)
  ultimately show ?thesis unfolding moves_def using edge by blast
qed

subsection \<open>Operations\<close>

lemma moves_createRideRequest: "moves w (snd (createRideRequest g km newId now riderId dto w))"
  by (auto simp: createRideRequest_def Let_def new_request_def split: sum.splits
      intro: moves_request_created)

lemma rideOffer_upsert_frame:
  assumes "rideOffer_upsert newId now i d fare w = Inr (f, w')"
  shows "w' = w\<lparr>rideOffers := rideOffers w'\<rparr>"
  using assms by (auto simp: rideOffer_upsert_def rideOffer_create_Inr split: option.splits sum.splits
      dest!: rideOffer_update_Inr)

lemma moves_submitOffer: "moves w (snd (submitOffer secs newId now u i fare w))"
proof -
  have "moves w w'" if "rideOffer_upsert newId now i d fare w = Inr (f, w')" for d f w'
    by (subst rideOffer_upsert_frame [OF that]) (rule moves_frame, simp_all)
  then show ?thesis
    by (auto simp: submitOffer_def submitOffer_finish_def split: sum.splits)
qed

lemma moves_acceptOffer: "moves w (snd (acceptOffer newId now riderId offerId w))"
  using acceptOffer_load_Inr [of riderId offerId w]
  by (auto simp: acceptOffer_def acceptOffer_finish_def status_of_def split: sum.splits
      intro!: moves_accept)

lemma moves_expireIfStillPending: "moves w (snd (expireIfStillPending offerId w))"
  by (auto simp: expireIfStillPending_def expireOffer_commit_def split: sum.splits option.splits
      dest!: rideOffer_update_Inr intro: moves_frame)

lemma moves_process_job: "moves w (snd (process_job j w))"
proof (cases j)
  case (ExpireOffer i)
  with moves_expireIfStillPending [of w i] show ?thesis
    by (auto split: prod.splits sum.splits option.splits)
next
  case (ExpireDriverPendingOffers p)
  then show ?thesis
    by (auto simp: expireAllPendingOffersForDriver_def rideOffer_updateMany_def
        split: option.splits intro: moves_frame)
qed

lemma cancel_commit_Inr:
  assumes "cancel_commit i now reason v w = Inr w'"
  shows "rideRequests w' = update_where (\<lambda>r. rr_id r = i) (cancelled_request now reason) (rideRequests w)"
    and "rideOffers w' = update_where (pending_of_request i)
      (\<lambda>f. f\<lparr>ro_status := OfferStatus.EXPIRED\<rparr>) (rideOffers w)"
    and "trips w' = update_where (\<lambda>t. map_option t_id (rv_trip v) = Some (t_id t)) (cancelled_trip reason) (trips w)"
  using assms
  by (auto simp: cancel_commit_def rideOffer_updateMany_def update_where_none
      split: sum.splits option.splits dest!: rideRequest_update_Inr trip_update_Inr
      intro!: update_where_cong)

lemma same_terms_cancelled_trip: "same_terms t (cancelled_trip reason t)"
  by (simp add: same_terms_def cancelled_trip_def)

lemma moves_cancelRideRequest: "moves w (snd (cancelRideRequest i now requester reason w))"
proof -
  have "moves w w'" if load: "cancel_load i requester w = Inr v"
    and commit: "cancel_commit i now reason v w = Inr w'" for v w'
  proof -
    from load have st: "status_of w i = Some RideRequestStatus.PENDING \<or>
        status_of w i = Some RideRequestStatus.MATCHED"
      using load_request_Inr [of i w v]
      by (auto simp: cancel_load_def status_of_def split: sum.splits if_splits)
    show ?thesis
      by (rule moves_advance [OF _ _ same_terms_cancelled_trip _ _ cancel_commit_Inr(1) [OF commit]
            cancel_commit_Inr(3) [OF commit]])
        (use st in \<open>auto simp: cancelled_request_def intro: ride_edge.cancelled\<close>)
  qed
  then show ?thesis
    by (auto simp: cancelRideRequest_def split: sum.splits option.splits)
qed

lemma moves_trip_result:
  "(\<And>w'. c = Inr w' \<Longrightarrow> moves w w') \<Longrightarrow> moves w (snd (trip_result tripId e w c))"
  by (auto simp: trip_result_def split: sum.splits option.splits)

lemma trip_row_status:
  assumes "ride_inv w" "lookup t_id tripId (trips w) = Some t"
  shows "linked (status_of w (t_rideRequestId t)) (Some (t_status t))"
proof -
  from assms have "trip_of w (t_rideRequestId t) = Some t"
    by (auto simp: trip_of_member dest: lookup_SomeD)
  with linked_of [OF assms(1), of "t_rideRequestId t"] show ?thesis by simp
qed

lemma moves_startTrip:
  assumes "ride_inv w"
  shows "moves w (snd (startTrip tripId now u w))"
proof -
  have "moves w w'" if "start_load tripId u w = Inr t" "start_commit tripId now t w = Inr w'" for t w'
  proof (rule moves_advance [where i = "t_rideRequestId t" and p = "\<lambda>t. t_id t = tripId"
        and f = "\<lambda>r. r\<lparr>rr_status := RideRequestStatus.IN_PROGRESS\<rparr>"
        and h = "\<lambda>t. t\<lparr>t_status := TripStatus.STARTED, t_startedAt := Some now\<rparr>"])
    from that(1) have "lookup t_id tripId (trips w) = Some t" "t_status t = TripStatus.MATCHED"
      by (auto simp: start_load_def findOwnedByDriver_Inr split: sum.splits if_splits)
    with trip_row_status [OF assms] have st: "status_of w (t_rideRequestId t) = Some RideRequestStatus.MATCHED"
      by (fastforce simp: linked_trip)
    then show "ride_edge (status_of w (t_rideRequestId t)) (Some RideRequestStatus.IN_PROGRESS)"
      and "status_of w (t_rideRequestId t) \<noteq> None"
      by (simp_all add: ride_edge.started)
  qed (use that(2) in \<open>auto simp: start_commit_def same_terms_def split: sum.splits
      dest!: trip_update_Inr rideRequest_update_Inr\<close>)
  then show ?thesis by (auto simp: startTrip_def split: sum.splits intro: moves_trip_result)
qed

lemma moves_completeTrip:
  assumes "ride_inv w"
  shows "moves w (snd (completeTrip tripId now u w))"
proof -
  have "moves w w'" if "complete_load tripId u w = Inr t" "complete_commit tripId now t w = Inr w'" for t w'
  proof (rule moves_advance [where i = "t_rideRequestId t" and p = "\<lambda>t. t_id t = tripId"
        and f = "\<lambda>r. r\<lparr>rr_status := RideRequestStatus.COMPLETED\<rparr>"
        and h = "\<lambda>t. t\<lparr>t_status := TripStatus.COMPLETED, t_endedAt := Some now\<rparr>"])
    from that(1) have "lookup t_id tripId (trips w) = Some t" "t_status t = TripStatus.STARTED"
      by (auto simp: complete_load_def findOwnedByDriver_Inr split: sum.splits if_splits)
    with trip_row_status [OF assms] have st: "status_of w (t_rideRequestId t) = Some RideRequestStatus.IN_PROGRESS"
      by (fastforce simp: linked_trip)
    then show "ride_edge (status_of w (t_rideRequestId t)) (Some RideRequestStatus.COMPLETED)"
      and "status_of w (t_rideRequestId t) \<noteq> None"
      by (simp_all add: ride_edge.completed)
  qed (use that(2) in \<open>auto simp: complete_commit_def same_terms_def split: sum.splits
      dest!: trip_update_Inr rideRequest_update_Inr\<close>)
  then show ?thesis by (auto simp: completeTrip_def split: sum.splits intro: moves_trip_result)
qed

lemma recalculateRating_frame:
  "recalculateRating u w = (r, w') \<Longrightarrow> rideRequests w' = rideRequests w \<and> trips w' = trips w"
  by (auto simp: recalculateRating_def split: sum.splits dest!: user_update_Inr)

lemma moves_rateTrip: "moves w (snd (rateTrip newId now tripId u dto w))"
proof (rule moves_frame)
  show "rideRequests (snd (rateTrip newId now tripId u dto w)) = rideRequests w"
    and "trips (snd (rateTrip newId now tripId u dto w)) = trips w"
    by (auto simp: rateTrip_def rating_create_Inr split: sum.splits prod.splits
        dest!: recalculateRating_frame)
qed

end
