(* ===== verification/Cache.thy ===== *)
theory Cache
  imports World
begin

section \<open>Cache: the cache-aside wrapper over Redis\<close>

text \<open>
  Models \<open>common/cache/cache.service.ts\<close>. A key of Redis holds a text and the instant it expires
  (\<open>SET key value EX ttl\<close>); an expired key reads as absent. A cached value is an \<open>'a option\<close>,
  \<open>None\<close> being JavaScript's \<open>null\<close>. How a value is written as JSON is the contract
  \<open>json_codec\<close>; \<open>parse\<close> gives \<open>None\<close> where \<open>JSON.parse\<close> throws.
\<close>

definition cache_get :: "(string \<Rightarrow> 'a option option) \<Rightarrow> string \<Rightarrow> int \<Rightarrow> world \<Rightarrow> 'a option" where
  "cache_get parse key now w =
     (case redis w key of
        None \<Rightarrow> None
      | Some (raw, expires) \<Rightarrow>
          if expires \<le> now then None
          else (case parse raw of None \<Rightarrow> None | Some v \<Rightarrow> v))"

definition cache_set ::
  "('a option \<Rightarrow> string) \<Rightarrow> string \<Rightarrow> 'a option \<Rightarrow> int \<Rightarrow> int \<Rightarrow> world \<Rightarrow> world" where
  "cache_set stringify key v ttlSeconds now w =
     w\<lparr>redis := (redis w)(key \<mapsto> (stringify v, now + ttlSeconds * 1000))\<rparr>"

definition cache_del :: "string \<Rightarrow> world \<Rightarrow> world" where
  "cache_del key w = w\<lparr>redis := (redis w)(key := None)\<rparr>"

definition getOrSet ::
  "('a option \<Rightarrow> string) \<Rightarrow> (string \<Rightarrow> 'a option option) \<Rightarrow> string \<Rightarrow> int \<Rightarrow> int \<Rightarrow>
   (world \<Rightarrow> 'a option result) \<Rightarrow> world \<Rightarrow> 'a option result" where
  "getOrSet stringify parse key ttlSeconds now factory w =
     (case cache_get parse key now w of
        Some cached \<Rightarrow> (Inr (Some cached), w)
      | None \<Rightarrow>
          (case factory w of
             (Inl e, w') \<Rightarrow> (Inl e, w')
           | (Inr v, w') \<Rightarrow> (Inr v, cache_set stringify key v ttlSeconds now w')))"

lemmas cache_defs = cache_get_def cache_set_def cache_del_def getOrSet_def

lemma cache_get_frame: "redis w' = redis w \<Longrightarrow> cache_get parse key now w' = cache_get parse key now w"
  by (simp add: cache_get_def)

lemma getOrSet_hit:
  "cache_get parse key now w = Some v \<Longrightarrow>
     getOrSet stringify parse key ttl now factory w = (Inr (Some v), w)"
  by (simp add: getOrSet_def)

text \<open>A factory that throws leaves no entry behind.\<close>

lemma getOrSet_error:
  assumes "cache_get parse key now w = None" "factory w = (Inl e, w')"
  shows "getOrSet stringify parse key ttl now factory w = (Inl e, w')"
  using assms by (simp add: getOrSet_def)

subsection \<open>What the wrapper promises over any faithful JSON codec\<close>

locale json_codec =
  fixes stringify :: "'a option \<Rightarrow> string"
    and parse :: "string \<Rightarrow> 'a option option"
  assumes parse_stringify: "parse (stringify v) = Some v"
begin

lemma get_set_same:
  "now' < now + ttl * 1000 \<Longrightarrow> cache_get parse key now' (cache_set stringify key v ttl now w) = v"
  by (simp add: cache_defs parse_stringify)

lemma get_set_expired:
  "now + ttl * 1000 \<le> now' \<Longrightarrow> cache_get parse key now' (cache_set stringify key v ttl now w) = None"
  by (simp add: cache_defs)

lemma get_set_other:
  "k \<noteq> key \<Longrightarrow>
     cache_get parse k now' (cache_set stringify key v ttl now w) = cache_get parse k now' w"
  by (simp add: cache_defs)

lemma get_del: "cache_get parse k now (cache_del key w) = (if k = key then None else cache_get parse k now w)"
  by (simp add: cache_defs)

text \<open>
  A cached \<open>null\<close> is indistinguishable from a miss: the absence of a value is never cached, and a
  value created later is found at once.
\<close>

lemma null_is_a_miss: "cache_get parse key now' (cache_set stringify key None ttl now w) = None"
  by (simp add: cache_defs parse_stringify)

text \<open>What the next reader of a computed value sees.\<close>

lemma getOrSet_then_get:
  assumes "getOrSet stringify parse key ttl now factory w = (Inr v, w')"
    and "cache_get parse key now w = None" and "now' < now + ttl * 1000"
  shows "cache_get parse key now' w' = v"
  using assms by (auto simp: getOrSet_def get_set_same split: sum.splits prod.splits)

end

end
