(* ===== verification/Drivers.thy ===== *)
theory Drivers
  imports Cache Offers
begin

section \<open>Drivers: identity, availability and location\<close>

text \<open>
  Models \<open>drivers/drivers.service.ts\<close> with the response shapes of \<open>drivers/dto\<close>. The driver
  identity is cached as JSON; \<open>json_string\<close> is what \<open>JSON.stringify\<close> makes of a string, and
  \<open>identity_parse\<close> reads back the texts the service writes under its own keys.
\<close>

record DriverIdentity =
  di_id :: string
  di_userId :: string

subsection \<open>The identity as JSON\<close>

definition hex_digit :: "nat \<Rightarrow> char" where
  "hex_digit n = ''0123456789abcdef'' ! n"

definition hex_value :: "char \<Rightarrow> nat option" where
  "hex_value c = lookup hex_digit c [0..<16]"

definition json_char :: "char \<Rightarrow> string" where
  "json_char c =
     (if c = CHR 0x22 then [CHR 0x5C, CHR 0x22]
      else if c = CHR 0x5C then [CHR 0x5C, CHR 0x5C]
      else if c = CHR 0x08 then [CHR 0x5C, CHR ''b'']
      else if c = CHR 0x09 then [CHR 0x5C, CHR ''t'']
      else if c = CHR 0x0A then [CHR 0x5C, CHR ''n'']
      else if c = CHR 0x0C then [CHR 0x5C, CHR ''f'']
      else if c = CHR 0x0D then [CHR 0x5C, CHR ''r'']
      else if of_char c < (0x20 :: nat)
      then [CHR 0x5C, CHR ''u'', CHR ''0'', CHR ''0'', hex_digit (of_char c div 16), hex_digit (of_char c mod 16)]
      else [c])"

definition json_string :: "string \<Rightarrow> string" where
  "json_string s = CHR 0x22 # concat (map json_char s) @ [CHR 0x22]"

definition json_escape :: "char \<Rightarrow> char option" where
  "json_escape c =
     map_of [(CHR 0x22, CHR 0x22), (CHR 0x5C, CHR 0x5C), (CHR ''/'', CHR ''/''), (CHR ''b'', CHR 0x08),
       (CHR ''t'', CHR 0x09), (CHR ''n'', CHR 0x0A), (CHR ''f'', CHR 0x0C), (CHR ''r'', CHR 0x0D)] c"

text \<open>The rest of a string literal and what follows its closing quote.\<close>

fun json_unescape :: "string \<Rightarrow> (string \<times> string) option" where
  "json_unescape [] = None"
| "json_unescape (c # cs) =
     (if c = CHR 0x22 then Some ([], cs)
      else if of_char c < (0x20 :: nat) then None
      else if c \<noteq> CHR 0x5C then map_option (apfst (Cons c)) (json_unescape cs)
      else
        (case cs of
           [] \<Rightarrow> None
         | e # ds \<Rightarrow>
             (case json_escape e of
                Some d \<Rightarrow> map_option (apfst (Cons d)) (json_unescape ds)
              | None \<Rightarrow>
                  (case ds of
                     z # z' # a # b # es \<Rightarrow>
                       if e = CHR ''u'' \<and> z = CHR ''0'' \<and> z' = CHR ''0'' then
                         (case (hex_value a, hex_value b) of
                            (Some m, Some n) \<Rightarrow>
                              if m < 8
                              then map_option (apfst (Cons (char_of (16 * m + n)))) (json_unescape es)
                              else None
                          | _ \<Rightarrow> None)
                       else None
                   | _ \<Rightarrow> None))))"

fun strip_prefix :: "string \<Rightarrow> string \<Rightarrow> string option" where
  "strip_prefix [] s = Some s"
| "strip_prefix (c # cs) (d # ds) = (if c = d then strip_prefix cs ds else None)"
| "strip_prefix (c # cs) [] = None"

definition identity_head :: string where
  "identity_head = [CHR ''{'', CHR 0x22, CHR ''i'', CHR ''d'', CHR 0x22, CHR '':'', CHR 0x22]"

definition identity_mid :: string where
  "identity_mid = [CHR '','', CHR 0x22] @ ''userId'' @ [CHR 0x22, CHR '':'', CHR 0x22]"

definition identity_stringify :: "DriverIdentity option \<Rightarrow> string" where
  "identity_stringify v =
     (case v of
        None \<Rightarrow> ''null''
      | Some d \<Rightarrow>
          identity_head @ tl (json_string (di_id d)) @ identity_mid @ tl (json_string (di_userId d)) @ ''}'')"

definition identity_parse :: "string \<Rightarrow> DriverIdentity option option" where
  "identity_parse s =
     (if s = ''null'' then Some None
      else
        (case Option.bind (strip_prefix identity_head s) json_unescape of
           None \<Rightarrow> None
         | Some (i, s') \<Rightarrow>
             (case Option.bind (strip_prefix identity_mid s') json_unescape of
                None \<Rightarrow> None
              | Some (u, s'') \<Rightarrow>
                  if s'' = ''}'' then Some (Some \<lparr>di_id = i, di_userId = u\<rparr>) else None)))"

lemma strip_prefix_append [simp]: "strip_prefix p (p @ s) = Some s"
  by (induction p) simp_all

lemma hex_value_digit: "n < 16 \<Longrightarrow> hex_value (hex_digit n) = Some n"
proof -
  have "list_all (\<lambda>n. hex_value (hex_digit n) = Some n) [0..<16]" by code_simp
  then show "n < 16 \<Longrightarrow> hex_value (hex_digit n) = Some n" by (simp add: list_all_iff)
qed

lemma json_unescape_char:
  "json_unescape (json_char c @ s) = map_option (apfst (Cons c)) (json_unescape s)"
proof (cases "c \<in> set [CHR 0x22, CHR 0x5C, CHR 0x08, CHR 0x09, CHR 0x0A, CHR 0x0C, CHR 0x0D]")
  case True
  then show ?thesis by (auto simp: json_char_def json_escape_def)
next
  case False
  show ?thesis
  proof (cases "of_char c < (0x20 :: nat)")
    case True
    have "16 * (of_char c div 16) + of_char c mod 16 = (of_char c :: nat)" by simp
    moreover have "of_char c div 16 < (8 :: nat)" using True by linarith
    ultimately show ?thesis using True False
      by (simp add: json_char_def json_escape_def hex_value_digit)
  next
    case not_control: False
    with False show ?thesis by (simp add: json_char_def)
  qed
qed

lemma json_unescape_string:
  "json_unescape (tl (json_string s) @ t) = Some (s, t)"
proof -
  have "json_unescape (concat (map json_char s) @ CHR 0x22 # t) = Some (s, t)"
    by (induction s) (simp_all add: json_unescape_char del: json_unescape.simps(2), simp)
  then show ?thesis by (simp add: json_string_def del: json_unescape.simps)
qed

interpretation driver_identity: json_codec identity_stringify identity_parse
proof
  fix v :: "DriverIdentity option"
  show "identity_parse (identity_stringify v) = Some v"
  proof (cases v)
    case (Some d)
    have "identity_stringify v \<noteq> ''null''" by (simp add: Some identity_stringify_def identity_head_def)
    then show ?thesis
      by (simp add: Some identity_parse_def identity_stringify_def json_unescape_string
          del: json_unescape.simps)
  qed (simp add: identity_parse_def identity_stringify_def)
qed

subsection \<open>DriversService\<close>

definition DRIVER_IDENTITY_CACHE_TTL_SECONDS :: int where
  "DRIVER_IDENTITY_CACHE_TTL_SECONDS = 300"

definition driverIdentityCacheKey :: "string \<Rightarrow> string" where
  "driverIdentityCacheKey userId = ''driver-identity:'' @ userId"

definition findByUserId :: "string \<Rightarrow> world \<Rightarrow> DriverProfile option" where
  "findByUserId userId w = lookup dp_userId userId (driverProfiles w)"

definition identity_of :: "DriverProfile \<Rightarrow> DriverIdentity" where
  "identity_of p = \<lparr>di_id = dp_id p, di_userId = dp_userId p\<rparr>"

definition findIdentityByUserId :: "int \<Rightarrow> string \<Rightarrow> world \<Rightarrow> DriverIdentity option result" where
  "findIdentityByUserId now userId =
     getOrSet identity_stringify identity_parse (driverIdentityCacheKey userId)
       DRIVER_IDENTITY_CACHE_TTL_SECONDS now
       (\<lambda>w. (Inr (map_option identity_of (lookup dp_userId userId (driverProfiles w))), w))"

text \<open>\<open>prisma.driverProfile.update({ where: { userId }, data })\<close> and the row it returns.\<close>

definition update_profile ::
  "string \<Rightarrow> (DriverProfile \<Rightarrow> DriverProfile) \<Rightarrow> world \<Rightarrow> DriverProfile result" where
  "update_profile userId f w =
     (case driverProfile_update (\<lambda>p. dp_userId p = userId) f w of
        Inl e \<Rightarrow> (Inl e, w)
      | Inr w' \<Rightarrow>
          (case lookup dp_userId userId (driverProfiles w') of
             None \<Rightarrow> (Inl (PrismaError P2025), w')
           | Some updated \<Rightarrow> (Inr updated, w')))"

record DriverStatusResponse =
  dsr_id :: string
  dsr_isOnline :: bool

record DriverLocationResponse =
  dlr_id :: string
  dlr_currentLat :: "real option"
  dlr_currentLng :: "real option"
  dlr_locationUpdatedAt :: "int option"

definition setOnlineStatus :: "int \<Rightarrow> string \<Rightarrow> bool \<Rightarrow> world \<Rightarrow> DriverStatusResponse result" where
  "setOnlineStatus now userId isOnline w =
     (case findIdentityByUserId now userId w of
        (Inl e, w1) \<Rightarrow> (Inl e, w1)
      | (Inr None, w1) \<Rightarrow> (Inl (NotFoundException ''Driver profile not found''), w1)
      | (Inr (Some profile), w1) \<Rightarrow>
          (case update_profile userId (\<lambda>p. p\<lparr>dp_isOnline := isOnline\<rparr>) w1 of
             (Inl e, w2) \<Rightarrow> (Inl e, w2)
           | (Inr updated, w2) \<Rightarrow>
               (Inr \<lparr>dsr_id = dp_id updated, dsr_isOnline = dp_isOnline updated\<rparr>,
                emit (DriverOnlineStatusChanged userId isOnline
                        (dp_currentLat updated) (dp_currentLng updated)) w2)))"

definition updateLocation ::
  "int \<Rightarrow> string \<Rightarrow> real \<Rightarrow> real \<Rightarrow> world \<Rightarrow> DriverLocationResponse result" where
  "updateLocation now userId lat lng w =
     (case findIdentityByUserId now userId w of
        (Inl e, w1) \<Rightarrow> (Inl e, w1)
      | (Inr None, w1) \<Rightarrow> (Inl (NotFoundException ''Driver profile not found''), w1)
      | (Inr (Some profile), w1) \<Rightarrow>
          (case update_profile userId
                  (\<lambda>p. p\<lparr>dp_currentLat := Some lat, dp_currentLng := Some lng,
                         dp_locationUpdatedAt := Some now\<rparr>) w1 of
             (Inl e, w2) \<Rightarrow> (Inl e, w2)
           | (Inr updated, w2) \<Rightarrow>
               (Inr \<lparr>dlr_id = dp_id updated, dlr_currentLat = dp_currentLat updated,
                     dlr_currentLng = dp_currentLng updated,
                     dlr_locationUpdatedAt = dp_locationUpdatedAt updated\<rparr>,
                emit (DriverLocationUpdated userId lat lng) w2)))"

definition goOffline :: "real \<Rightarrow> int \<Rightarrow> string \<Rightarrow> world \<Rightarrow> unit result" where
  "goOffline expirySeconds now userId w =
     (case findIdentityByUserId now userId w of
        (Inl e, w1) \<Rightarrow> (Inl e, w1)
      | (Inr None, w1) \<Rightarrow> (Inr (), w1)
      | (Inr (Some profile), w1) \<Rightarrow>
          (case update_profile userId (\<lambda>p. p\<lparr>dp_isOnline := False\<rparr>) w1 of
             (Inl e, w2) \<Rightarrow> (Inl e, w2)
           | (Inr updated, w2) \<Rightarrow>
               (Inr (),
                scheduleDriverOfferExpiry expirySeconds (di_id profile)
                  (emit (DriverOnlineStatusChanged userId False
                           (dp_currentLat updated) (dp_currentLng updated)) w2))))"

lemmas driver_ops [op_defs] =
  findIdentityByUserId_def update_profile_def setOnlineStatus_def updateLocation_def goOffline_def

subsection \<open>The identity cache never goes stale\<close>

text \<open>Whatever is cached for a user, expired or not, is the identity the table holds.\<close>

definition identity_cache_ok :: "world \<Rightarrow> bool" where
  "identity_cache_ok w \<longleftrightarrow>
     (\<forall>u raw expires d.
        redis w (driverIdentityCacheKey u) = Some (raw, expires) \<longrightarrow> identity_parse raw = Some (Some d) \<longrightarrow>
        (\<exists>p. lookup dp_userId u (driverProfiles w) = Some p \<and> d = identity_of p))"

lemma driverIdentityCacheKey_inj [simp]:
  "driverIdentityCacheKey u = driverIdentityCacheKey v \<longleftrightarrow> u = v"
  by (simp add: driverIdentityCacheKey_def)

lemma identity_cache_hit:
  assumes "identity_cache_ok w" "cache_get identity_parse (driverIdentityCacheKey u) now w = Some d"
  shows "map_option identity_of (lookup dp_userId u (driverProfiles w)) = Some d"
  using assms by (force simp: cache_get_def identity_cache_ok_def split: option.splits prod.splits if_splits)

lemma identity_cache_ok_set:
  assumes "identity_cache_ok w"
  shows "identity_cache_ok (cache_set identity_stringify (driverIdentityCacheKey u)
    (map_option identity_of (lookup dp_userId u (driverProfiles w))) ttl now w)"
  using assms by (auto simp: identity_cache_ok_def cache_set_def driver_identity.parse_stringify)

text \<open>The cached lookup and the fresh one are the same function of the database.\<close>

lemma findIdentityByUserId_fresh:
  assumes "identity_cache_ok w"
  shows "\<exists>r. findIdentityByUserId now u w
      = (Inr (map_option identity_of (lookup dp_userId u (driverProfiles w))), w\<lparr>redis := r\<rparr>)
    \<and> identity_cache_ok (w\<lparr>redis := r\<rparr>)"
proof (cases "cache_get identity_parse (driverIdentityCacheKey u) now w")
  case None
  then show ?thesis
    using identity_cache_ok_set [OF assms, of u]
    by (auto simp: findIdentityByUserId_def getOrSet_def cache_set_def)
next
  case (Some d)
  then have "findIdentityByUserId now u w = (Inr (Some d), w\<lparr>redis := redis w\<rparr>)"
    by (simp add: findIdentityByUserId_def getOrSet_hit)
  with identity_cache_hit [OF assms Some] assms show ?thesis
    by (intro exI [of _ "redis w"]) (auto simp del: map_option_eq_Some)
qed

lemma identity_cache_ok_frame:
  assumes "identity_cache_ok w" "redis w' = redis w"
    and "\<And>u p. lookup dp_userId u (driverProfiles w) = Some p \<Longrightarrow>
      \<exists>p'. lookup dp_userId u (driverProfiles w') = Some p' \<and> identity_of p' = identity_of p"
  shows "identity_cache_ok w'"
  using assms unfolding identity_cache_ok_def by metis

text \<open>Profiles are only ever added, and updates keep their identity.\<close>

lemma identity_cache_ok_update:
  assumes "identity_cache_ok w" "\<And>p. identity_of (f p) = identity_of p"
  shows "identity_cache_ok (w\<lparr>driverProfiles := update_where q f (driverProfiles w)\<rparr>)"
proof (rule identity_cache_ok_frame [OF assms(1)])
  have key: "dp_userId (f p) = dp_userId p" for p
    using assms(2) [of p] by (simp add: identity_of_def)
  fix u p assume "lookup dp_userId u (driverProfiles w) = Some p"
  then show "\<exists>p'. lookup dp_userId u (driverProfiles (w\<lparr>driverProfiles := update_where q f (driverProfiles w)\<rparr>))
      = Some p' \<and> identity_of p' = identity_of p"
    using assms(2) by (simp add: lookup_update_where key)
qed simp

lemma identity_cache_ok_append:
  assumes "identity_cache_ok w"
  shows "identity_cache_ok (w\<lparr>driverProfiles := driverProfiles w @ ps\<rparr>)"
  by (rule identity_cache_ok_frame [OF assms]) (auto simp: lookup_append)

subsection \<open>What the three operations do\<close>

lemma driverProfile_update_ok:
  assumes key: "unique_on dp_id (driverProfiles w)" "unique_on dp_userId (driverProfiles w)"
      "unique_on dp_driverApplicationId (driverProfiles w)"
    and p: "lookup dp_userId u (driverProfiles w) = Some p"
    and f: "dp_id (f p) = dp_id p" "dp_userId (f p) = dp_userId p"
      "dp_driverApplicationId (f p) = dp_driverApplicationId p"
  shows "driverProfile_update (\<lambda>p. dp_userId p = u) f w
    = Inr (w\<lparr>driverProfiles := update_where (\<lambda>p. dp_userId p = u) f (driverProfiles w)\<rparr>)"
proof -
  from p have r: "p \<in> set (driverProfiles w)" by (auto dest: lookup_SomeD)
  have "x = p" if "x \<in> set (driverProfiles w)" "driverProfile_conflicts (f p) x" for x
    using that key r f unique_on_eq [of dp_id _ p x] unique_on_eq [of dp_userId _ p x]
      unique_on_eq [of dp_driverApplicationId _ p x]
    by (auto simp: driverProfile_conflicts_def)
  with p have "update_row driverProfile_conflicts (\<lambda>p. dp_userId p = u) f (driverProfiles w)
    = Inr (update_where (\<lambda>p. dp_userId p = u) f (driverProfiles w))" by (rule update_row_ok)
  then show ?thesis by (simp add: driverProfile_update_def on_table_def)
qed

definition profile_keys_ok :: "world \<Rightarrow> bool" where
  "profile_keys_ok w \<longleftrightarrow>
     unique_on dp_id (driverProfiles w) \<and> unique_on dp_userId (driverProfiles w) \<and>
     unique_on dp_driverApplicationId (driverProfiles w)"

definition same_profile :: "DriverProfile \<Rightarrow> DriverProfile \<Rightarrow> bool" where
  "same_profile p q \<longleftrightarrow>
     dp_id q = dp_id p \<and> dp_userId q = dp_userId p \<and>
     dp_driverApplicationId q = dp_driverApplicationId p"

lemma update_profile_ok:
  assumes "profile_keys_ok w" "\<And>p. same_profile p (f p)"
    and p: "lookup dp_userId u (driverProfiles w) = Some p"
  shows "update_profile u f w
    = (Inr (f p), w\<lparr>driverProfiles := update_where (\<lambda>p. dp_userId p = u) f (driverProfiles w)\<rparr>)"
proof -
  have "driverProfile_update (\<lambda>p. dp_userId p = u) f w
    = Inr (w\<lparr>driverProfiles := update_where (\<lambda>p. dp_userId p = u) f (driverProfiles w)\<rparr>)"
    using assms by (intro driverProfile_update_ok [where p = p])
      (auto simp: profile_keys_ok_def same_profile_def)
  moreover have "lookup dp_userId u (update_where (\<lambda>p. dp_userId p = u) f (driverProfiles w)) = Some (f p)"
    using assms(2) p by (auto simp: same_profile_def lookup_update_where dest: lookup_SomeD)
  ultimately show ?thesis by (simp add: update_profile_def)
qed

lemma update_profile_world:
  assumes "update_profile u f w = (r, w')" "\<And>p. same_profile p (f p)"
  shows "w' = w \<or> w' = w\<lparr>driverProfiles := update_where (\<lambda>p. dp_userId p = u) f (driverProfiles w)\<rparr>"
  using assms
  by (auto simp: update_profile_def driverProfile_update_def on_table_Inr
      split: sum.splits option.splits dest!: update_row_Inr)

end
