(* ===== verification/Users.thy ===== *)
theory Users
  imports Drivers Ratings
begin

section \<open>Users: accounts, the active profile, and the guards that read it\<close>

text \<open>
  Models \<open>users/users.service.ts\<close> (its \<open>recalculateRating\<close> is in Ratings) and the guards
  \<open>common/guards/active-profile.guard.ts\<close> and \<open>common/guards/roles.guard.ts\<close>. The metadata a
  decorator leaves on a route (\<open>@RequireProfile\<close>, \<open>@Roles\<close>) is an argument of the guard.
\<close>

subsection \<open>UsersService\<close>

definition findByPhone :: "string \<Rightarrow> world \<Rightarrow> User option" where
  "findByPhone phone w = lookup u_phone phone (users w)"

definition findById :: "string \<Rightarrow> world \<Rightarrow> User option" where
  "findById i w = lookup u_id i (users w)"

record ActiveProfileResponse =
  apr_id :: string
  apr_activeProfile :: ActiveProfile

definition setActiveProfile ::
  "real \<Rightarrow> int \<Rightarrow> string \<Rightarrow> ActiveProfile \<Rightarrow> world \<Rightarrow> ActiveProfileResponse result" where
  "setActiveProfile expirySeconds now userId profile w =
     (if profile = DRIVER \<and> lookup dp_userId userId (driverProfiles w) = None
      then (Inl (ForbiddenException ''Complete driver verification before switching to driver mode''), w)
      else
        (case user_update userId (\<lambda>u. u\<lparr>u_activeProfile := profile\<rparr>) w of
           Inl e \<Rightarrow> (Inl e, w)
         | Inr w1 \<Rightarrow>
             (case lookup u_id userId (users w1) of
                None \<Rightarrow> (Inl (PrismaError P2025), w1)
              | Some user \<Rightarrow>
                  if profile = RIDER then
                    (case goOffline expirySeconds now userId w1 of
                       (Inl e, w2) \<Rightarrow> (Inl e, w2)
                     | (Inr _, w2) \<Rightarrow>
                         (Inr \<lparr>apr_id = u_id user, apr_activeProfile = u_activeProfile user\<rparr>, w2))
                  else (Inr \<lparr>apr_id = u_id user, apr_activeProfile = u_activeProfile user\<rparr>, w1))))"

subsection \<open>Guards\<close>

record AuthenticatedUser =
  au_userId :: string
  au_role :: Role

definition activeProfile_canActivate ::
  "ActiveProfile option \<Rightarrow> AuthenticatedUser option \<Rightarrow> world \<Rightarrow> error + bool" where
  "activeProfile_canActivate required user w =
     (case required of
        None \<Rightarrow> Inr True
      | Some profile \<Rightarrow>
          (case user of
             None \<Rightarrow> Inl forbidden
           | Some u \<Rightarrow>
               (case lookup u_id (au_userId u) (users w) of
                  None \<Rightarrow>
                    Inl (ForbiddenException
                      (if profile = DRIVER then ''Switch to driver mode to perform this action''
                       else ''Switch to rider mode to perform this action''))
                | Some record \<Rightarrow>
                    if u_activeProfile record \<noteq> profile then
                      Inl (ForbiddenException
                        (if profile = DRIVER then ''Switch to driver mode to perform this action''
                         else ''Switch to rider mode to perform this action''))
                    else if profile = DRIVER \<and>
                            lookup dp_userId (au_userId u) (driverProfiles w) = None
                    then Inl (ForbiddenException ''Complete driver verification first'')
                    else Inr True)))"

definition roles_canActivate :: "Role list option \<Rightarrow> AuthenticatedUser option \<Rightarrow> bool" where
  "roles_canActivate requiredRoles user =
     (case requiredRoles of
        None \<Rightarrow> True
      | Some rs \<Rightarrow>
          if rs = [] then True
          else (case user of None \<Rightarrow> False | Some u \<Rightarrow> au_role u \<in> set rs))"

lemmas user_ops [op_defs] = setActiveProfile_def activeProfile_canActivate_def

lemma activeProfile_canActivate_Inr:
  "activeProfile_canActivate (Some profile) (Some user) w = Inr b \<longleftrightarrow>
     b \<and> (\<exists>u. lookup u_id (au_userId user) (users w) = Some u \<and> u_activeProfile u = profile) \<and>
     (profile = DRIVER \<longrightarrow> lookup dp_userId (au_userId user) (driverProfiles w) \<noteq> None)"
  by (auto simp: activeProfile_canActivate_def split: option.splits)

subsection \<open>Only drivers in driver mode are in the matching pool\<close>

definition online_ok :: "world \<Rightarrow> bool" where
  "online_ok w \<longleftrightarrow>
     (\<forall>p \<in> set (driverProfiles w). dp_isOnline p \<longrightarrow>
        map_option u_activeProfile (lookup u_id (dp_userId p) (users w)) = Some DRIVER)"

lemma online_ok_frame:
  "online_ok w \<Longrightarrow> users w' = users w \<Longrightarrow> driverProfiles w' = driverProfiles w \<Longrightarrow> online_ok w'"
  by (simp add: online_ok_def)

text \<open>What each driver operation can do: rewrite the profile of one user, and log.\<close>

definition frame_profiles :: "world \<Rightarrow> world \<Rightarrow> bool" where
  "frame_profiles w w' \<longleftrightarrow>
     users w' = users w \<and> refreshTokens w' = refreshTokens w \<and>
     passwordResetTokens w' = passwordResetTokens w \<and>
     driverApplications w' = driverApplications w \<and> driverDocuments w' = driverDocuments w \<and>
     rideRequests w' = rideRequests w \<and> rideOffers w' = rideOffers w \<and> trips w' = trips w \<and>
     ratings w' = ratings w \<and> disk w' = disk w \<and> outbox w' = outbox w"

definition profile_changed :: "string \<Rightarrow> (DriverProfile \<Rightarrow> DriverProfile) \<Rightarrow> world \<Rightarrow> world \<Rightarrow> bool" where
  "profile_changed u f w w' \<longleftrightarrow>
     frame_profiles w w' \<and>
     (driverProfiles w' = driverProfiles w \<or>
      driverProfiles w' = update_where (\<lambda>p. dp_userId p = u) f (driverProfiles w))"

lemma profile_changed_refl: "profile_changed u f w w"
  by (simp add: profile_changed_def frame_profiles_def)

lemma profile_changed_logs [simp]:
  "profile_changed u f w (emit e w') = profile_changed u f w w'"
  "profile_changed u f w (scheduleDriverOfferExpiry secs i w') = profile_changed u f w w'"
  "profile_changed u f w (w'\<lparr>redis := m\<rparr>) = profile_changed u f w w'"
  by (simp_all add: profile_changed_def frame_profiles_def emit_def scheduleDriverOfferExpiry_def
      enqueue_def)

lemma findIdentity_world:
  "findIdentityByUserId now u w = (r, w') \<Longrightarrow> \<exists>m. w' = w\<lparr>redis := m\<rparr>"
  by (auto simp: findIdentityByUserId_def getOrSet_def cache_set_def split: option.splits
      intro: exI [of _ "redis w"])

lemma update_profile_changed:
  assumes "findIdentityByUserId now u w = (r, w1)" "update_profile u f w1 = (r', w2)"
    and "\<And>p. same_profile p (f p)"
  shows "profile_changed u f w w2"
  using findIdentity_world [OF assms(1)] update_profile_world [OF assms(2,3)]
  by (auto simp: profile_changed_def frame_profiles_def)

lemma findIdentity_changed:
  "findIdentityByUserId now u w = (r, w1) \<Longrightarrow> profile_changed u f w w1"
  by (auto simp: profile_changed_refl dest!: findIdentity_world)

lemma same_profile_updates [simp]:
  "same_profile p (p\<lparr>dp_isOnline := b\<rparr>)"
  "same_profile p (p\<lparr>dp_currentLat := x, dp_currentLng := y, dp_locationUpdatedAt := z\<rparr>)"
  by (simp_all add: same_profile_def)

lemma setOnlineStatus_changed:
  "profile_changed u (\<lambda>p. p\<lparr>dp_isOnline := b\<rparr>) w (snd (setOnlineStatus now u b w))"
  by (auto simp: setOnlineStatus_def split: prod.splits sum.splits option.splits
      intro: findIdentity_changed update_profile_changed)

lemma updateLocation_changed:
  "profile_changed u (\<lambda>p. p\<lparr>dp_currentLat := Some lat, dp_currentLng := Some lng,
     dp_locationUpdatedAt := Some now\<rparr>) w (snd (updateLocation now u lat lng w))"
  by (auto simp: updateLocation_def split: prod.splits sum.splits option.splits
      intro: findIdentity_changed update_profile_changed)

lemma goOffline_changed:
  "profile_changed u (\<lambda>p. p\<lparr>dp_isOnline := False\<rparr>) w (snd (goOffline secs now u w))"
  by (auto simp: goOffline_def split: prod.splits sum.splits option.splits
      intro: findIdentity_changed update_profile_changed)

lemma profile_changed_identity_cache:
  assumes "identity_cache_ok w" "profile_changed u f w w'" "\<And>p. same_profile p (f p)"
    and "redis w' = redis w"
  shows "identity_cache_ok w'"
proof (rule identity_cache_ok_frame [OF assms(1,4)])
  fix v p assume "lookup dp_userId v (driverProfiles w) = Some p"
  then show "\<exists>p'. lookup dp_userId v (driverProfiles w') = Some p' \<and> identity_of p' = identity_of p"
    using assms(2,3)
    by (auto simp: profile_changed_def same_profile_def identity_of_def lookup_update_where)
qed

text \<open>The cache stays coherent under every driver operation.\<close>

lemma identity_cache_logs [simp]:
  "identity_cache_ok (emit e w) = identity_cache_ok w"
  "identity_cache_ok (scheduleDriverOfferExpiry secs i w) = identity_cache_ok w"
  "identity_cache_ok (enqueue c w) = identity_cache_ok w"
  by (simp_all add: identity_cache_ok_def emit_def scheduleDriverOfferExpiry_def enqueue_def)

lemma identity_cache_find:
  "findIdentityByUserId now u w = (r, w') \<Longrightarrow> identity_cache_ok w \<Longrightarrow> identity_cache_ok w'"
  using findIdentityByUserId_fresh [of w now u] by auto

lemma identity_cache_update_profile:
  assumes "update_profile u f w = (r, w')" "identity_cache_ok w" "\<And>p. same_profile p (f p)"
  shows "identity_cache_ok w'"
proof -
  have "identity_of (f p) = identity_of p" for p
    using assms(3) [of p] by (simp add: same_profile_def identity_of_def)
  with update_profile_world [OF assms(1,3)] assms(2) show ?thesis
    by (auto simp: identity_cache_ok_update)
qed

lemma identity_cache_driver_ops:
  assumes "identity_cache_ok w"
  shows "identity_cache_ok (snd (setOnlineStatus now u b w))"
    and "identity_cache_ok (snd (updateLocation now u lat lng w))"
    and "identity_cache_ok (snd (goOffline secs now u w))"
  using assms
  by (auto simp: setOnlineStatus_def updateLocation_def goOffline_def
      split: prod.splits sum.splits option.splits
      intro: identity_cache_find identity_cache_update_profile)

lemma user_update_world:
  "user_update i f w = Inr w' \<Longrightarrow> w' = w\<lparr>users := users w'\<rparr>"
  by (auto dest!: user_update_Inr)

lemma identity_cache_users [simp]: "identity_cache_ok (w\<lparr>users := us\<rparr>) = identity_cache_ok w"
  by (simp add: identity_cache_ok_def)

lemma identity_cache_setActiveProfile:
  assumes "identity_cache_ok w"
  shows "identity_cache_ok (snd (setActiveProfile secs now u pr w))"
proof -
  have "identity_cache_ok (snd (goOffline secs now u (w\<lparr>users := us\<rparr>)))" for us
    by (rule identity_cache_driver_ops(3)) (simp add: assms)
  with assms show ?thesis
    by (auto simp: setActiveProfile_def split: prod.splits sum.splits option.splits
        dest!: user_update_Inr) (metis snd_conv)+
qed

lemma profile_keys_changed:
  assumes "profile_changed u f w w'" "\<And>p. same_profile p (f p)"
  shows "profile_keys_ok w' = profile_keys_ok w"
  using assms by (auto simp: profile_changed_def profile_keys_ok_def same_profile_def
      unique_on_update_where)

text \<open>
  Going offline takes effect whatever the cache says, as long as the user has a profile at all: a
  cached identity only decides whether to look, and the absence of one is never cached.
\<close>

lemma goOffline_offline:
  assumes "profile_keys_ok w" and p: "p \<in> set (driverProfiles (snd (goOffline secs now u w)))"
    "dp_userId p = u"
  shows "\<not> dp_isOnline p"
proof -
  obtain r w1 where 1: "findIdentityByUserId now u w = (r, w1)" by fastforce
  obtain m where w1: "w1 = w\<lparr>redis := m\<rparr>" using findIdentity_world [OF 1] by blast
  show ?thesis
  proof (cases "lookup dp_userId u (driverProfiles w)")
    case None
    then have "u \<notin> dp_userId ` set (driverProfiles w)" by (simp add: lookup_None_image)
    moreover have "dp_userId ` set (driverProfiles (snd (goOffline secs now u w)))
        = dp_userId ` set (driverProfiles w)"
      using goOffline_changed [of u w secs now] unfolding profile_changed_def
      by (elim conjE disjE) (simp_all add: image_update_where)
    ultimately show ?thesis using p by blast
  next
    case (Some q)
    then obtain d where r: "r = Inr (Some d)"
      using 1 by (auto simp: findIdentityByUserId_def getOrSet_def split: option.splits)
    have upd: "update_profile u (\<lambda>p. p\<lparr>dp_isOnline := False\<rparr>) w1
      = (Inr (q\<lparr>dp_isOnline := False\<rparr>), w1\<lparr>driverProfiles :=
          update_where (\<lambda>p. dp_userId p = u) (\<lambda>p. p\<lparr>dp_isOnline := False\<rparr>) (driverProfiles w1)\<rparr>)"
      using assms(1) Some by (intro update_profile_ok) (simp_all add: w1 profile_keys_ok_def)
    have eq: "driverProfiles (snd (goOffline secs now u w))
      = update_where (\<lambda>p. dp_userId p = u) (\<lambda>p. p\<lparr>dp_isOnline := False\<rparr>) (driverProfiles w)"
      by (simp add: goOffline_def 1 r upd scheduleDriverOfferExpiry_def enqueue_def emit_def)
        (simp add: w1)
    from p(1) have "p \<in> set (update_where (\<lambda>p. dp_userId p = u) (\<lambda>p. p\<lparr>dp_isOnline := False\<rparr>)
        (driverProfiles w))" unfolding eq .
    then show ?thesis using p(2) by (elim in_update_whereE) auto
  qed
qed

lemma online_ok_goOffline:
  assumes "profile_keys_ok w"
    and "\<And>p. p \<in> set (driverProfiles w) \<Longrightarrow> dp_isOnline p \<Longrightarrow> dp_userId p \<noteq> u \<Longrightarrow>
      map_option u_activeProfile (lookup u_id (dp_userId p) (users w)) = Some DRIVER"
  shows "online_ok (snd (goOffline secs now u w))"
  unfolding online_ok_def
proof (intro ballI impI)
  fix p assume p: "p \<in> set (driverProfiles (snd (goOffline secs now u w)))" "dp_isOnline p"
  with goOffline_offline [OF assms(1) p(1)] have u: "dp_userId p \<noteq> u" by blast
  have "p \<in> set (driverProfiles w)"
    using goOffline_changed [of u w secs now] p u
    by (auto simp: profile_changed_def elim!: in_update_whereE)
  moreover have "users (snd (goOffline secs now u w)) = users w"
    using goOffline_changed [of u w secs now] by (auto simp: profile_changed_def frame_profiles_def)
  ultimately show "map_option u_activeProfile
      (lookup u_id (dp_userId p) (users (snd (goOffline secs now u w)))) = Some DRIVER"
    using assms(2) p u by simp
qed

lemma online_ok_setOnlineStatus:
  assumes "online_ok w" and "map_option u_activeProfile (lookup u_id u (users w)) = Some DRIVER"
  shows "online_ok (snd (setOnlineStatus now u b w))"
  using assms setOnlineStatus_changed [of u b w now]
  by (auto simp: online_ok_def profile_changed_def frame_profiles_def elim!: in_update_whereE)

lemma online_ok_updateLocation:
  assumes "online_ok w"
  shows "online_ok (snd (updateLocation now u lat lng w))"
  using assms updateLocation_changed [where u = u and lat = lat and lng = lng and now = now and w = w]
  by (auto simp: online_ok_def profile_changed_def frame_profiles_def elim!: in_update_whereE)

lemma online_ok_setActiveProfile:
  assumes keys: "profile_keys_ok w" and ok: "online_ok w"
  shows "online_ok (snd (setActiveProfile secs now u pr w))"
proof -
  have mode: "map_option u_activeProfile (lookup u_id i (update_where (\<lambda>x. u_id x = u)
      (\<lambda>x. x\<lparr>u_activeProfile := pr\<rparr>) (users w)))
    = (if i = u then map_option (\<lambda>_. pr) (lookup u_id i (users w))
       else map_option u_activeProfile (lookup u_id i (users w)))" for i
    by (cases "lookup u_id i (users w)") (auto simp: lookup_update_where dest: lookup_SomeD)
  let ?w = "w\<lparr>users := update_where (\<lambda>x. u_id x = u) (\<lambda>x. x\<lparr>u_activeProfile := pr\<rparr>) (users w)\<rparr>"
  have "online_ok (snd (goOffline secs now u ?w))"
  proof (rule online_ok_goOffline)
    show "profile_keys_ok ?w" using keys by (simp add: profile_keys_ok_def)
    fix p assume "p \<in> set (driverProfiles ?w)" "dp_isOnline p" "dp_userId p \<noteq> u"
    with ok show "map_option u_activeProfile (lookup u_id (dp_userId p) (users ?w)) = Some DRIVER"
      by (simp add: online_ok_def mode)
  qed
  moreover have "online_ok ?w" if "pr = DRIVER"
    unfolding online_ok_def
  proof (intro ballI impI)
    fix p assume "p \<in> set (driverProfiles ?w)" "dp_isOnline p"
    with ok have "map_option u_activeProfile (lookup u_id (dp_userId p) (users w)) = Some DRIVER"
      by (simp add: online_ok_def)
    then show "map_option u_activeProfile (lookup u_id (dp_userId p) (users ?w)) = Some DRIVER"
      using that mode [of "dp_userId p"] by (auto split: if_splits)
  qed
  moreover have "pr = DRIVER \<or> pr = RIDER" by (cases pr) simp_all
  ultimately show ?thesis using ok
    by (auto simp: setActiveProfile_def lookup_update_where split: prod.splits sum.splits option.splits
        dest!: user_update_Inr)
qed

end
