(* ===== verification/RateLimiter.thy ===== *)
theory RateLimiter
  imports Prelude
begin

section \<open>RateLimiter: the sliding window of the WebSocket handlers\<close>

text \<open>
  Models \<open>realtime/ws-rate-limiter.ts\<close>: per key, the instants (in milliseconds) of the calls
  allowed within the window. Each limiter is a map of its own; \<open>limit\<close> and \<open>windowMs\<close> are its
  constructor's arguments.
\<close>

type_synonym hits = "string \<rightharpoonup> int list"

definition window_of :: "int \<Rightarrow> int \<Rightarrow> hits \<Rightarrow> string \<Rightarrow> int list" where
  "window_of windowMs now h key =
     filter (\<lambda>t. t > now - windowMs) (case h key of None \<Rightarrow> [] | Some ts \<Rightarrow> ts)"

definition consume :: "nat \<Rightarrow> int \<Rightarrow> int \<Rightarrow> string \<Rightarrow> hits \<Rightarrow> bool \<times> hits" where
  "consume limit windowMs now key h =
     (let timestamps = window_of windowMs now h key
      in if length timestamps \<ge> limit then (False, h(key \<mapsto> timestamps))
         else (True, h(key \<mapsto> timestamps @ [now])))"

definition clear :: "string \<Rightarrow> hits \<Rightarrow> hits" where
  "clear key h = h(key := None)"

subsection \<open>The bound\<close>

text \<open>The calls of one key at the given instants, and the instants of those allowed.\<close>

fun consume_all :: "nat \<Rightarrow> int \<Rightarrow> string \<Rightarrow> int list \<Rightarrow> hits \<Rightarrow> int list \<times> hits" where
  "consume_all limit windowMs key [] h = ([], h)"
| "consume_all limit windowMs key (now # nows) h =
     (case consume limit windowMs now key h of
        (ok, h') \<Rightarrow>
          (case consume_all limit windowMs key nows h' of
             (allowed, h'') \<Rightarrow> (if ok then now # allowed else allowed, h'')))"

definition in_window :: "int \<Rightarrow> int \<Rightarrow> int \<Rightarrow> bool" where
  "in_window windowMs t s \<longleftrightarrow> t - windowMs < s \<and> s \<le> t"

lemma consume_other: "k \<noteq> key \<Longrightarrow> snd (consume limit windowMs now key h) k = h k"
  by (simp add: consume_def Let_def)

lemma consume_allowed:
  "fst (consume limit windowMs now key h) \<longleftrightarrow> length (window_of windowMs now h key) < limit"
  by (simp add: consume_def Let_def)

text \<open>
  What one call keeps: \<open>past\<close> are the instants allowed before it, in order. Everything the map
  forgot is out of every later window.
\<close>

definition limiter_inv :: "nat \<Rightarrow> int \<Rightarrow> string \<Rightarrow> int \<Rightarrow> int list \<Rightarrow> hits \<Rightarrow> bool" where
  "limiter_inv limit windowMs key now past h \<longleftrightarrow>
     (\<forall>s \<in> set past. s \<le> now) \<and>
     (\<forall>later \<ge> now. filter (\<lambda>s. s > later - windowMs) past = window_of windowMs later h key) \<and>
     (\<forall>t. length (filter (in_window windowMs t) past) \<le> limit)"

lemma limiter_inv_empty: "h key = None \<Longrightarrow> limiter_inv limit windowMs key now [] h"
  by (simp add: limiter_inv_def window_of_def)

lemma filter_length_mono: "(\<And>x. x \<in> set xs \<Longrightarrow> P x \<Longrightarrow> Q x) \<Longrightarrow> length (filter P xs) \<le> length (filter Q xs)"
  by (induction xs) auto

lemma limiter_inv_consume:
  assumes inv: "limiter_inv limit windowMs key prev past h" and mono: "prev \<le> now" and pos: "0 < windowMs"
    and call: "consume limit windowMs now key h = (ok, h')"
  shows "limiter_inv limit windowMs key now (if ok then past @ [now] else past) h'"
proof -
  have past: "\<forall>s \<in> set past. s \<le> now" using inv mono by (auto simp: limiter_inv_def)
  have win: "window_of windowMs now h key = filter (\<lambda>s. s > now - windowMs) past"
    using inv mono by (simp add: limiter_inv_def)
  have shrink: "filter (\<lambda>s. s > later - windowMs) (filter (\<lambda>s. s > now - windowMs) past)
      = filter (\<lambda>s. s > later - windowMs) past" if "now \<le> later" for later
    using that by (auto intro!: filter_cong)
  show ?thesis
  proof (cases ok)
    case False
    with call have h': "h' = h(key \<mapsto> filter (\<lambda>s. s > now - windowMs) past)"
      by (auto simp: consume_def Let_def win split: if_splits)
    have "\<forall>later \<ge> now. filter (\<lambda>s. s > later - windowMs) past = window_of windowMs later h' key"
    proof (intro allI impI)
      fix later assume "now \<le> later"
      from shrink [OF this] show "filter (\<lambda>s. s > later - windowMs) past = window_of windowMs later h' key"
        by (simp add: h' window_of_def)
    qed
    with inv past False show ?thesis by (simp add: limiter_inv_def)
  next
    case True
    with call have h': "h' = h(key \<mapsto> filter (\<lambda>s. s > now - windowMs) past @ [now])"
      and room: "length (filter (\<lambda>s. s > now - windowMs) past) < limit"
      by (auto simp: consume_def Let_def win split: if_splits)
    have "filter (\<lambda>s. s > later - windowMs) (past @ [now]) = window_of windowMs later h' key"
      if "now \<le> later" for later
      using shrink [OF that] by (simp add: h' window_of_def)
    moreover have "length (filter (in_window windowMs t) (past @ [now])) \<le> limit" for t
    proof (cases "in_window windowMs t now")
      case True
      then have "length (filter (in_window windowMs t) past) \<le> length (filter (\<lambda>s. s > now - windowMs) past)"
        by (intro filter_length_mono) (auto simp: in_window_def)
      with room True show ?thesis by simp
    next
      case False
      with inv show ?thesis by (simp add: limiter_inv_def)
    qed
    ultimately show ?thesis using True past by (simp add: limiter_inv_def)
  qed
qed

lemma consume_all_inv:
  assumes "limiter_inv limit windowMs key prev past h" "sorted (prev # nows)" "0 < windowMs"
    and "consume_all limit windowMs key nows h = (allowed, h')"
  shows "length (filter (in_window windowMs t) (past @ allowed)) \<le> limit"
  using assms
proof (induction nows arbitrary: prev past h allowed h')
  case Nil
  then show ?case by (simp add: limiter_inv_def)
next
  case (Cons now nows)
  obtain ok h1 where call: "consume limit windowMs now key h = (ok, h1)" by fastforce
  obtain allowed1 where rest: "consume_all limit windowMs key nows h1 = (allowed1, h')"
    and allowed: "allowed = (if ok then now # allowed1 else allowed1)"
    using Cons.prems(4) call by (auto split: prod.splits)
  have "limiter_inv limit windowMs key now (if ok then past @ [now] else past) h1"
    by (rule limiter_inv_consume [OF Cons.prems(1) _ Cons.prems(3) call]) (use Cons.prems(2) in simp)
  moreover have "sorted (now # nows)" using Cons.prems(2) by simp
  ultimately have "length (filter (in_window windowMs t) ((if ok then past @ [now] else past) @ allowed1)) \<le> limit"
    using Cons.IH Cons.prems(3) rest by blast
  then show ?case by (simp add: allowed split: if_splits)
qed

end
