(* ===== verification/Geo.thy ===== *)
theory Geo
  imports Complex_Main
begin

section \<open>Geo: the great-circle distance of the live map\<close>

text \<open>
  Models \<open>common/geo/haversine.ts\<close> over the reals, \<open>Math.atan2\<close> included; doubles and their
  rounding are not modelled.
\<close>

definition EARTH_RADIUS_METERS :: real where
  "EARTH_RADIUS_METERS = 6371000"

definition toRadians :: "real \<Rightarrow> real" where
  "toRadians degrees = (degrees * pi) / 180"

definition atan2 :: "real \<Rightarrow> real \<Rightarrow> real" where
  "atan2 y x =
     (if x > 0 then arctan (y / x)
      else if x < 0 then (if y \<ge> 0 then arctan (y / x) + pi else arctan (y / x) - pi)
      else if y > 0 then pi / 2 else if y < 0 then - pi / 2 else 0)"

definition haversine_a :: "real \<Rightarrow> real \<Rightarrow> real \<Rightarrow> real \<Rightarrow> real" where
  "haversine_a lat1 lng1 lat2 lng2 =
     (let dLat = toRadians (lat2 - lat1); dLng = toRadians (lng2 - lng1)
      in sin (dLat / 2) ^ 2 + cos (toRadians lat1) * cos (toRadians lat2) * sin (dLng / 2) ^ 2)"

definition haversineMeters :: "real \<Rightarrow> real \<Rightarrow> real \<Rightarrow> real \<Rightarrow> real" where
  "haversineMeters lat1 lng1 lat2 lng2 =
     (let a = haversine_a lat1 lng1 lat2 lng2
      in EARTH_RADIUS_METERS * 2 * atan2 (sqrt a) (sqrt (1 - a)))"

subsection \<open>The square roots are of numbers between 0 and 1\<close>

lemma cos_product:
  fixes x z :: real
  shows "cos (z - x) * cos (z + x) = cos x ^ 2 - sin z ^ 2"
proof -
  have "cos (z - x) * cos (z + x) = (cos z * cos x) ^ 2 - (sin z * sin x) ^ 2"
    by (simp add: cos_add cos_diff algebra_simps power2_eq_square)
  also have "... = cos x ^ 2 * (1 - sin z ^ 2) - sin z ^ 2 * (1 - cos x ^ 2)"
    by (simp add: cos_squared_eq power_mult_distrib algebra_simps)
  also have "... = cos x ^ 2 - sin z ^ 2" by (simp add: algebra_simps)
  finally show ?thesis .
qed

lemma haversine_a_forms:
  fixes lat1 lng1 lat2 lng2 :: real
  defines "x \<equiv> toRadians (lat2 - lat1) / 2" and "z \<equiv> (toRadians lat1 + toRadians lat2) / 2"
    and "y \<equiv> toRadians (lng2 - lng1) / 2"
  shows "haversine_a lat1 lng1 lat2 lng2 = sin x ^ 2 * cos y ^ 2 + cos z ^ 2 * sin y ^ 2"
    and "1 - haversine_a lat1 lng1 lat2 lng2 = cos x ^ 2 * cos y ^ 2 + sin z ^ 2 * sin y ^ 2"
proof -
  have "toRadians lat1 = z - x" "toRadians lat2 = z + x"
    by (simp_all add: x_def z_def toRadians_def field_simps)
  then have a: "haversine_a lat1 lng1 lat2 lng2 = sin x ^ 2 + (cos x ^ 2 - sin z ^ 2) * sin y ^ 2"
    unfolding haversine_a_def Let_def using cos_product [of z x] by (simp add: x_def y_def)
  have sq: "cos t ^ 2 = 1 - sin t ^ 2" for t :: real by (rule cos_squared_eq)
  show "haversine_a lat1 lng1 lat2 lng2 = sin x ^ 2 * cos y ^ 2 + cos z ^ 2 * sin y ^ 2"
    unfolding a by (simp add: sq algebra_simps)
  show "1 - haversine_a lat1 lng1 lat2 lng2 = cos x ^ 2 * cos y ^ 2 + sin z ^ 2 * sin y ^ 2"
    unfolding a by (simp add: sq algebra_simps)
qed

lemma haversine_a_bounds: "0 \<le> haversine_a lat1 lng1 lat2 lng2" "haversine_a lat1 lng1 lat2 lng2 \<le> 1"
proof -
  show "0 \<le> haversine_a lat1 lng1 lat2 lng2"
    unfolding haversine_a_forms(1) by (intro add_nonneg_nonneg mult_nonneg_nonneg) simp_all
  have "0 \<le> 1 - haversine_a lat1 lng1 lat2 lng2"
    unfolding haversine_a_forms(2) by (intro add_nonneg_nonneg mult_nonneg_nonneg) simp_all
  then show "haversine_a lat1 lng1 lat2 lng2 \<le> 1" by simp
qed

lemma atan2_bounds: "0 \<le> y \<Longrightarrow> 0 \<le> x \<Longrightarrow> 0 \<le> atan2 y x \<and> atan2 y x \<le> pi / 2"
  using arctan_ubound [of "y / x"] by (auto simp: atan2_def less_eq_real_def)

lemma haversine_a_sym: "haversine_a lat2 lng2 lat1 lng1 = haversine_a lat1 lng1 lat2 lng2"
proof -
  have "toRadians (lat1 - lat2) / 2 = - (toRadians (lat2 - lat1) / 2)"
    "toRadians (lng1 - lng2) / 2 = - (toRadians (lng2 - lng1) / 2)"
    by (simp_all add: toRadians_def field_simps)
  then show ?thesis by (simp add: haversine_a_def Let_def)
qed

end
