(* ===== verification/Realtime.thy ===== *)
theory Realtime
  imports Users RideRequests Trips RateLimiter Geo "HOL-Library.AList"
begin

section \<open>Realtime: the WebSocket gateway\<close>

text \<open>
  Models \<open>realtime/realtime.gateway.ts\<close> with \<open>realtime/dto/ws-payloads.ts\<close>: the connections, the
  handlers of client messages with their rate limiters, the handlers of the domain events, and the
  two in-memory maps. The state is the record \<open>gateway\<close>; what it sends is logged in \<open>gw_sent\<close>. A
  JavaScript \<open>Map\<close> that is iterated is an association list in insertion order. Event handlers run
  when the service emits, so a handler that calls a service delivers the events the service added
  to the log (\<open>deliver\<close>) before it goes on.
\<close>

datatype recipient = ToUser string | ToSocket string

datatype server_message =
    WsError string
  | DriverLocationRelay string real real \<comment> \<open>\<open>driver:location:update\<close>\<close>
  | DriverLocationPin string real real \<comment> \<open>\<open>driver:location\<close>\<close>
  | DriverOfflinePin string \<comment> \<open>\<open>driver:offline\<close>\<close>
  | RideRequestNew string real real real real rat \<comment> \<open>\<open>ride:request:new\<close>\<close>
  | RideOfferNew RideOffer \<comment> \<open>\<open>ride:offer:new\<close>\<close>
  | RideMatched RideRequest Trip \<comment> \<open>\<open>ride:matched\<close>\<close>
  | RideOfferExpired string string \<comment> \<open>\<open>ride:offer:expired\<close>\<close>
  | TripStartedMessage Trip \<comment> \<open>\<open>trip:started\<close>\<close>
  | TripCompletedMessage Trip \<comment> \<open>\<open>trip:completed\<close>\<close>
  | RideRequestCancelledMessage string \<comment> \<open>\<open>ride:request:cancelled\<close>\<close>

record TrackSubscription =
  ts_lat :: real
  ts_lng :: real
  ts_radiusMeters :: real

record gateway =
  gw_sockets :: "(string \<times> string) list" \<comment> \<open>connected sockets, with the user whose room they joined\<close>
  gw_activeTripRiderByDriver :: "string \<rightharpoonup> string"
  gw_riderTrackSubscriptions :: "(string \<times> TrackSubscription) list"
  gw_offerSubmit :: hits
  gw_offerAccept :: hits
  gw_locationUpdate :: hits
  gw_trackSubscribe :: hits
  gw_sent :: "(recipient \<times> server_message) list"

text \<open>What the handlers take from their environment.\<close>

record ws_env =
  env_verify :: "string \<Rightarrow> string option" \<comment> \<open>\<open>verifyAsync\<close>: the \<open>sub\<close> of a valid token\<close>
  env_isUUID :: "string \<Rightarrow> bool"
  env_message :: "error \<Rightarrow> string" \<comment> \<open>the message of an error that is not an HTTP exception\<close>
  env_expirySeconds :: real
  env_matchRadiusKm :: real

definition send_to :: "recipient \<Rightarrow> server_message \<Rightarrow> gateway \<Rightarrow> gateway" where
  "send_to r m g = g\<lparr>gw_sent := gw_sent g @ [(r, m)]\<rparr>"

definition send_all :: "string list \<Rightarrow> server_message \<Rightarrow> gateway \<Rightarrow> gateway" where
  "send_all us m g = g\<lparr>gw_sent := gw_sent g @ map (\<lambda>u. (ToUser u, m)) us\<rparr>"

fun error_message :: "ws_env \<Rightarrow> error \<Rightarrow> string" where
  "error_message env (NotFoundException s) = s"
| "error_message env (ForbiddenException s) = s"
| "error_message env (BadRequestException s) = s"
| "error_message env (ConflictException s) = s"
| "error_message env (UnauthorizedException s) = s"
| "error_message env (InternalServerErrorException s) = s"
| "error_message env (ServiceUnavailableException s) = s"
| "error_message env e = env_message env e"

subsection \<open>Domain events\<close>

definition subscribers_near :: "real \<Rightarrow> real \<Rightarrow> gateway \<Rightarrow> string list" where
  "subscribers_near lat lng g =
     map fst (filter (\<lambda>(rider, sub). haversineMeters (ts_lat sub) (ts_lng sub) lat lng \<le> ts_radiusMeters sub)
                (gw_riderTrackSubscriptions g))"

fun handle_event :: "DomainEvent \<Rightarrow> gateway \<Rightarrow> gateway" where
  "handle_event (DriverLocationUpdated driverUserId lat lng) g =
     send_all (subscribers_near lat lng g) (DriverLocationPin driverUserId lat lng) g"
| "handle_event (DriverOnlineStatusChanged driverUserId isOnline lat lng) g =
     (case (isOnline, lat, lng) of
        (False, Some y, Some x) \<Rightarrow> send_all (subscribers_near y x g) (DriverOfflinePin driverUserId) g
      | _ \<Rightarrow> g)"
| "handle_event (RideRequestCreated r nearbyDriverUserIds) g =
     send_all nearbyDriverUserIds
       (RideRequestNew (rr_id r) (rr_pickupLat r) (rr_pickupLng r) (rr_dropoffLat r) (rr_dropoffLng r)
          (rr_suggestedFare r)) g"
| "handle_event (OfferSubmitted f riderId) g = send_to (ToUser riderId) (RideOfferNew f) g"
| "handle_event (OfferAccepted r t f rejectedDriverUserIds) g =
     send_all [t_riderId t, t_driverId t] (RideMatched r t)
       (g\<lparr>gw_activeTripRiderByDriver := (gw_activeTripRiderByDriver g)(t_driverId t \<mapsto> t_riderId t)\<rparr>)"
| "handle_event (OfferExpired rideRequestId offerId driverUserId) g =
     send_to (ToUser driverUserId) (RideOfferExpired rideRequestId offerId) g"
| "handle_event (TripStarted t) g =
     send_all [t_riderId t, t_driverId t] (TripStartedMessage t) g"
| "handle_event (TripCompleted t) g =
     send_all [t_riderId t, t_driverId t] (TripCompletedMessage t)
       (g\<lparr>gw_activeTripRiderByDriver := (gw_activeTripRiderByDriver g)(t_driverId t := None)\<rparr>)"
| "handle_event (RideRequestCancelled r affected) g =
     send_all (rr_riderId r # affected) (RideRequestCancelledMessage (rr_id r)) g"

definition deliver :: "world \<Rightarrow> world \<Rightarrow> gateway \<Rightarrow> gateway" where
  "deliver w w' g = fold handle_event (drop (length (events w)) (events w')) g"

subsection \<open>Connections\<close>

fun replace_first :: "string \<Rightarrow> string \<Rightarrow> string" where
  "replace_first p [] = []"
| "replace_first p (c # cs) =
     (if take (length p) (c # cs) = p then drop (length p) (c # cs) else c # replace_first p cs)"

definition extractToken :: "string option \<Rightarrow> string option \<Rightarrow> string option" where
  "extractToken auth_token authorization =
     (let token = (case auth_token of
                     Some t \<Rightarrow> Some t
                   | None \<Rightarrow> map_option (replace_first ''Bearer '') authorization)
      in case token of None \<Rightarrow> None | Some t \<Rightarrow> if t = [] then None else Some t)"

definition handleConnection ::
  "ws_env \<Rightarrow> string \<Rightarrow> string option \<Rightarrow> string option \<Rightarrow> gateway \<Rightarrow> gateway" where
  "handleConnection env socket auth_token authorization g =
     (case Option.bind (extractToken auth_token authorization) (env_verify env) of
        Some userId \<Rightarrow> g\<lparr>gw_sockets := gw_sockets g @ [(socket, userId)]\<rparr>
      | None \<Rightarrow> send_to (ToSocket socket) (WsError ''Unauthorized'') g)"

text \<open>
  The socket has left its rooms when the handler runs. A failure of \<open>goOffline\<close> is logged; the
  effects it had stay.
\<close>

definition handleDisconnect ::
  "ws_env \<Rightarrow> int \<Rightarrow> string \<Rightarrow> world \<times> gateway \<Rightarrow> world \<times> gateway" where
  "handleDisconnect env now socket wg =
     (let (w, g) = wg;
          g1 = g\<lparr>gw_sockets := filter (\<lambda>(s, u). s \<noteq> socket) (gw_sockets g)\<rparr>
      in case map_of (gw_sockets g) socket of
           None \<Rightarrow> (w, g1)
         | Some userId \<Rightarrow>
             let g2 = g1\<lparr>gw_offerSubmit := clear userId (gw_offerSubmit g1),
                         gw_offerAccept := clear userId (gw_offerAccept g1),
                         gw_locationUpdate := clear userId (gw_locationUpdate g1),
                         gw_trackSubscribe := clear userId (gw_trackSubscribe g1),
                         gw_riderTrackSubscriptions :=
                           AList.delete userId (gw_riderTrackSubscriptions g1)\<rparr>;
                 stillConnectedElsewhere = (userId \<in> snd ` set (gw_sockets g2))
             in if stillConnectedElsewhere then (w, g2)
                else (case goOffline (env_expirySeconds env) now userId w of
                        (_, w') \<Rightarrow> (w', deliver w w' g2)))"

subsection \<open>Client messages\<close>

record SubmitOfferPayload =
  sop_rideRequestId :: string
  sop_offeredFare :: rat

record LocationUpdatePayload =
  lup_lat :: real
  lup_lng :: real

record TrackNearbyPayload =
  tnp_lat :: real
  tnp_lng :: real
  tnp_radiusKm :: "real option"

definition isLatitude :: "real \<Rightarrow> bool" where
  "isLatitude x \<longleftrightarrow> -90 \<le> x \<and> x \<le> 90"

definition isLongitude :: "real \<Rightarrow> bool" where
  "isLongitude x \<longleftrightarrow> -180 \<le> x \<and> x \<le> 180"

definition valid_SubmitOfferPayload :: "ws_env \<Rightarrow> SubmitOfferPayload \<Rightarrow> bool" where
  "valid_SubmitOfferPayload env p \<longleftrightarrow> env_isUUID env (sop_rideRequestId p) \<and> 0 < sop_offeredFare p"

definition valid_AcceptOfferPayload :: "ws_env \<Rightarrow> string \<Rightarrow> bool" where
  "valid_AcceptOfferPayload env offerId \<longleftrightarrow> env_isUUID env offerId"

definition valid_LocationUpdatePayload :: "LocationUpdatePayload \<Rightarrow> bool" where
  "valid_LocationUpdatePayload p \<longleftrightarrow> isLatitude (lup_lat p) \<and> isLongitude (lup_lng p)"

definition valid_TrackNearbyPayload :: "TrackNearbyPayload \<Rightarrow> bool" where
  "valid_TrackNearbyPayload p \<longleftrightarrow>
     isLatitude (tnp_lat p) \<and> isLongitude (tnp_lng p) \<and>
     (case tnp_radiusKm p of None \<Rightarrow> True | Some r \<Rightarrow> 0.1 \<le> r \<and> r \<le> 50)"

text \<open>A socket's handlers run with its user; a message the pipe rejects does not reach them.\<close>

definition onOfferSubmit ::
  "ws_env \<Rightarrow> string \<Rightarrow> int \<Rightarrow> string \<Rightarrow> string \<Rightarrow> SubmitOfferPayload \<Rightarrow> world \<times> gateway \<Rightarrow>
   RideOffer option \<times> world \<times> gateway" where
  "onOfferSubmit env newId now socket userId body wg =
     (let (w, g) = wg
      in if \<not> valid_SubmitOfferPayload env body then (None, w, g)
         else
           (case consume 5 5000 now userId (gw_offerSubmit g) of
              (False, h) \<Rightarrow>
                (None, w,
                 send_to (ToSocket socket)
                   (WsError (''Too many offers submitted '' @ em_dash @ '' slow down''))
                   (g\<lparr>gw_offerSubmit := h\<rparr>))
            | (True, h) \<Rightarrow>
                let g1 = g\<lparr>gw_offerSubmit := h\<rparr>
                in (case submitOffer (env_expirySeconds env) newId now userId
                           (sop_rideRequestId body) (sop_offeredFare body) w of
                      (Inr f, w') \<Rightarrow> (Some f, w', deliver w w' g1)
                    | (Inl e, w') \<Rightarrow>
                        (None, w',
                         send_to (ToSocket socket) (WsError (error_message env e)) (deliver w w' g1)))))"

definition onOfferAccept ::
  "ws_env \<Rightarrow> string \<Rightarrow> int \<Rightarrow> string \<Rightarrow> string \<Rightarrow> string \<Rightarrow> world \<times> gateway \<Rightarrow>
   Trip option \<times> world \<times> gateway" where
  "onOfferAccept env newId now socket userId offerId wg =
     (let (w, g) = wg
      in if \<not> valid_AcceptOfferPayload env offerId then (None, w, g)
         else
           (case consume 5 5000 now userId (gw_offerAccept g) of
              (False, h) \<Rightarrow>
                (None, w,
                 send_to (ToSocket socket)
                   (WsError (''Too many requests '' @ em_dash @ '' slow down''))
                   (g\<lparr>gw_offerAccept := h\<rparr>))
            | (True, h) \<Rightarrow>
                let g1 = g\<lparr>gw_offerAccept := h\<rparr>
                in (case acceptOffer newId now userId offerId w of
                      (Inr t, w') \<Rightarrow> (Some t, w', deliver w w' g1)
                    | (Inl e, w') \<Rightarrow>
                        (None, w',
                         send_to (ToSocket socket) (WsError (error_message env e)) (deliver w w' g1)))))"

definition relay_location :: "string \<Rightarrow> real \<Rightarrow> real \<Rightarrow> gateway \<Rightarrow> gateway" where
  "relay_location driverUserId lat lng g =
     (case gw_activeTripRiderByDriver g driverUserId of
        None \<Rightarrow> g
      | Some riderId \<Rightarrow> send_to (ToUser riderId) (DriverLocationRelay driverUserId lat lng) g)"

definition onLocationUpdate ::
  "ws_env \<Rightarrow> int \<Rightarrow> string \<Rightarrow> string \<Rightarrow> LocationUpdatePayload \<Rightarrow> world \<times> gateway \<Rightarrow> world \<times> gateway" where
  "onLocationUpdate env now socket userId body wg =
     (let (w, g) = wg
      in if \<not> valid_LocationUpdatePayload body then (w, g)
         else
           (case consume 3 1000 now userId (gw_locationUpdate g) of
              (False, h) \<Rightarrow> (w, g\<lparr>gw_locationUpdate := h\<rparr>)
            | (True, h) \<Rightarrow>
                let g1 = g\<lparr>gw_locationUpdate := h\<rparr>
                in (case updateLocation now userId (lup_lat body) (lup_lng body) w of
                      (Inr _, w') \<Rightarrow>
                        (w', relay_location userId (lup_lat body) (lup_lng body) (deliver w w' g1))
                    | (Inl e, w') \<Rightarrow>
                        (w', send_to (ToSocket socket) (WsError (error_message env e)) (deliver w w' g1)))))"

definition onTrackSubscribe ::
  "ws_env \<Rightarrow> int \<Rightarrow> string \<Rightarrow> string \<Rightarrow> TrackNearbyPayload \<Rightarrow> gateway \<Rightarrow> gateway" where
  "onTrackSubscribe env now socket userId body g =
     (if \<not> valid_TrackNearbyPayload body then g
      else
        (case consume 5 5000 now userId (gw_trackSubscribe g) of
           (False, h) \<Rightarrow>
             send_to (ToSocket socket) (WsError (''Too many requests '' @ em_dash @ '' slow down''))
               (g\<lparr>gw_trackSubscribe := h\<rparr>)
         | (True, h) \<Rightarrow>
             let radiusKm = (case tnp_radiusKm body of Some r \<Rightarrow> r | None \<Rightarrow> env_matchRadiusKm env)
             in g\<lparr>gw_trackSubscribe := h,
                  gw_riderTrackSubscriptions :=
                    AList.update userId
                      \<lparr>ts_lat = tnp_lat body, ts_lng = tnp_lng body, ts_radiusMeters = radiusKm * 1000\<rparr>
                      (gw_riderTrackSubscriptions g)\<rparr>))"

definition onTrackUnsubscribe :: "string \<Rightarrow> gateway \<Rightarrow> gateway" where
  "onTrackUnsubscribe userId g =
     g\<lparr>gw_riderTrackSubscriptions := AList.delete userId (gw_riderTrackSubscriptions g)\<rparr>"

lemmas gateway_ops [op_defs] =
  onOfferSubmit_def onOfferAccept_def onLocationUpdate_def relay_location_def onTrackSubscribe_def
  onTrackUnsubscribe_def handleConnection_def handleDisconnect_def

end
