(* ===== verification/Storage.thy ===== *)
theory Storage
  imports World
begin

section \<open>Storage: the local disk behind document uploads\<close>

text \<open>
  Models \<open>common/storage/local-disk-storage.service.ts\<close> and the functions of Node's \<open>path\<close> module
  it uses (POSIX paths). The disk maps an absolute path to a content. Whether the operating system
  carries out a write or a removal is the argument \<open>io\<close>, a predicate on paths.
\<close>

subsection \<open>Node's path module\<close>

fun segments :: "string \<Rightarrow> string list" where
  "segments [] = [[]]"
| "segments (c # cs) =
     (if c = CHR ''/'' then [] # segments cs
      else (case segments cs of [] \<Rightarrow> [[c]] | s # ss \<Rightarrow> (c # s) # ss))"

fun normalize_segments :: "string list \<Rightarrow> string list \<Rightarrow> string list" where
  "normalize_segments acc [] = rev acc"
| "normalize_segments acc (s # ss) =
     (if s = [] \<or> s = ''.'' then normalize_segments acc ss
      else if s = ''..'' then normalize_segments (tl acc) ss
      else normalize_segments (s # acc) ss)"

definition path_of :: "string list \<Rightarrow> string" where
  "path_of ss = (if ss = [] then ''/'' else concat (map (\<lambda>s. CHR ''/'' # s) ss))"

text \<open>\<open>resolve\<close> of an absolute path, and of any path from the working directory.\<close>

definition resolve_absolute :: "string \<Rightarrow> string" where
  "resolve_absolute p = path_of (normalize_segments [] (segments p))"

definition resolve :: "string \<Rightarrow> string \<Rightarrow> string" where
  "resolve cwd p =
     (if take 1 p = ''/'' then resolve_absolute p else resolve_absolute (cwd @ ''/'' @ p))"

definition starts_with :: "string \<Rightarrow> string \<Rightarrow> bool" where
  "starts_with p s \<longleftrightarrow> take (length p) s = p"

text \<open>
  \<open>extname\<close>: of the last component of the path, what follows its last dot, dot included; nothing if
  there is no dot, if the only one starts the name, or if the name is \<open>..\<close>.
\<close>

definition extname :: "string \<Rightarrow> string" where
  "extname p =
     (let b = takeWhile (\<lambda>c. c \<noteq> CHR ''/'') (dropWhile (\<lambda>c. c = CHR ''/'') (rev p));
          rest = dropWhile (\<lambda>c. c \<noteq> CHR ''.'') b
      in if rest = [] \<or> rest = ''.'' \<or> b = ''..'' then []
         else rev (takeWhile (\<lambda>c. c \<noteq> CHR ''.'') b @ ''.''))"

subsection \<open>LocalDiskStorageService\<close>

definition resolveKey :: "string \<Rightarrow> string \<Rightarrow> error + string" where
  "resolveKey baseDir key =
     (let path = resolve_absolute (baseDir @ ''/'' @ key)
      in if starts_with baseDir path then Inr path
         else Inl (InternalServerErrorException ''Invalid storage key''))"

definition storage_save ::
  "(string \<Rightarrow> bool) \<Rightarrow> string \<Rightarrow> string \<Rightarrow> string \<Rightarrow> world \<Rightarrow> unit result" where
  "storage_save io baseDir key buffer w =
     (case resolveKey baseDir key of
        Inl e \<Rightarrow> (Inl e, w)
      | Inr path \<Rightarrow>
          if io path then (Inr (), w\<lparr>disk := (disk w)(path \<mapsto> buffer)\<rparr>) else (Inl StorageError, w))"

definition storage_read :: "string \<Rightarrow> string \<Rightarrow> world \<Rightarrow> error + string" where
  "storage_read baseDir key w =
     (case resolveKey baseDir key of
        Inl e \<Rightarrow> Inl e
      | Inr path \<Rightarrow> (case disk w path of None \<Rightarrow> Inl StorageError | Some buffer \<Rightarrow> Inr buffer))"

definition storage_delete :: "(string \<Rightarrow> bool) \<Rightarrow> string \<Rightarrow> string \<Rightarrow> world \<Rightarrow> unit result" where
  "storage_delete io baseDir key w =
     (case resolveKey baseDir key of
        Inl e \<Rightarrow> (Inl e, w)
      | Inr path \<Rightarrow>
          if io path then (Inr (), w\<lparr>disk := (disk w)(path := None)\<rparr>) else (Inl StorageError, w))"

lemmas storage_ops [op_defs] = storage_save_def storage_read_def storage_delete_def

subsection \<open>Facts about paths\<close>

definition plain_segment :: "string \<Rightarrow> bool" where
  "plain_segment s \<longleftrightarrow> CHR ''/'' \<notin> set s \<and> s \<noteq> [] \<and> s \<noteq> ''.'' \<and> s \<noteq> ''..''"

lemma segments_not_Nil [simp]: "segments p \<noteq> []"
  by (induction p) (auto split: list.split)

lemma segments_noslash: "CHR ''/'' \<notin> set s \<Longrightarrow> segments s = [s]"
  by (induction s) auto

lemma segments_slash: "segments (a @ CHR ''/'' # b) = segments a @ segments b"
  by (induction a) (auto split: list.split)

lemma segments_path_of:
  "list_all plain_segment ss \<Longrightarrow> ss \<noteq> [] \<Longrightarrow> segments (path_of ss) = [] # ss"
proof (induction ss)
  case (Cons s ss)
  then show ?case
    using segments_slash [of s "tl (path_of ss)"]
    by (cases "ss = []") (auto simp: path_of_def segments_noslash plain_segment_def neq_Nil_conv)
qed simp

lemma normalize_plain:
  "list_all plain_segment ss \<Longrightarrow> normalize_segments acc ss = rev acc @ ss"
  by (induction ss arbitrary: acc) (auto simp: plain_segment_def)

lemma normalize_append:
  "normalize_segments acc (ss @ ts) = normalize_segments (rev (normalize_segments acc ss)) ts"
  by (induction acc ss rule: normalize_segments.induct) auto

lemma list_all_tl: "list_all P xs \<Longrightarrow> list_all P (tl xs)"
  by (cases xs) simp_all

lemma normalize_all_plain:
  "list_all plain_segment acc \<Longrightarrow> (\<And>s. s \<in> set ss \<Longrightarrow> CHR ''/'' \<notin> set s) \<Longrightarrow>
     list_all plain_segment (normalize_segments acc ss)"
proof (induction ss arbitrary: acc)
  case Nil
  then show ?case by (simp add: list_all_iff)
next
  case (Cons s ss)
  then have "list_all plain_segment (normalize_segments acc ss)"
    and "list_all plain_segment (normalize_segments (tl acc) ss)"
    by (simp_all add: list_all_tl)
  moreover have "plain_segment s \<Longrightarrow> list_all plain_segment (normalize_segments (s # acc) ss)"
    using Cons by simp
  moreover have "plain_segment s \<longleftrightarrow> s \<noteq> [] \<and> s \<noteq> ''.'' \<and> s \<noteq> ''..''"
    using Cons.prems(2) by (simp add: plain_segment_def)
  ultimately show ?case by simp
qed

lemma set_segments_noslash: "s \<in> set (segments p) \<Longrightarrow> CHR ''/'' \<notin> set s"
  by (induction p arbitrary: s) (auto split: if_splits list.splits)

text \<open>Resolving an absolute path gives a path of plain components, and resolving it again changes nothing.\<close>

lemma resolve_absolute_plain:
  obtains ss where "resolve_absolute p = path_of ss" "list_all plain_segment ss"
  using normalize_all_plain [of "[]" "segments p"] set_segments_noslash
  by (auto simp: resolve_absolute_def)

lemma resolve_absolute_idem: "resolve_absolute (resolve_absolute p) = resolve_absolute p"
proof -
  obtain ss where ss: "resolve_absolute p = path_of ss" "list_all plain_segment ss"
    by (rule resolve_absolute_plain)
  show ?thesis
  proof (cases "ss = []")
    case False
    with ss show ?thesis
      by (simp add: resolve_absolute_def segments_path_of normalize_plain)
  next
    case True
    have "resolve_absolute ''/'' = ''/''" by (simp add: resolve_absolute_def path_of_def)
    moreover have "resolve_absolute p = ''/''" using ss(1) True by (simp add: path_of_def)
    ultimately show ?thesis by simp
  qed
qed

lemma path_of_append:
  "bs \<noteq> [] \<Longrightarrow> path_of (bs @ ss) = path_of bs @ concat (map (\<lambda>s. CHR ''/'' # s) ss)"
  by (simp add: path_of_def)

text \<open>A key of plain components names the file of that name under the base directory.\<close>

lemma resolveKey_plain:
  assumes "list_all plain_segment bs" "bs \<noteq> []" "list_all plain_segment (segments key)"
  shows "resolveKey (path_of bs) key = Inr (path_of bs @ ''/'' @ key)"
proof -
  have join: "concat (map (\<lambda>s. CHR ''/'' # s) (segments k)) = CHR ''/'' # k" for k
    by (induction k) (auto split: list.split simp: segments_not_Nil [symmetric])
  have "normalize_segments [] (segments (path_of bs @ ''/'' @ key)) = bs @ segments key"
    using assms by (simp add: segments_slash segments_path_of normalize_append normalize_plain)
  then have "resolve_absolute (path_of bs @ ''/'' @ key) = path_of bs @ ''/'' @ key"
    using assms(2) by (simp add: resolve_absolute_def path_of_append join)
  then show ?thesis by (simp add: resolveKey_def Let_def starts_with_def)
qed

lemma extname_noslash: "CHR ''/'' \<notin> set (extname p)"
proof -
  let ?b = "takeWhile (\<lambda>c. c \<noteq> CHR ''/'') (dropWhile (\<lambda>c. c = CHR ''/'') (rev p))"
  have "CHR ''/'' \<notin> set (takeWhile (\<lambda>c. c \<noteq> CHR ''.'') ?b)"
    by (auto dest!: set_takeWhileD)
  then show ?thesis by (simp add: extname_def Let_def)
qed

lemma storage_save_world: "storage_save io b k buf w = (r, w') \<Longrightarrow> \<exists>d. w' = w\<lparr>disk := d\<rparr>"
  by (auto simp: storage_save_def split: sum.splits if_splits intro: exI [of _ "disk w"])

lemma storage_delete_world: "storage_delete io b k w = (r, w') \<Longrightarrow> \<exists>d. w' = w\<lparr>disk := d\<rparr>"
  by (auto simp: storage_delete_def split: sum.splits if_splits intro: exI [of _ "disk w"])

text \<open>A file that was saved is read back, until its own key is deleted.\<close>

lemma storage_read_save:
  "storage_save io b k buf w = (Inr (), w') \<Longrightarrow> storage_read b k w' = Inr buf"
  by (auto simp: storage_save_def storage_read_def split: sum.splits if_splits)

end
