(* ===== verification/Documents.thy ===== *)
theory Documents
  imports Storage
begin

section \<open>Documents: the files of a driver application\<close>

text \<open>
  Models \<open>drivers/driver-documents.service.ts\<close>: the upload that replaces a document in place, the
  listings and the download. \<open>uuid\<close> is the fresh identifier of the storage key, \<open>newId\<close> that of
  the row.
\<close>

definition ALLOWED_MIME_TYPES :: "string list" where
  "ALLOWED_MIME_TYPES = [''image/jpeg'', ''image/png'', ''application/pdf'']"

definition isAllowedMimeType :: "string \<Rightarrow> bool" where
  "isAllowedMimeType mimetype \<longleftrightarrow> mimetype \<in> set ALLOWED_MIME_TYPES"

record UploadableFile =
  uf_buffer :: string
  uf_mimetype :: string
  uf_originalname :: string
  uf_size :: int

text \<open>The value of an enum member, as the database and the messages show it.\<close>

fun document_type_name :: "DriverDocumentType \<Rightarrow> string" where
  "document_type_name DRIVERS_LICENSE = ''DRIVERS_LICENSE''"
| "document_type_name VEHICLE_REGISTRATION = ''VEHICLE_REGISTRATION''"
| "document_type_name VEHICLE_PHOTO = ''VEHICLE_PHOTO''"
| "document_type_name PROOF_OF_INSURANCE = ''PROOF_OF_INSURANCE''"
| "document_type_name PROFILE_PHOTO = ''PROFILE_PHOTO''"

record DriverDocumentResponse =
  ddr_id :: string
  ddr_type :: DriverDocumentType
  ddr_originalFilename :: string
  ddr_mimeType :: string
  ddr_sizeBytes :: int
  ddr_uploadedAt :: int

definition DriverDocumentResponse_from :: "DriverDocument \<Rightarrow> DriverDocumentResponse" where
  "DriverDocumentResponse_from d =
     \<lparr>ddr_id = dd_id d, ddr_type = dd_type d, ddr_originalFilename = dd_originalFilename d,
      ddr_mimeType = dd_mimeType d, ddr_sizeBytes = dd_sizeBytes d,
      ddr_uploadedAt = dd_uploadedAt d\<rparr>"

definition storage_key :: "string \<Rightarrow> DriverDocumentType \<Rightarrow> string \<Rightarrow> string \<Rightarrow> string" where
  "storage_key applicationId type uuid originalname =
     ''driver-documents/'' @ applicationId @ ''/'' @ document_type_name type @ ''-'' @ uuid @
     extname originalname"

definition new_document ::
  "string \<Rightarrow> int \<Rightarrow> string \<Rightarrow> DriverDocumentType \<Rightarrow> string \<Rightarrow> UploadableFile \<Rightarrow> DriverDocument" where
  "new_document newId now applicationId type key file =
     \<lparr>dd_id = newId, dd_driverApplicationId = applicationId, dd_type = type, dd_storageKey = key,
      dd_originalFilename = uf_originalname file, dd_mimeType = uf_mimetype file,
      dd_sizeBytes = uf_size file, dd_uploadedAt = now\<rparr>"

definition replaced_document :: "int \<Rightarrow> string \<Rightarrow> UploadableFile \<Rightarrow> DriverDocument \<Rightarrow> DriverDocument" where
  "replaced_document now key file d =
     d\<lparr>dd_storageKey := key, dd_originalFilename := uf_originalname file,
       dd_mimeType := uf_mimetype file, dd_sizeBytes := uf_size file, dd_uploadedAt := now\<rparr>"

text \<open>The upsert on \<open>driverApplicationId_type\<close>.\<close>

definition driverDocument_upsert ::
  "string \<Rightarrow> int \<Rightarrow> string \<Rightarrow> DriverDocumentType \<Rightarrow> string \<Rightarrow> UploadableFile \<Rightarrow> world \<Rightarrow>
   error + DriverDocument \<times> world" where
  "driverDocument_upsert newId now applicationId type key file w =
     (case lookup dd_key (applicationId, type) (driverDocuments w) of
        Some existing \<Rightarrow>
          (case driverDocument_update (\<lambda>d. dd_key d = (applicationId, type))
                  (replaced_document now key file) w of
             Inl e \<Rightarrow> Inl e
           | Inr w' \<Rightarrow> Inr (replaced_document now key file existing, w'))
      | None \<Rightarrow>
          (case driverDocument_create (new_document newId now applicationId type key file) w of
             Inl e \<Rightarrow> Inl e
           | Inr w' \<Rightarrow> Inr (new_document newId now applicationId type key file, w')))"

text \<open>\<open>this.storage.delete(existing.storageKey).catch(() => undefined)\<close>.\<close>

definition cleanup_replaced ::
  "(string \<Rightarrow> bool) \<Rightarrow> string \<Rightarrow> DriverDocument option \<Rightarrow> string \<Rightarrow> world \<Rightarrow> world" where
  "cleanup_replaced io baseDir existing key w =
     (case existing of
        None \<Rightarrow> w
      | Some d \<Rightarrow>
          if dd_storageKey d \<noteq> key then snd (storage_delete io baseDir (dd_storageKey d) w) else w)"

definition upload_document ::
  "(string \<Rightarrow> bool) \<Rightarrow> string \<Rightarrow> string \<Rightarrow> string \<Rightarrow> int \<Rightarrow> string \<Rightarrow> DriverDocumentType \<Rightarrow>
   UploadableFile \<Rightarrow> world \<Rightarrow> DriverDocumentResponse result" where
  "upload_document io baseDir newId uuid now applicationId type file w =
     (if uf_mimetype file \<notin> set ALLOWED_MIME_TYPES
      then (Inl (BadRequestException
              (''Unsupported file type '' @ em_dash @ '' use JPEG, PNG, or PDF'')), w)
      else
        (let existing = lookup dd_key (applicationId, type) (driverDocuments w);
             key = storage_key applicationId type uuid (uf_originalname file)
         in case storage_save io baseDir key (uf_buffer file) w of
              (Inl e, w1) \<Rightarrow> (Inl e, w1)
            | (Inr _, w1) \<Rightarrow>
                (case driverDocument_upsert newId now applicationId type key file w1 of
                   Inl e \<Rightarrow> (Inl e, w1)
                 | Inr (document, w2) \<Rightarrow>
                     (Inr (DriverDocumentResponse_from document),
                      cleanup_replaced io baseDir existing key w2))))"

definition listForApplication :: "string \<Rightarrow> world \<Rightarrow> DriverDocumentResponse list" where
  "listForApplication applicationId w =
     map DriverDocumentResponse_from
       (filter (\<lambda>d. dd_driverApplicationId d = applicationId) (driverDocuments w))"

definition uploadedTypes :: "string \<Rightarrow> world \<Rightarrow> DriverDocumentType set" where
  "uploadedTypes applicationId w =
     set (map dd_type (filter (\<lambda>d. dd_driverApplicationId d = applicationId) (driverDocuments w)))"

definition getFileBuffer :: "string \<Rightarrow> string \<Rightarrow> world \<Rightarrow> error + string \<times> string \<times> string" where
  "getFileBuffer baseDir documentId w =
     (case lookup dd_id documentId (driverDocuments w) of
        None \<Rightarrow> Inl (NotFoundException ''Document not found'')
      | Some d \<Rightarrow>
          (case storage_read baseDir (dd_storageKey d) w of
             Inl e \<Rightarrow> Inl e
           | Inr buffer \<Rightarrow> Inr (buffer, dd_mimeType d, dd_originalFilename d)))"

lemmas document_ops [op_defs] =
  upload_document_def driverDocument_upsert_def cleanup_replaced_def getFileBuffer_def

subsection \<open>What an upload leaves\<close>

lemma replaced_document_key [simp]:
  "dd_key (replaced_document now key file d) = dd_key d"
  "dd_id (replaced_document now key file d) = dd_id d"
  "dd_driverApplicationId (replaced_document now key file d) = dd_driverApplicationId d"
  "dd_type (replaced_document now key file d) = dd_type d"
  by (simp_all add: replaced_document_def dd_key_def)

lemma new_document_fields [simp]:
  "dd_key (new_document newId now a t key file) = (a, t)"
  "dd_id (new_document newId now a t key file) = newId"
  "dd_driverApplicationId (new_document newId now a t key file) = a"
  "dd_type (new_document newId now a t key file) = t"
  by (simp_all add: new_document_def dd_key_def)

lemma driverDocument_create_Inr:
  "driverDocument_create d w = Inr w' \<longleftrightarrow>
     create_row driverDocument_conflicts (application_exists (dd_driverApplicationId d) w) d
       (driverDocuments w) = Inr (driverDocuments w @ [d]) \<and>
     w' = w\<lparr>driverDocuments := driverDocuments w @ [d]\<rparr>"
  by (auto simp: driverDocument_create_def on_table_Inr create_row_Inr)

lemma driverDocument_update_Inr:
  "driverDocument_update p f w = Inr w' \<Longrightarrow>
     w' = w\<lparr>driverDocuments := update_where p f (driverDocuments w)\<rparr>"
  by (auto simp: driverDocument_update_def on_table_Inr dest!: update_row_Inr)

text \<open>Only the documents and the disk change, whether the upload succeeds or not.\<close>

definition frame_documents :: "world \<Rightarrow> world \<Rightarrow> bool" where
  "frame_documents w w' \<longleftrightarrow>
     users w' = users w \<and> refreshTokens w' = refreshTokens w \<and>
     passwordResetTokens w' = passwordResetTokens w \<and>
     driverApplications w' = driverApplications w \<and> driverProfiles w' = driverProfiles w \<and>
     rideRequests w' = rideRequests w \<and> rideOffers w' = rideOffers w \<and> trips w' = trips w \<and>
     ratings w' = ratings w \<and> events w' = events w \<and> queue w' = queue w \<and>
     redis w' = redis w \<and> outbox w' = outbox w"

lemma frame_documents_refl [simp]: "frame_documents w w"
  by (simp add: frame_documents_def)

lemma frame_documents_trans: "frame_documents w v \<Longrightarrow> frame_documents v x \<Longrightarrow> frame_documents w x"
  by (simp add: frame_documents_def)

lemma frame_documents_writes [simp]:
  "frame_documents w (w'\<lparr>disk := d\<rparr>) = frame_documents w w'"
  "frame_documents w (w'\<lparr>driverDocuments := ds\<rparr>) = frame_documents w w'"
  by (simp_all add: frame_documents_def)

lemma driverDocument_upsert_Inr:
  assumes "driverDocument_upsert newId now a t key file w = Inr (d, w')"
  shows "\<exists>ds. w' = w\<lparr>driverDocuments := ds\<rparr> \<and> d \<in> set ds \<and> dd_key d = (a, t) \<and>
      (ds = driverDocuments w @ [d] \<and> lookup dd_key (a, t) (driverDocuments w) = None \<or>
       ds = update_where (\<lambda>d. dd_key d = (a, t)) (replaced_document now key file) (driverDocuments w))"
proof (cases "lookup dd_key (a, t) (driverDocuments w)")
  case None
  with assms show ?thesis
    by (auto simp: driverDocument_upsert_def driverDocument_create_Inr split: sum.splits)
next
  case (Some e)
  then have e: "e \<in> set (driverDocuments w)" "dd_key e = (a, t)" by (auto dest: lookup_SomeD)
  from Some assms have w': "w' = w\<lparr>driverDocuments := update_where (\<lambda>d. dd_key d = (a, t))
      (replaced_document now key file) (driverDocuments w)\<rparr>" "d = replaced_document now key file e"
    by (auto simp: driverDocument_upsert_def split: sum.splits dest: driverDocument_update_Inr)
  have "d \<in> set (update_where (\<lambda>d. dd_key d = (a, t)) (replaced_document now key file) (driverDocuments w))"
    unfolding w' using e by (intro in_update_where_changed)
  with w' e show ?thesis by (intro exI conjI) auto
qed

lemma cleanup_replaced_world: "\<exists>d. cleanup_replaced io b e key w = w\<lparr>disk := d\<rparr>"
proof -
  have "\<exists>d. w = w\<lparr>disk := d\<rparr>" by (rule exI [of _ "disk w"]) simp
  moreover have "\<exists>d. snd (storage_delete io b k w) = w\<lparr>disk := d\<rparr>" for k
    using storage_delete_world [of io b k w] by (metis prod.collapse)
  ultimately show ?thesis by (auto simp: cleanup_replaced_def split: option.split)
qed

lemma upload_frame: "frame_documents w (snd (upload_document io b newId uuid now a t file w))"
proof -
  have save: "frame_documents w w1"
    if "storage_save io b k buf w = (r, w1)" for r k buf w1
    using storage_save_world [OF that] by auto
  have upsert: "frame_documents w1 w2"
    if "driverDocument_upsert newId now a t k f w1 = Inr (d, w2)" for k f d w1 w2
    using driverDocument_upsert_Inr [OF that] by auto
  have clean: "frame_documents w2 (cleanup_replaced io b e k w2)" for e k w2
    using cleanup_replaced_world [of io b e k w2] by auto
  show ?thesis
    by (auto simp: upload_document_def Let_def split: prod.splits sum.splits
        intro: save frame_documents_trans [OF save frame_documents_trans [OF upsert clean]])
qed

text \<open>Documents are replaced, never lost: an application keeps every type it has uploaded.\<close>

lemma uploadedTypes_key: "t \<in> uploadedTypes a w \<longleftrightarrow> (a, t) \<in> dd_key ` set (driverDocuments w)"
  by (force simp: uploadedTypes_def dd_key_def)

lemma upsert_keys:
  assumes "driverDocument_upsert newId now a t key file w = Inr (d, w')"
  shows "dd_key ` set (driverDocuments w') = insert (a, t) (dd_key ` set (driverDocuments w))"
proof -
  obtain ds where ds: "w' = w\<lparr>driverDocuments := ds\<rparr>" "d \<in> set ds" "dd_key d = (a, t)"
    "ds = driverDocuments w @ [d] \<and> lookup dd_key (a, t) (driverDocuments w) = None \<or>
       ds = update_where (\<lambda>d. dd_key d = (a, t)) (replaced_document now key file) (driverDocuments w)"
    using driverDocument_upsert_Inr [OF assms] by blast
  then have keys: "(a, t) \<in> dd_key ` set ds" by force
  from ds(4) show ?thesis
  proof (elim disjE)
    assume "ds = update_where (\<lambda>d. dd_key d = (a, t)) (replaced_document now key file) (driverDocuments w)"
    then have "dd_key ` set ds = dd_key ` set (driverDocuments w)" by (simp add: image_update_where)
    with keys ds(1) show ?thesis by auto
  qed (use ds in auto)
qed

lemma upload_types:
  assumes "upload_document io b newId uuid now a t file w = (r, w')"
  shows "uploadedTypes a' w \<subseteq> uploadedTypes a' w'"
    and "r = Inr resp \<Longrightarrow> uploadedTypes a' w' = uploadedTypes a' w \<union> (if a' = a then {t} else {})"
proof -
  have clean: "driverDocuments (cleanup_replaced io b e k v) = driverDocuments v" for e k v
    using cleanup_replaced_world [of io b e k v] by auto
  have save: "storage_save io b k buf w = (r, w1) \<Longrightarrow> driverDocuments w1 = driverDocuments w" for k buf r w1
    using storage_save_world by fastforce
  have "(\<forall>x. (a', x) \<in> dd_key ` set (driverDocuments w) \<longrightarrow> (a', x) \<in> dd_key ` set (driverDocuments w'))
    \<and> (r = Inr resp \<longrightarrow> dd_key ` set (driverDocuments w') = insert (a, t) (dd_key ` set (driverDocuments w)))"
    using assms
    by (auto simp: upload_document_def Let_def clean split: if_splits prod.splits sum.splits
        dest!: save upsert_keys simp del: image_insert del: equalityI)
  then show "uploadedTypes a' w \<subseteq> uploadedTypes a' w'"
    and "r = Inr resp \<Longrightarrow> uploadedTypes a' w' = uploadedTypes a' w \<union> (if a' = a then {t} else {})"
    by (auto simp: uploadedTypes_key)
qed

subsection \<open>Storage keys stay inside the upload directory\<close>

text \<open>
  Whatever name the client gave the file: only its extension enters the key, and an extension has no
  slash. Identifiers are UUIDs; all that is used of them is that they are plain path components.
\<close>

lemma document_type_name_plain: "CHR ''/'' \<notin> set (document_type_name t)" "1 < length (document_type_name t)"
    "hd (document_type_name t) \<noteq> CHR ''.''" "document_type_name t \<noteq> []"
  by (cases t; simp)+

lemma storage_key_segments:
  assumes "plain_segment a" "plain_segment uuid"
  shows "segments (storage_key a t uuid name)
      = [''driver-documents'', a, document_type_name t @ ''-'' @ uuid @ extname name]"
    and "list_all plain_segment (segments (storage_key a t uuid name))"
proof -
  let ?f = "document_type_name t @ ''-'' @ uuid @ extname name"
  have f: "CHR ''/'' \<notin> set ?f"
    using assms document_type_name_plain(1) extname_noslash by (simp add: plain_segment_def)
  have key: "storage_key a t uuid name = ''driver-documents'' @ CHR ''/'' # a @ CHR ''/'' # ?f"
    by (simp add: storage_key_def)
  show segs: "segments (storage_key a t uuid name) = [''driver-documents'', a, ?f]"
    unfolding key segments_slash using assms f by (simp add: segments_noslash plain_segment_def)
  have "hd ?f = hd (document_type_name t)" using document_type_name_plain(4) by (simp add: hd_append)
  with document_type_name_plain(3) have "?f \<noteq> ''.''" "?f \<noteq> ''..''" by (metis list.sel(1))+
  with f assms document_type_name_plain(4) show "list_all plain_segment (segments (storage_key a t uuid name))"
    unfolding segs by (simp add: plain_segment_def)
qed

lemma storage_key_path:
  assumes "plain_segment a" "plain_segment uuid" "list_all plain_segment bs" "bs \<noteq> []"
  shows "resolveKey (path_of bs) (storage_key a t uuid name)
    = Inr (path_of bs @ ''/'' @ storage_key a t uuid name)"
  using resolveKey_plain storage_key_segments assms by blast

subsection \<open>Every document has its file\<close>

definition documents_ok :: "string list \<Rightarrow> world \<Rightarrow> bool" where
  "documents_ok bs w \<longleftrightarrow>
     unique_on dd_id (driverDocuments w) \<and> unique_on dd_key (driverDocuments w) \<and>
     unique_on dd_storageKey (driverDocuments w) \<and>
     (\<forall>d \<in> set (driverDocuments w).
        list_all plain_segment (segments (dd_storageKey d)) \<and>
        disk w (path_of bs @ ''/'' @ dd_storageKey d) \<noteq> None)"

lemma documents_ok_frame:
  "documents_ok bs w \<Longrightarrow> driverDocuments w' = driverDocuments w \<Longrightarrow> disk w' = disk w \<Longrightarrow>
     documents_ok bs w'"
  by (simp add: documents_ok_def)

lemma getFileBuffer_present:
  assumes ok: "documents_ok bs w" and bs: "list_all plain_segment bs" "bs \<noteq> []"
    and d: "d \<in> set (driverDocuments w)"
  shows "\<exists>buffer. disk w (path_of bs @ ''/'' @ dd_storageKey d) = Some buffer \<and>
    getFileBuffer (path_of bs) (dd_id d) w = Inr (buffer, dd_mimeType d, dd_originalFilename d)"
proof -
  from ok d obtain buffer where buffer: "disk w (path_of bs @ ''/'' @ dd_storageKey d) = Some buffer"
    and plain: "list_all plain_segment (segments (dd_storageKey d))" by (auto simp: documents_ok_def)
  have "lookup dd_id (dd_id d) (driverDocuments w) = Some d"
    using ok d by (simp add: documents_ok_def lookup_Some_iff)
  with buffer resolveKey_plain [OF bs plain] show ?thesis
    by (simp add: getFileBuffer_def storage_read_def)
qed

text \<open>Two plain keys name the same file only if they are equal, so an upload touches no other file.\<close>

lemma cleanup_replaced_documents [simp]:
  "driverDocuments (cleanup_replaced io b e k w) = driverDocuments w"
  using cleanup_replaced_world [of io b e k w] by auto

lemma upload_success:
  assumes "upload_document io b newId uuid now a t file w = (Inr resp, w')"
  obtains path ds where
    "resolveKey b (storage_key a t uuid (uf_originalname file)) = Inr path"
    "driverDocuments w' = ds"
    "disk w' = disk (cleanup_replaced io b (lookup dd_key (a, t) (driverDocuments w))
        (storage_key a t uuid (uf_originalname file)) (w\<lparr>disk := (disk w)(path \<mapsto> uf_buffer file)\<rparr>))"
    "ds = driverDocuments w @ [new_document newId now a t (storage_key a t uuid (uf_originalname file)) file] \<and>
       lookup dd_key (a, t) (driverDocuments w) = None \<and> newId \<notin> dd_id ` set (driverDocuments w) \<or>
     ds = update_where (\<lambda>d. dd_key d = (a, t))
       (replaced_document now (storage_key a t uuid (uf_originalname file)) file) (driverDocuments w)"
proof -
  let ?k = "storage_key a t uuid (uf_originalname file)"
  from assms obtain path w1 d w2 where 1: "resolveKey b ?k = Inr path"
    "w1 = w\<lparr>disk := (disk w)(path \<mapsto> uf_buffer file)\<rparr>"
    and 2: "driverDocument_upsert newId now a t ?k file w1 = Inr (d, w2)"
    and 3: "w' = cleanup_replaced io b (lookup dd_key (a, t) (driverDocuments w)) ?k w2"
    by (auto simp: upload_document_def Let_def storage_save_def split: if_splits sum.splits prod.splits)
  from 2 have ds: "driverDocuments w2 = driverDocuments w @ [new_document newId now a t ?k file] \<and>
      lookup dd_key (a, t) (driverDocuments w) = None \<and> newId \<notin> dd_id ` set (driverDocuments w) \<or>
    driverDocuments w2 = update_where (\<lambda>d. dd_key d = (a, t)) (replaced_document now ?k file) (driverDocuments w)"
    and w2: "\<exists>ds. w2 = w1\<lparr>driverDocuments := ds\<rparr>"
    using driverDocument_upsert_Inr [OF 2] documents_id.created_key_fresh
    by (auto simp: driverDocument_upsert_def 1(2) driverDocument_create_Inr
        split: option.splits sum.splits dest!: driverDocument_update_Inr dest: documents_id.created_key_fresh)
  have "driverDocuments w' = driverDocuments w2"
    by (simp add: 3)
  moreover have "disk w' = disk (cleanup_replaced io b (lookup dd_key (a, t) (driverDocuments w)) ?k w1)"
    using w2 by (auto simp: 3 cleanup_replaced_def storage_delete_def split: option.split sum.split)
  ultimately show ?thesis using that 1 ds by metis
qed

lemma storage_delete_disk:
  assumes "resolveKey b k = Inr path"
  shows "disk (snd (storage_delete io b k w)) = (disk w)(path := if io path then None else disk w path)"
  using assms by (simp add: storage_delete_def)

text \<open>
  After an upload the new key holds the file, and the files of all other documents are as before.
\<close>

lemma upload_files:
  assumes ok: "documents_ok bs w" and bs: "list_all plain_segment bs" "bs \<noteq> []"
    and ids: "plain_segment a" "plain_segment uuid"
    and fresh: "storage_key a t uuid (uf_originalname file) \<notin> dd_storageKey ` set (driverDocuments w)"
    and up: "upload_document io (path_of bs) newId uuid now a t file w = (Inr resp, w')"
  shows "disk w' (path_of bs @ ''/'' @ storage_key a t uuid (uf_originalname file)) = Some (uf_buffer file)"
    and "d \<in> set (driverDocuments w) \<Longrightarrow> dd_key d \<noteq> (a, t) \<Longrightarrow>
      disk w' (path_of bs @ ''/'' @ dd_storageKey d) = disk w (path_of bs @ ''/'' @ dd_storageKey d)"
proof -
  let ?k = "storage_key a t uuid (uf_originalname file)" and ?b = "path_of bs"
  let ?file = "\<lambda>k. ?b @ ''/'' @ k"
  let ?e = "lookup dd_key (a, t) (driverDocuments w)"
  let ?w1 = "w\<lparr>disk := (disk w)(?file ?k \<mapsto> uf_buffer file)\<rparr>"
  have path: "resolveKey ?b ?k = Inr (?file ?k)" by (rule storage_key_path [OF ids bs])
  with upload_success [OF up] have disk: "disk w' = disk (cleanup_replaced io ?b ?e ?k ?w1)"
    by (metis sum.inject(2))
  have new: "dd_storageKey e \<noteq> ?k" if "e \<in> set (driverDocuments w)" for e
    using fresh that by force
  have old: "e \<in> set (driverDocuments w) \<and> dd_key e = (a, t) \<and>
      resolveKey ?b (dd_storageKey e) = Inr (?file (dd_storageKey e)) \<and> dd_storageKey e \<noteq> ?k"
    if "?e = Some e" for e
    using that ok new resolveKey_plain [OF bs] by (auto simp: documents_ok_def dest!: lookup_SomeD)
  show "disk w' (?file ?k) = Some (uf_buffer file)"
    by (auto simp: disk cleanup_replaced_def storage_delete_disk split: option.split dest!: old)
  show "disk w' (?file (dd_storageKey d)) = disk w (?file (dd_storageKey d))"
    if d: "d \<in> set (driverDocuments w)" "dd_key d \<noteq> (a, t)"
  proof -
    have "dd_storageKey d \<noteq> ?k" by (rule new [OF d(1)])
    moreover have "dd_storageKey d \<noteq> dd_storageKey e \<and> resolveKey ?b (dd_storageKey e) = Inr (?file (dd_storageKey e))"
      if "?e = Some e" for e
      using ok d old [OF that] by (auto simp: documents_ok_def dest: unique_on_eq)
    ultimately show ?thesis
      by (cases ?e) (auto simp: disk cleanup_replaced_def storage_delete_disk)
  qed
qed

text \<open>The answer to an upload shows the row it wrote.\<close>

lemma upload_response:
  assumes "upload_document io b newId uuid now a t file w = (Inr resp, w')"
  shows "\<exists>d \<in> set (driverDocuments w'). resp = DriverDocumentResponse_from d \<and> dd_key d = (a, t) \<and>
    dd_storageKey d = storage_key a t uuid (uf_originalname file) \<and>
    dd_mimeType d = uf_mimetype file \<and> dd_originalFilename d = uf_originalname file"
proof -
  let ?k = "storage_key a t uuid (uf_originalname file)"
  from assms obtain w1 d w2 where 2: "driverDocument_upsert newId now a t ?k file w1 = Inr (d, w2)"
    and 3: "w' = cleanup_replaced io b (lookup dd_key (a, t) (driverDocuments w)) ?k w2"
    and resp: "resp = DriverDocumentResponse_from d"
    by (auto simp: upload_document_def Let_def storage_save_def split: if_splits sum.splits prod.splits)
  have "dd_storageKey d = ?k \<and> dd_mimeType d = uf_mimetype file \<and> dd_originalFilename d = uf_originalname file"
    using 2 by (auto simp: driverDocument_upsert_def new_document_def replaced_document_def
        split: option.splits sum.splits)
  moreover have "d \<in> set (driverDocuments w')" "dd_key d = (a, t)"
    using driverDocument_upsert_Inr [OF 2] 3 by auto
  ultimately show ?thesis using resp by blast
qed

lemma documents_ok_upload:
  assumes ok: "documents_ok bs w" and bs: "list_all plain_segment bs" "bs \<noteq> []"
    and ids: "plain_segment a" "plain_segment uuid"
    and fresh: "storage_key a t uuid (uf_originalname file) \<notin> dd_storageKey ` set (driverDocuments w)"
    and up: "upload_document io (path_of bs) newId uuid now a t file w = (Inr resp, w')"
  shows "documents_ok bs w'"
proof -
  let ?k = "storage_key a t uuid (uf_originalname file)" and ?b = "path_of bs"
  let ?file = "\<lambda>k. ?b @ ''/'' @ k"
  let ?e = "lookup dd_key (a, t) (driverDocuments w)"
  have path: "resolveKey ?b ?k = Inr (?file ?k)" by (rule storage_key_path [OF ids bs])
  have plain: "list_all plain_segment (segments ?k)" by (rule storage_key_segments(2) [OF ids])
  from upload_success [OF up] path have
    docs: "driverDocuments w' = driverDocuments w @ [new_document newId now a t ?k file] \<and>
        ?e = None \<and> newId \<notin> dd_id ` set (driverDocuments w) \<or>
      driverDocuments w' = update_where (\<lambda>d. dd_key d = (a, t)) (replaced_document now ?k file) (driverDocuments w)"
    by (metis sum.inject(2))+
  have one: "d = e" if "d \<in> set (driverDocuments w)" "e \<in> set (driverDocuments w)" "dd_key d = dd_key e" for d e
    using ok that by (auto simp: documents_ok_def dest: unique_on_eq)
  note changed = upload_files [OF ok bs ids fresh up]
  have files: "disk w' (?file (dd_storageKey d)) \<noteq> None"
    if "d \<in> set (driverDocuments w)" "dd_key d \<noteq> (a, t)" for d
    using changed(2) [OF that] ok that(1) by (simp add: documents_ok_def)
  have new_file: "disk w' (?file ?k) \<noteq> None" using changed(1) by simp
  from docs show ?thesis
  proof (elim disjE conjE)
    assume *: "driverDocuments w' = driverDocuments w @ [new_document newId now a t ?k file]"
      "?e = None" "newId \<notin> dd_id ` set (driverDocuments w)"
    then have keys: "(a, t) \<notin> dd_key ` set (driverDocuments w)" by (simp add: lookup_None_image)
    have key: "dd_storageKey (new_document newId now a t ?k file) = ?k" by (simp add: new_document_def)
    have "disk w' (?file (dd_storageKey d)) \<noteq> None" if "d \<in> set (driverDocuments w)" for d
      using files [OF that] keys that by (metis image_eqI)
    moreover have "unique_on dd_id (driverDocuments w')" "unique_on dd_key (driverDocuments w')"
      "unique_on dd_storageKey (driverDocuments w')"
      using ok *(1,3) keys fresh key by (simp_all add: documents_ok_def unique_on_def)
    ultimately show ?thesis
      using ok plain new_file key unfolding documents_ok_def *(1) by simp
  next
    assume *: "driverDocuments w'
      = update_where (\<lambda>d. dd_key d = (a, t)) (replaced_document now ?k file) (driverDocuments w)"
    have "unique_on dd_storageKey (driverDocuments w')"
      unfolding * using ok fresh one
      by (intro unique_on_update_one) (auto simp: documents_ok_def replaced_document_def)
    moreover have "dd_storageKey (replaced_document now ?k file d) = ?k" for d
      by (simp add: replaced_document_def)
    ultimately show ?thesis using ok plain files new_file
      by (auto simp: documents_ok_def * unique_on_update_where elim!: in_update_whereE)
  qed
qed

end
