(* ===== verification/Applications.thy ===== *)
theory Applications
  imports Documents Users
begin

section \<open>Applications: becoming a driver\<close>

text \<open>
  Models \<open>driver-application/driver-application.service.ts\<close>: the three submission steps, the
  optional documents, the review, and the creation of the driver profile. The files of a submission
  are the (\<open>type\<close>, \<open>file\<close>) pairs \<open>Object.entries(files)\<close> yields, each with the identifiers its
  upload draws.
\<close>

definition REQUIRED_DOCUMENT_TYPES :: "DriverDocumentType list" where
  "REQUIRED_DOCUMENT_TYPES = [DRIVERS_LICENSE, VEHICLE_REGISTRATION, VEHICLE_PHOTO]"

definition OPTIONAL_DOCUMENT_TYPES :: "DriverDocumentType list" where
  "OPTIONAL_DOCUMENT_TYPES = [PROOF_OF_INSURANCE, PROFILE_PHOTO]"

fun RESUME_STEP :: "DriverApplicationStatus \<Rightarrow> nat option" where
  "RESUME_STEP NOT_STARTED = Some 1"
| "RESUME_STEP PERSONAL_INFO_SUBMITTED = Some 2"
| "RESUME_STEP LICENSE_SUBMITTED = Some 3"
| "RESUME_STEP VEHICLE_SUBMITTED = Some 3"
| "RESUME_STEP DriverApplicationStatus.REJECTED = Some 1"
| "RESUME_STEP UNDER_REVIEW = None"
| "RESUME_STEP VERIFIED = None"

fun application_status_name :: "DriverApplicationStatus \<Rightarrow> string" where
  "application_status_name NOT_STARTED = ''NOT_STARTED''"
| "application_status_name PERSONAL_INFO_SUBMITTED = ''PERSONAL_INFO_SUBMITTED''"
| "application_status_name LICENSE_SUBMITTED = ''LICENSE_SUBMITTED''"
| "application_status_name VEHICLE_SUBMITTED = ''VEHICLE_SUBMITTED''"
| "application_status_name UNDER_REVIEW = ''UNDER_REVIEW''"
| "application_status_name VERIFIED = ''VERIFIED''"
| "application_status_name DriverApplicationStatus.REJECTED = ''REJECTED''"

record SubmitPersonalInfoDto =
  spi_fullLegalName :: string
  spi_dateOfBirth :: int
  spi_residentialAddress :: string

record SubmitLicenseDto =
  sl_licenseNumber :: string
  sl_licenseExpiryDate :: int

record SubmitVehicleDto =
  sv_vehicleMake :: string
  sv_vehicleModel :: string
  sv_vehicleYear :: int
  sv_vehicleColor :: string
  sv_plateNumber :: string
  sv_registrationExpiryDate :: int

record ReviewApplicationDto =
  rad_decision :: DriverApplicationStatus
  rad_rejectionReason :: "string option"

record DriverApplicationStatusResponse =
  dasr_status :: DriverApplicationStatus
  dasr_currentStep :: "nat option"
  dasr_rejectionReason :: "string option"

subsection \<open>Reading an application\<close>

definition application_findByUserId :: "string \<Rightarrow> world \<Rightarrow> error + DriverApplication" where
  "application_findByUserId userId w =
     (case lookup da_userId userId (driverApplications w) of
        None \<Rightarrow> Inl (NotFoundException ''No driver application started'')
      | Some a \<Rightarrow> Inr a)"

definition application_findById :: "string \<Rightarrow> world \<Rightarrow> error + DriverApplication" where
  "application_findById i w =
     (case lookup da_id i (driverApplications w) of
        None \<Rightarrow> Inl (NotFoundException ''Driver application not found'')
      | Some a \<Rightarrow> Inr a)"

definition loadEditable :: "string \<Rightarrow> world \<Rightarrow> error + DriverApplication" where
  "loadEditable userId w =
     (case application_findByUserId userId w of
        Inl e \<Rightarrow> Inl e
      | Inr a \<Rightarrow>
          if da_status a = UNDER_REVIEW \<or> da_status a = VERIFIED
          then Inl (ConflictException ''Your driver application has already been submitted'')
          else if da_status a = DriverApplicationStatus.REJECTED
          then Inl (ConflictException
                 (''Your application was rejected '' @ em_dash @ '' restart it before resubmitting''))
          else Inr a)"

text \<open>\<open>findUnique({ where: { plateNumber } })\<close>.\<close>

definition assertPlateNumberAvailable :: "string \<Rightarrow> string \<Rightarrow> world \<Rightarrow> error + unit" where
  "assertPlateNumberAvailable plateNumber ownApplicationId w =
     (case lookup da_plateNumber (Some plateNumber) (driverApplications w) of
        None \<Rightarrow> Inr ()
      | Some existing \<Rightarrow>
          if da_id existing \<noteq> ownApplicationId
          then Inl (ConflictException ''Plate number already registered'') else Inr ())"

text \<open>\<open>prisma.driverApplication.update\<close> by id and the row it returns.\<close>

definition update_application ::
  "string \<Rightarrow> (DriverApplication \<Rightarrow> DriverApplication) \<Rightarrow> world \<Rightarrow> DriverApplication result" where
  "update_application i f w =
     (case driverApplication_update i f w of
        Inl e \<Rightarrow> (Inl e, w)
      | Inr w' \<Rightarrow>
          (case lookup da_id i (driverApplications w') of
             None \<Rightarrow> (Inl (PrismaError P2025), w')
           | Some updated \<Rightarrow> (Inr updated, w')))"

subsection \<open>The steps\<close>

definition new_application :: "string \<Rightarrow> int \<Rightarrow> string \<Rightarrow> DriverApplication" where
  "new_application newId now userId =
     \<lparr>da_id = newId, da_userId = userId, da_status = NOT_STARTED, da_fullLegalName = None,
      da_dateOfBirth = None, da_residentialAddress = None, da_licenseNumber = None,
      da_licenseExpiryDate = None, da_vehicleMake = None, da_vehicleModel = None,
      da_vehicleYear = None, da_vehicleColor = None, da_plateNumber = None,
      da_registrationExpiryDate = None, da_rejectionReason = None, da_submittedAt = None,
      da_reviewedAt = None, da_createdAt = now, da_updatedAt = now\<rparr>"

definition restarted :: "int \<Rightarrow> DriverApplication \<Rightarrow> DriverApplication" where
  "restarted now a =
     a\<lparr>da_status := NOT_STARTED, da_rejectionReason := None, da_submittedAt := None,
       da_reviewedAt := None, da_updatedAt := now\<rparr>"

definition startApplication :: "string \<Rightarrow> int \<Rightarrow> string \<Rightarrow> world \<Rightarrow> DriverApplication result" where
  "startApplication newId now userId w =
     (case lookup da_userId userId (driverApplications w) of
        None \<Rightarrow>
          (case driverApplication_create (new_application newId now userId) w of
             Inl e \<Rightarrow> (Inl e, w)
           | Inr w' \<Rightarrow> (Inr (new_application newId now userId), w'))
      | Some existing \<Rightarrow>
          if da_status existing = UNDER_REVIEW \<or> da_status existing = VERIFIED
          then (Inl (ConflictException ''Your driver application has already been submitted''), w)
          else if da_status existing = DriverApplicationStatus.REJECTED
          then update_application (da_id existing) (restarted now) w
          else (Inr existing, w))"

definition with_personal_info :: "int \<Rightarrow> SubmitPersonalInfoDto \<Rightarrow> DriverApplication \<Rightarrow> DriverApplication" where
  "with_personal_info now dto a =
     a\<lparr>da_fullLegalName := Some (spi_fullLegalName dto),
       da_dateOfBirth := Some (spi_dateOfBirth dto),
       da_residentialAddress := Some (spi_residentialAddress dto),
       da_status := PERSONAL_INFO_SUBMITTED, da_updatedAt := now\<rparr>"

definition submitPersonalInfo ::
  "int \<Rightarrow> string \<Rightarrow> SubmitPersonalInfoDto \<Rightarrow> world \<Rightarrow> DriverApplication result" where
  "submitPersonalInfo now userId dto w =
     (case loadEditable userId w of
        Inl e \<Rightarrow> (Inl e, w)
      | Inr a \<Rightarrow> update_application (da_id a) (with_personal_info now dto) w)"

definition with_license :: "int \<Rightarrow> SubmitLicenseDto \<Rightarrow> DriverApplication \<Rightarrow> DriverApplication" where
  "with_license now dto a =
     a\<lparr>da_licenseNumber := Some (sl_licenseNumber dto),
       da_licenseExpiryDate := Some (sl_licenseExpiryDate dto),
       da_status := LICENSE_SUBMITTED, da_updatedAt := now\<rparr>"

definition submitLicense ::
  "(string \<Rightarrow> bool) \<Rightarrow> string \<Rightarrow> string \<Rightarrow> string \<Rightarrow> int \<Rightarrow> string \<Rightarrow> SubmitLicenseDto \<Rightarrow>
   UploadableFile \<Rightarrow> world \<Rightarrow> DriverApplication result" where
  "submitLicense io baseDir newId uuid now userId dto licenseImage w =
     (case loadEditable userId w of
        Inl e \<Rightarrow> (Inl e, w)
      | Inr a \<Rightarrow>
          (case upload_document io baseDir newId uuid now (da_id a) DRIVERS_LICENSE licenseImage w of
             (Inl e, w1) \<Rightarrow> (Inl e, w1)
           | (Inr _, w1) \<Rightarrow> update_application (da_id a) (with_license now dto) w1))"

text \<open>The loop of \<open>submitVehicle\<close>: an upload that throws ends it.\<close>

fun upload_all ::
  "(string \<Rightarrow> bool) \<Rightarrow> string \<Rightarrow> int \<Rightarrow> string \<Rightarrow>
   ((DriverDocumentType \<times> UploadableFile) \<times> string \<times> string) list \<Rightarrow> world \<Rightarrow> unit result" where
  "upload_all io baseDir now applicationId [] w = (Inr (), w)"
| "upload_all io baseDir now applicationId (((type, file), newId, uuid) # files) w =
     (case upload_document io baseDir newId uuid now applicationId type file w of
        (Inl e, w1) \<Rightarrow> (Inl e, w1)
      | (Inr _, w1) \<Rightarrow> upload_all io baseDir now applicationId files w1)"

fun join_comma :: "string list \<Rightarrow> string" where
  "join_comma [] = []"
| "join_comma [s] = s"
| "join_comma (s # ss) = s @ '', '' @ join_comma ss"

definition missing_types :: "string \<Rightarrow> world \<Rightarrow> DriverDocumentType list" where
  "missing_types applicationId w =
     filter (\<lambda>t. t \<notin> uploadedTypes applicationId w) REQUIRED_DOCUMENT_TYPES"

definition with_vehicle :: "int \<Rightarrow> SubmitVehicleDto \<Rightarrow> DriverApplication \<Rightarrow> DriverApplication" where
  "with_vehicle now dto a =
     a\<lparr>da_vehicleMake := Some (sv_vehicleMake dto), da_vehicleModel := Some (sv_vehicleModel dto),
       da_vehicleYear := Some (sv_vehicleYear dto), da_vehicleColor := Some (sv_vehicleColor dto),
       da_plateNumber := Some (sv_plateNumber dto),
       da_registrationExpiryDate := Some (sv_registrationExpiryDate dto),
       da_status := UNDER_REVIEW, da_submittedAt := Some now, da_updatedAt := now\<rparr>"

definition submitVehicle ::
  "(string \<Rightarrow> bool) \<Rightarrow> string \<Rightarrow> int \<Rightarrow> string \<Rightarrow> SubmitVehicleDto \<Rightarrow>
   ((DriverDocumentType \<times> UploadableFile) \<times> string \<times> string) list \<Rightarrow> world \<Rightarrow>
   DriverApplication result" where
  "submitVehicle io baseDir now userId dto files w =
     (case loadEditable userId w of
        Inl e \<Rightarrow> (Inl e, w)
      | Inr a \<Rightarrow>
          (case assertPlateNumberAvailable (sv_plateNumber dto) (da_id a) w of
             Inl e \<Rightarrow> (Inl e, w)
           | Inr _ \<Rightarrow>
               (case upload_all io baseDir now (da_id a) files w of
                  (Inl e, w1) \<Rightarrow> (Inl e, w1)
                | (Inr _, w1) \<Rightarrow>
                    if missing_types (da_id a) w1 \<noteq> []
                    then (Inl (BadRequestException
                            (''Missing required document(s): '' @
                             join_comma (map document_type_name (missing_types (da_id a) w1)))), w1)
                    else update_application (da_id a) (with_vehicle now dto) w1)))"

definition uploadOptionalDocument ::
  "(string \<Rightarrow> bool) \<Rightarrow> string \<Rightarrow> string \<Rightarrow> string \<Rightarrow> int \<Rightarrow> string \<Rightarrow> DriverDocumentType \<Rightarrow>
   UploadableFile \<Rightarrow> world \<Rightarrow> DriverDocumentResponse result" where
  "uploadOptionalDocument io baseDir newId uuid now userId type file w =
     (if type \<notin> set OPTIONAL_DOCUMENT_TYPES
      then (Inl (BadRequestException
              (document_type_name type @
               '' is submitted as part of the application steps, not here'')), w)
      else
        (case application_findByUserId userId w of
           Inl e \<Rightarrow> (Inl e, w)
         | Inr a \<Rightarrow> upload_document io baseDir newId uuid now (da_id a) type file w))"

definition getApplicationStatus :: "string \<Rightarrow> world \<Rightarrow> error + DriverApplicationStatusResponse" where
  "getApplicationStatus userId w =
     (case application_findByUserId userId w of
        Inl e \<Rightarrow> Inl e
      | Inr a \<Rightarrow>
          Inr \<lparr>dasr_status = da_status a, dasr_currentStep = RESUME_STEP (da_status a),
               dasr_rejectionReason = da_rejectionReason a\<rparr>)"

definition listOwnDocuments :: "string \<Rightarrow> world \<Rightarrow> error + DriverDocumentResponse list" where
  "listOwnDocuments userId w =
     (case application_findByUserId userId w of
        Inl e \<Rightarrow> Inl e
      | Inr a \<Rightarrow> Inr (listForApplication (da_id a) w))"

subsection \<open>Review\<close>

text \<open>In ascending order Postgres sorts the rows without a submission time last.\<close>

definition listForReview :: "DriverApplicationStatus \<Rightarrow> world \<Rightarrow> DriverApplication list" where
  "listForReview status w =
     (let found = filter (\<lambda>a. da_status a = status) (driverApplications w)
      in sort_key (\<lambda>a. the (da_submittedAt a)) (filter (\<lambda>a. da_submittedAt a \<noteq> None) found) @
         filter (\<lambda>a. da_submittedAt a = None) found)"

definition listDocumentsForApplication :: "string \<Rightarrow> world \<Rightarrow> error + DriverDocumentResponse list" where
  "listDocumentsForApplication applicationId w =
     (case application_findById applicationId w of
        Inl e \<Rightarrow> Inl e
      | Inr _ \<Rightarrow> Inr (listForApplication applicationId w))"

definition rejected_application :: "int \<Rightarrow> string option \<Rightarrow> DriverApplication \<Rightarrow> DriverApplication" where
  "rejected_application now reason a =
     a\<lparr>da_status := DriverApplicationStatus.REJECTED,
       da_rejectionReason := (case reason of None \<Rightarrow> da_rejectionReason a | Some r \<Rightarrow> Some r),
       da_reviewedAt := Some now, da_updatedAt := now\<rparr>"

definition verified_application :: "int \<Rightarrow> DriverApplication \<Rightarrow> DriverApplication" where
  "verified_application now a =
     a\<lparr>da_status := VERIFIED, da_rejectionReason := None, da_reviewedAt := Some now,
       da_updatedAt := now\<rparr>"

definition new_profile :: "string \<Rightarrow> DriverApplication \<Rightarrow> DriverProfile" where
  "new_profile newId a =
     \<lparr>dp_id = newId, dp_userId = da_userId a, dp_driverApplicationId = da_id a, dp_isOnline = False,
      dp_currentLat = None, dp_currentLng = None, dp_locationUpdatedAt = None\<rparr>"

definition approve_commit ::
  "string \<Rightarrow> int \<Rightarrow> DriverApplication \<Rightarrow> world \<Rightarrow> error + world" where
  "approve_commit newId now a =
     transaction
       [driverApplication_update (da_id a) (verified_application now),
        driverProfile_create (new_profile newId a)]"

definition reviewApplication ::
  "string \<Rightarrow> int \<Rightarrow> string \<Rightarrow> ReviewApplicationDto \<Rightarrow> world \<Rightarrow> DriverApplication result" where
  "reviewApplication newId now applicationId dto w =
     (case application_findById applicationId w of
        Inl e \<Rightarrow> (Inl e, w)
      | Inr a \<Rightarrow>
          if da_status a \<noteq> UNDER_REVIEW
          then (Inl (ConflictException
                  (''Only applications under review can be reviewed (this one is '' @
                   application_status_name (da_status a) @ '')'')), w)
          else if rad_decision dto = DriverApplicationStatus.REJECTED
          then update_application (da_id a) (rejected_application now (rad_rejectionReason dto)) w
          else
            (case approve_commit newId now a w of
               Inl e \<Rightarrow> (Inl e, w)
             | Inr w' \<Rightarrow>
                 (case lookup da_id (da_id a) (driverApplications w') of
                    None \<Rightarrow> (Inl (PrismaError P2025), w')
                  | Some verified \<Rightarrow> (Inr verified, w'))))"

lemmas application_ops [op_defs] =
  application_findByUserId_def application_findById_def loadEditable_def
  assertPlateNumberAvailable_def update_application_def startApplication_def
  submitPersonalInfo_def submitLicense_def submitVehicle_def uploadOptionalDocument_def
  approve_commit_def reviewApplication_def

subsection \<open>The invariant of the onboarding\<close>

definition plates_ok :: "DriverApplication list \<Rightarrow> bool" where
  "plates_ok as \<longleftrightarrow>
     (\<forall>a \<in> set as. \<forall>b \<in> set as. da_plateNumber a \<noteq> None \<longrightarrow> da_plateNumber a = da_plateNumber b \<longrightarrow> a = b)"

text \<open>What a submitted application has behind it.\<close>

definition submission_complete :: "world \<Rightarrow> DriverApplication \<Rightarrow> bool" where
  "submission_complete w a \<longleftrightarrow>
     set REQUIRED_DOCUMENT_TYPES \<subseteq> uploadedTypes (da_id a) w \<and>
     da_plateNumber a \<noteq> None \<and> da_submittedAt a \<noteq> None"

text \<open>A driver profile is a verified application, one for one.\<close>

definition profile_links :: "world \<Rightarrow> (string \<times> string) set" where
  "profile_links w = (\<lambda>p. (dp_driverApplicationId p, dp_userId p)) ` set (driverProfiles w)"

definition verified_links :: "world \<Rightarrow> (string \<times> string) set" where
  "verified_links w =
     (\<lambda>a. (da_id a, da_userId a)) ` {a \<in> set (driverApplications w). da_status a = VERIFIED}"

definition onboarding_inv :: "world \<Rightarrow> bool" where
  "onboarding_inv w \<longleftrightarrow>
     unique_on da_id (driverApplications w) \<and> unique_on da_userId (driverApplications w) \<and>
     plates_ok (driverApplications w) \<and>
     (\<forall>a \<in> set (driverApplications w). da_status a \<noteq> VEHICLE_SUBMITTED) \<and>
     (\<forall>a \<in> set (driverApplications w).
        da_status a = UNDER_REVIEW \<or> da_status a = VERIFIED \<longrightarrow> submission_complete w a) \<and>
     profile_links w = verified_links w"

lemma onboarding_invD:
  assumes "onboarding_inv w"
  shows "unique_on da_id (driverApplications w)" "unique_on da_userId (driverApplications w)"
    "plates_ok (driverApplications w)"
    "a \<in> set (driverApplications w) \<Longrightarrow> da_status a \<noteq> VEHICLE_SUBMITTED"
    "a \<in> set (driverApplications w) \<Longrightarrow> da_status a = UNDER_REVIEW \<or> da_status a = VERIFIED \<Longrightarrow>
       submission_complete w a"
    "profile_links w = verified_links w"
  using assms unfolding onboarding_inv_def by blast+

lemma onboarding_inv_empty: "onboarding_inv empty_world"
  by (simp add: onboarding_inv_def empty_world_def plates_ok_def profile_links_def verified_links_def)

text \<open>Documents may be added, and whatever the onboarding does not read may change.\<close>

lemma onboarding_inv_frame:
  assumes "onboarding_inv w" "driverApplications w' = driverApplications w"
    and "profile_links w' = profile_links w" "\<And>a. uploadedTypes a w \<subseteq> uploadedTypes a w'"
  shows "onboarding_inv w'"
  using assms unfolding onboarding_inv_def submission_complete_def verified_links_def by fastforce

lemma onboarding_inv_same:
  assumes "onboarding_inv w" "driverApplications w' = driverApplications w"
    and "driverProfiles w' = driverProfiles w" "driverDocuments w' = driverDocuments w"
  shows "onboarding_inv w'"
  by (rule onboarding_inv_frame [OF assms(1,2)]) (simp_all add: profile_links_def uploadedTypes_def assms)

lemma onboarding_inv_upload:
  assumes "onboarding_inv w" "upload_document io b newId uuid now a t file w = (r, w')"
  shows "onboarding_inv w'"
proof (rule onboarding_inv_frame [OF assms(1)])
  have "frame_documents w w'" using upload_frame assms(2) by (metis snd_conv)
  then show "driverApplications w' = driverApplications w" "profile_links w' = profile_links w"
    by (simp_all add: frame_documents_def profile_links_def)
qed (rule upload_types(1) [OF assms(2)])

lemma onboarding_inv_created:
  assumes inv: "onboarding_inv w" and create: "driverApplication_create (new_application i now u) w = Inr w'"
  shows "onboarding_inv w'"
proof -
  let ?a = "new_application i now u"
  from create have w': "w' = w\<lparr>driverApplications := driverApplications w @ [?a]\<rparr>"
    and row: "create_row driverApplication_conflicts (user_exists (da_userId ?a) w) ?a (driverApplications w)
      = Inr (driverApplications w @ [?a])"
    by (auto simp: driverApplication_create_def on_table_Inr create_row_Inr)
  have fields: "da_plateNumber ?a = None" "da_status ?a = NOT_STARTED" by (simp_all add: new_application_def)
  note d = onboarding_invD [OF inv]
  have "unique_on da_id (driverApplications w')" "unique_on da_userId (driverApplications w')"
    using applications_id.unique_create [OF row d(1)] applications_user.unique_create [OF row d(2)]
    by (simp_all add: w')
  moreover have "plates_ok (driverApplications w')"
    unfolding plates_ok_def
  proof (intro ballI impI)
    fix x y assume "x \<in> set (driverApplications w')" "y \<in> set (driverApplications w')"
      and xy: "da_plateNumber x \<noteq> None" "da_plateNumber x = da_plateNumber y"
    then have "x \<in> set (driverApplications w)" "y \<in> set (driverApplications w)"
      using fields(1) by (auto simp: w')
    with d(3) xy show "x = y" by (simp add: plates_ok_def)
  qed
  moreover have "submission_complete w' = submission_complete w"
    by (simp add: fun_eq_iff submission_complete_def uploadedTypes_def w')
  moreover have "verified_links w' = verified_links w" "profile_links w' = profile_links w"
    using fields by (auto simp: verified_links_def profile_links_def w')
  ultimately show ?thesis using d(4-6) fields unfolding onboarding_inv_def by (auto simp: w')
qed

lemma driverApplication_update_Inr:
  assumes "driverApplication_update i f w = Inr w'"
  shows "w' = w\<lparr>driverApplications := update_where (\<lambda>a. da_id a = i) f (driverApplications w)\<rparr>"
    and "lookup da_id i (driverApplications w) = Some a \<Longrightarrow> x \<in> set (driverApplications w) \<Longrightarrow>
      da_id x \<noteq> i \<Longrightarrow> \<not> driverApplication_conflicts (f a) x"
  using assms
  by (auto simp: driverApplication_update_def on_table_Inr update_row_def lookup_def list_ex_iff
      split: option.splits if_splits)

lemma update_application_world:
  assumes "update_application i f w = (r, w')"
  shows "w' = w \<or> driverApplication_update i f w = Inr w'"
  using assms by (auto simp: update_application_def split: sum.splits option.splits)

text \<open>Writing the row of one key.\<close>

lemma in_update_row:
  assumes "unique_on key t" "a \<in> set t" "key a = i"
  shows "x \<in> set (update_where (\<lambda>x. key x = i) f t) \<longleftrightarrow> x = f a \<or> (x \<in> set t \<and> key x \<noteq> i)"
proof -
  have "y = a" if "y \<in> set t" "key y = i" for y using assms that by (metis unique_on_eq)
  then have "x \<in> set (update_where (\<lambda>x. key x = i) f t) \<Longrightarrow> x = f a \<or> (x \<in> set t \<and> key x \<noteq> i)"
    by (auto elim!: in_update_whereE)
  moreover have "f a \<in> set (update_where (\<lambda>x. key x = i) f t)"
    by (rule in_update_where_changed) (use assms in auto)
  ultimately show ?thesis by (auto intro: in_update_where_same)
qed

lemma plates_ok_update:
  assumes ok: "plates_ok as" and key: "unique_on da_id as" "a \<in> set as" "da_id a = i"
    and plate: "\<And>x. x \<in> set as \<Longrightarrow> da_id x \<noteq> i \<Longrightarrow> da_plateNumber (f a) \<noteq> None \<Longrightarrow>
      da_plateNumber (f a) \<noteq> da_plateNumber x"
  shows "plates_ok (update_where (\<lambda>x. da_id x = i) f as)"
  unfolding plates_ok_def
proof (intro ballI impI)
  fix x y assume "x \<in> set (update_where (\<lambda>x. da_id x = i) f as)"
    and "y \<in> set (update_where (\<lambda>x. da_id x = i) f as)"
    and xy: "da_plateNumber x \<noteq> None" "da_plateNumber x = da_plateNumber y"
  then have "x = f a \<or> x \<in> set as \<and> da_id x \<noteq> i" "y = f a \<or> y \<in> set as \<and> da_id y \<noteq> i"
    by (simp_all add: in_update_row [OF key])
  then show "x = y"
    using xy plate ok unfolding plates_ok_def by (elim disjE) metis+
qed

text \<open>A step that leaves an application unverified.\<close>

lemma onboarding_inv_update:
  assumes inv: "onboarding_inv w" and upd: "driverApplication_update i f w = Inr w'"
    and a: "lookup da_id i (driverApplications w) = Some a" "da_status a \<noteq> VERIFIED"
    and keep: "\<And>x. da_id (f x) = da_id x" "\<And>x. da_userId (f x) = da_userId x"
    and st: "da_status (f a) \<noteq> VERIFIED" "da_status (f a) \<noteq> VEHICLE_SUBMITTED"
    and complete: "da_status (f a) = UNDER_REVIEW \<Longrightarrow> submission_complete w (f a)"
  shows "onboarding_inv w'"
proof -
  note w' = driverApplication_update_Inr(1) [OF upd]
  note d = onboarding_invD [OF inv]
  have a': "a \<in> set (driverApplications w)" "da_id a = i" using a by (auto dest: lookup_SomeD)
  have rows: "x \<in> set (driverApplications w') \<longleftrightarrow>
      x = f a \<or> (x \<in> set (driverApplications w) \<and> da_id x \<noteq> i)" for x
    using in_update_row [OF d(1) a'] by (simp add: w')
  have only: "da_id x = i \<longleftrightarrow> x = a" if "x \<in> set (driverApplications w)" for x
    using that a' d(1) by (auto dest: unique_on_eq)
  have plate: "x \<in> set (driverApplications w) \<Longrightarrow> da_id x \<noteq> i \<Longrightarrow> da_plateNumber (f a) \<noteq> None \<Longrightarrow>
      da_plateNumber (f a) \<noteq> da_plateNumber x" for x
    using driverApplication_update_Inr(2) [OF upd a(1), of x] by (auto simp: driverApplication_conflicts_def)
  have "unique_on da_id (driverApplications w')" "unique_on da_userId (driverApplications w')"
    using d(1,2) keep by (simp_all add: w' unique_on_update_where)
  moreover have "plates_ok (driverApplications w')"
    using plates_ok_update [where f = f and a = a, OF d(3,1) a' plate] by (simp add: w')
  moreover have "submission_complete w' = submission_complete w"
    by (simp add: fun_eq_iff submission_complete_def uploadedTypes_def w')
  moreover have "verified_links w' = verified_links w"
    using st a a' only unfolding verified_links_def rows by (auto simp: image_iff)
  moreover have "profile_links w' = profile_links w" by (simp add: profile_links_def w')
  ultimately show ?thesis
    using d(4-6) st complete by (auto simp: onboarding_inv_def rows)
qed

lemma onboarding_inv_approve:
  assumes inv: "onboarding_inv w" and commit: "approve_commit newId now a w = Inr w'"
    and a: "a \<in> set (driverApplications w)" "da_status a = UNDER_REVIEW"
  shows "onboarding_inv w'"
proof -
  let ?f = "verified_application now"
  from commit obtain w1 where upd: "driverApplication_update (da_id a) ?f w = Inr w1"
    and prof: "w' = w1\<lparr>driverProfiles := driverProfiles w1 @ [new_profile newId a]\<rparr>"
    by (auto simp: approve_commit_def driverProfile_create_def on_table_Inr create_row_Inr split: sum.splits)
  note w1 = driverApplication_update_Inr(1) [OF upd]
  note d = onboarding_invD [OF inv]
  have f: "da_id (?f x) = da_id x" "da_userId (?f x) = da_userId x" "da_plateNumber (?f x) = da_plateNumber x"
    "da_status (?f x) = VERIFIED" "da_submittedAt (?f x) = da_submittedAt x" for x
    by (simp_all add: verified_application_def)
  have apps: "driverApplications w' = update_where (\<lambda>x. da_id x = da_id a) ?f (driverApplications w)"
    by (simp add: prof w1)
  have rows: "x \<in> set (driverApplications w') \<longleftrightarrow>
      x = ?f a \<or> (x \<in> set (driverApplications w) \<and> da_id x \<noteq> da_id a)" for x
    using in_update_row [OF d(1) a(1) refl] by (simp add: apps)
  have only: "da_id x = da_id a \<longleftrightarrow> x = a" if "x \<in> set (driverApplications w)" for x
    using that a d(1) by (auto dest: unique_on_eq)
  have "unique_on da_id (driverApplications w')" "unique_on da_userId (driverApplications w')"
    using d(1,2) by (simp_all add: apps unique_on_update_where f)
  moreover have "plates_ok (driverApplications w')"
    unfolding apps
  proof (rule plates_ok_update [OF d(3,1) a(1) refl])
    fix x assume "x \<in> set (driverApplications w)" "da_id x \<noteq> da_id a" "da_plateNumber (?f a) \<noteq> None"
    with d(3) a(1) show "da_plateNumber (?f a) \<noteq> da_plateNumber x" by (auto simp: plates_ok_def f)
  qed
  moreover have complete: "submission_complete w' (?f x) = submission_complete w x"
    "submission_complete w' x = submission_complete w x" for x
    by (simp_all add: submission_complete_def uploadedTypes_def prof w1 f)
  moreover have "verified_links w' = insert (da_id a, da_userId a) (verified_links w)"
  proof -
    have "{x \<in> set (driverApplications w'). da_status x = VERIFIED}
        = insert (?f a) {x \<in> set (driverApplications w). da_status x = VERIFIED}"
      using a only by (auto simp: rows f)
    then show ?thesis by (simp add: verified_links_def f)
  qed
  moreover have "profile_links w' = insert (da_id a, da_userId a) (profile_links w)"
    by (auto simp: profile_links_def prof w1 new_profile_def)
  ultimately show ?thesis
    using d(4-6) a f by (auto simp: onboarding_inv_def rows)
qed

subsection \<open>Every operation keeps the invariant\<close>

lemma onboarding_inv_snd: "(\<And>r v. p = (r, v) \<Longrightarrow> onboarding_inv v) \<Longrightarrow> onboarding_inv (snd p)"
  by (cases p) simp

lemma loadEditable_Inr:
  assumes "loadEditable u w = Inr a"
  shows "lookup da_userId u (driverApplications w) = Some a"
    and "da_status a \<noteq> UNDER_REVIEW" "da_status a \<noteq> VERIFIED"
    and "da_status a \<noteq> DriverApplicationStatus.REJECTED"
  using assms by (auto simp: loadEditable_def application_findByUserId_def
      split: option.splits if_splits)

lemma application_by_id:
  assumes "onboarding_inv w" "a \<in> set (driverApplications w)"
  shows "lookup da_id (da_id a) (driverApplications w) = Some a"
  using assms by (auto simp: onboarding_inv_def lookup_Some_iff)

lemma onboarding_inv_update_application:
  assumes inv: "onboarding_inv w" and upd: "update_application (da_id a) f w = (r, w')"
    and a: "a \<in> set (driverApplications w)" "da_status a \<noteq> VERIFIED"
    and keep: "\<And>x. da_id (f x) = da_id x" "\<And>x. da_userId (f x) = da_userId x"
    and st: "da_status (f a) \<noteq> VERIFIED" "da_status (f a) \<noteq> VEHICLE_SUBMITTED"
    and complete: "da_status (f a) = UNDER_REVIEW \<Longrightarrow> submission_complete w (f a)"
  shows "onboarding_inv w'"
  using update_application_world [OF upd] inv
    onboarding_inv_update [OF inv _ application_by_id [OF inv a(1)] a(2) keep st complete]
  by blast

lemma step_fields [simp]:
  "da_id (restarted now a) = da_id a" "da_userId (restarted now a) = da_userId a"
  "da_status (restarted now a) = NOT_STARTED"
  "da_id (with_personal_info now pd a) = da_id a" "da_userId (with_personal_info now pd a) = da_userId a"
  "da_status (with_personal_info now pd a) = PERSONAL_INFO_SUBMITTED"
  "da_id (with_license now l a) = da_id a" "da_userId (with_license now l a) = da_userId a"
  "da_status (with_license now l a) = LICENSE_SUBMITTED"
  "da_id (with_vehicle now v a) = da_id a" "da_userId (with_vehicle now v a) = da_userId a"
  "da_status (with_vehicle now v a) = UNDER_REVIEW"
  "da_plateNumber (with_vehicle now v a) = Some (sv_plateNumber v)"
  "da_submittedAt (with_vehicle now v a) = Some now"
  "da_id (rejected_application now rs a) = da_id a"
  "da_userId (rejected_application now rs a) = da_userId a"
  "da_status (rejected_application now rs a) = DriverApplicationStatus.REJECTED"
  "da_id (verified_application now a) = da_id a"
  "da_userId (verified_application now a) = da_userId a"
  "da_status (verified_application now a) = VERIFIED"
  by (simp_all add: restarted_def with_personal_info_def with_license_def with_vehicle_def
      rejected_application_def verified_application_def)

lemma onboarding_inv_startApplication:
  assumes "onboarding_inv w"
  shows "onboarding_inv (snd (startApplication newId now u w))"
proof -
  have "onboarding_inv w'" if "lookup da_userId u (driverApplications w) = Some a"
    "da_status a \<noteq> VERIFIED" "update_application (da_id a) (restarted now) w = (r, w')" for a r w'
    by (rule onboarding_inv_update_application [OF assms that(3)]) (use that in \<open>auto dest: lookup_SomeD\<close>)
  then show ?thesis using assms
    by (auto simp: startApplication_def split: option.splits sum.splits
        intro: onboarding_inv_created intro!: onboarding_inv_snd)
     
qed

lemma onboarding_inv_submitPersonalInfo:
  assumes "onboarding_inv w"
  shows "onboarding_inv (snd (submitPersonalInfo now u dto w))"
proof -
  have "onboarding_inv w'" if "loadEditable u w = Inr a"
    "update_application (da_id a) (with_personal_info now dto) w = (r, w')" for a r w'
    by (rule onboarding_inv_update_application [OF assms that(2)])
      (use loadEditable_Inr [OF that(1)] in \<open>auto dest: lookup_SomeD\<close>)
  then show ?thesis using assms
    by (auto simp: submitPersonalInfo_def split: sum.splits intro!: onboarding_inv_snd)
qed

lemma upload_applications:
  assumes "upload_document io b newId uuid now a t fl w = (r, w')"
  shows "driverApplications w' = driverApplications w"
  using upload_frame [of w io b newId uuid now a t fl] assms by (simp add: frame_documents_def)

lemma onboarding_inv_submitLicense:
  assumes "onboarding_inv w"
  shows "onboarding_inv (snd (submitLicense io b newId uuid now u dto fl w))"
proof -
  have "onboarding_inv w'" if load: "loadEditable u w = Inr a"
    and up: "upload_document io b newId uuid now (da_id a) DRIVERS_LICENSE fl w = (r1, w1)"
    and upd: "update_application (da_id a) (with_license now dto) w1 = (r, w')" for a r1 w1 r w'
    by (rule onboarding_inv_update_application [OF onboarding_inv_upload [OF assms up] upd])
      (use loadEditable_Inr [OF load] upload_applications [OF up] in \<open>auto dest: lookup_SomeD\<close>)
  moreover have "onboarding_inv w1"
    if "upload_document io b newId uuid now i DRIVERS_LICENSE fl w = (r1, w1)" for i r1 w1
    by (rule onboarding_inv_upload [OF assms that])
  ultimately show ?thesis using assms
    by (auto simp: submitLicense_def split: sum.splits prod.splits intro!: onboarding_inv_snd)
qed

lemma upload_all_keeps:
  assumes "upload_all io b now a files w = (r, w')"
  shows "driverApplications w' = driverApplications w" "onboarding_inv w \<Longrightarrow> onboarding_inv w'"
proof -
  have "upload_all io b now a files w = (r, w') \<Longrightarrow>
      driverApplications w' = driverApplications w \<and> (onboarding_inv w \<longrightarrow> onboarding_inv w')"
  proof (induction io b now a files w arbitrary: r w' rule: upload_all.induct)
    case (2 io b now a t fl newId uuid files w)
    obtain r1 w1 where up: "upload_document io b newId uuid now a t fl w = (r1, w1)" by fastforce
    note keeps = upload_applications [OF up] onboarding_inv_upload [OF _ up]
    show ?case
    proof (cases r1)
      case (Inl e)
      with 2(2) up keeps show ?thesis by simp
    next
      case (Inr x)
      with 2(2) up have "upload_all io b now a files w1 = (r, w')" by simp
      with 2(1) [OF up [symmetric] Inr] keeps show ?thesis by auto
    qed
  qed simp
  with assms show "driverApplications w' = driverApplications w" "onboarding_inv w \<Longrightarrow> onboarding_inv w'"
    by blast+
qed

lemma onboarding_inv_submitVehicle:
  assumes "onboarding_inv w"
  shows "onboarding_inv (snd (submitVehicle io b now u dto files w))"
proof -
  have "onboarding_inv w'" if load: "loadEditable u w = Inr a"
    and up: "upload_all io b now (da_id a) files w = (r1, w1)" and none: "missing_types (da_id a) w1 = []"
    and upd: "update_application (da_id a) (with_vehicle now dto) w1 = (r, w')" for a r1 w1 r w'
  proof (rule onboarding_inv_update_application [OF upload_all_keeps(2) [OF up assms] upd])
    show "submission_complete w1 (with_vehicle now dto a)"
      using none by (auto simp: submission_complete_def missing_types_def filter_empty_conv)
  qed (use loadEditable_Inr [OF load] upload_all_keeps(1) [OF up] in \<open>auto dest: lookup_SomeD\<close>)
  moreover have "onboarding_inv w1" if "upload_all io b now i files w = (r1, w1)" for i r1 w1
    by (rule upload_all_keeps(2) [OF that assms])
  ultimately show ?thesis using assms
    by (auto simp: submitVehicle_def split: sum.splits prod.splits intro!: onboarding_inv_snd)
qed

lemma onboarding_inv_uploadOptionalDocument:
  assumes "onboarding_inv w"
  shows "onboarding_inv (snd (uploadOptionalDocument io b newId uuid now u t fl w))"
  using assms onboarding_inv_upload [OF assms]
  by (auto simp: uploadOptionalDocument_def split: sum.splits intro!: onboarding_inv_snd)

lemma onboarding_inv_reviewApplication:
  assumes "onboarding_inv w"
  shows "onboarding_inv (snd (reviewApplication newId now i dto w))"
proof -
  have found: "a \<in> set (driverApplications w)" if "application_findById i w = Inr a" for a
    using that by (auto simp: application_findById_def split: option.splits dest: lookup_SomeD)
  have "onboarding_inv w'" if a: "application_findById i w = Inr a" "da_status a = UNDER_REVIEW"
    and upd: "update_application (da_id a) (rejected_application now rs) w = (r, w')" for a r w' rs
    by (rule onboarding_inv_update_application [OF assms upd]) (use found [OF a(1)] a(2) in auto)
  moreover have "onboarding_inv w'" if "application_findById i w = Inr a" "da_status a = UNDER_REVIEW"
    "approve_commit newId now a w = Inr w'" for a w'
    by (rule onboarding_inv_approve [OF assms that(3) found [OF that(1)] that(2)])
  ultimately show ?thesis using assms
    by (auto simp: reviewApplication_def split: sum.splits option.splits intro!: onboarding_inv_snd)
qed

end
