(* ===== verification/Auth.thy ===== *)
theory Auth
  imports Users
begin

section \<open>Auth: accounts, sessions and password reset\<close>

text \<open>
  Models \<open>auth/auth.service.ts\<close>, \<open>auth/strategies/jwt.strategy.ts\<close>, \<open>common/sms\<close> and
  \<open>maintenance/token-cleanup.service.ts\<close>. bcrypt, SHA-256 and the JWT signature are the record
  \<open>crypto\<close>, a parameter; the salt, the refresh token, the reset code and the row identifiers are
  the randomness an operation draws, and come as arguments. The durations of the configuration are
  milliseconds (what \<open>ms\<close> makes of them), except the text a message quotes.
\<close>

record crypto =
  bcrypt_hash :: "string \<Rightarrow> string \<Rightarrow> string" \<comment> \<open>salt, password\<close>
  bcrypt_compare :: "string \<Rightarrow> string \<Rightarrow> bool"
  sha256_hex :: "string \<Rightarrow> string"
  jwt_sign :: "string \<Rightarrow> Role \<Rightarrow> string"

record RegisterDto =
  reg_name :: string
  reg_phone :: string
  reg_password :: string

record LoginDto =
  log_phone :: string
  log_password :: string

record ResetPasswordDto =
  rst_phone :: string
  rst_code :: string
  rst_newPassword :: string

record TokenPairResponse =
  tp_accessToken :: string
  tp_refreshToken :: string

record UserResponse =
  ur_id :: string
  ur_name :: string
  ur_phone :: string
  ur_role :: Role
  ur_activeProfile :: ActiveProfile
  ur_rating :: real
  ur_createdAt :: int

definition UserResponse_from :: "User \<Rightarrow> UserResponse" where
  "UserResponse_from u =
     \<lparr>ur_id = u_id u, ur_name = u_name u, ur_phone = u_phone u, ur_role = u_role u,
      ur_activeProfile = u_activeProfile u, ur_rating = u_rating u, ur_createdAt = u_createdAt u\<rparr>"

subsection \<open>Rows\<close>

definition refreshToken_create :: "RefreshToken \<Rightarrow> world \<Rightarrow> error + world" where
  "refreshToken_create t w =
     on_table refreshTokens (\<lambda>ts. refreshTokens_update (\<lambda>_. ts))
       (create_row refreshToken_conflicts (user_exists (rtk_userId t) w) t) w"

definition refreshToken_update ::
  "string \<Rightarrow> (RefreshToken \<Rightarrow> RefreshToken) \<Rightarrow> world \<Rightarrow> error + world" where
  "refreshToken_update i f =
     on_table refreshTokens (\<lambda>ts. refreshTokens_update (\<lambda>_. ts))
       (update_row refreshToken_conflicts (\<lambda>t. rtk_id t = i) f)"

definition refreshToken_updateMany ::
  "(RefreshToken \<Rightarrow> bool) \<Rightarrow> (RefreshToken \<Rightarrow> RefreshToken) \<Rightarrow> world \<Rightarrow> error + world" where
  "refreshToken_updateMany p f w = Inr (w\<lparr>refreshTokens := update_where p f (refreshTokens w)\<rparr>)"

definition passwordResetToken_create :: "PasswordResetToken \<Rightarrow> world \<Rightarrow> error + world" where
  "passwordResetToken_create t w =
     on_table passwordResetTokens (\<lambda>ts. passwordResetTokens_update (\<lambda>_. ts))
       (create_row passwordResetToken_conflicts (user_exists (prt_userId t) w) t) w"

definition passwordResetToken_update ::
  "string \<Rightarrow> (PasswordResetToken \<Rightarrow> PasswordResetToken) \<Rightarrow> world \<Rightarrow> error + world" where
  "passwordResetToken_update i f =
     on_table passwordResetTokens (\<lambda>ts. passwordResetTokens_update (\<lambda>_. ts))
       (update_row passwordResetToken_conflicts (\<lambda>t. prt_id t = i) f)"

definition passwordResetToken_updateMany ::
  "(PasswordResetToken \<Rightarrow> bool) \<Rightarrow> (PasswordResetToken \<Rightarrow> PasswordResetToken) \<Rightarrow> world \<Rightarrow>
   error + world" where
  "passwordResetToken_updateMany p f w =
     Inr (w\<lparr>passwordResetTokens := update_where p f (passwordResetTokens w)\<rparr>)"

lemmas token_accessors [row_defs] =
  refreshToken_create_def refreshToken_update_def refreshToken_updateMany_def
  passwordResetToken_create_def passwordResetToken_update_def passwordResetToken_updateMany_def

subsection \<open>Issuing a pair\<close>

definition new_refresh_token ::
  "crypto \<Rightarrow> int \<Rightarrow> string \<Rightarrow> string \<Rightarrow> int \<Rightarrow> string \<Rightarrow> RefreshToken" where
  "new_refresh_token c refreshTtl newId refreshToken now userId =
     \<lparr>rtk_id = newId, rtk_userId = userId, rtk_tokenHash = sha256_hex c refreshToken,
      rtk_expiresAt = now + refreshTtl, rtk_revokedAt = None, rtk_createdAt = now\<rparr>"

definition issueTokenPair ::
  "crypto \<Rightarrow> int \<Rightarrow> string \<Rightarrow> string \<Rightarrow> int \<Rightarrow> string \<Rightarrow> Role \<Rightarrow> world \<Rightarrow> TokenPairResponse result" where
  "issueTokenPair c refreshTtl newId refreshToken now userId role w =
     (case refreshToken_create (new_refresh_token c refreshTtl newId refreshToken now userId) w of
        Inl e \<Rightarrow> (Inl e, w)
      | Inr w' \<Rightarrow>
          (Inr \<lparr>tp_accessToken = jwt_sign c userId role, tp_refreshToken = refreshToken\<rparr>, w'))"

subsection \<open>register, login, me\<close>

definition new_user :: "string \<Rightarrow> int \<Rightarrow> string \<Rightarrow> RegisterDto \<Rightarrow> User" where
  "new_user newUserId now passwordHash dto =
     \<lparr>u_id = newUserId, u_name = reg_name dto, u_phone = reg_phone dto, u_password = passwordHash,
      u_role = USER, u_activeProfile = RIDER, u_rating = 5, u_createdAt = now\<rparr>"

definition register ::
  "crypto \<Rightarrow> int \<Rightarrow> string \<Rightarrow> string \<Rightarrow> string \<Rightarrow> string \<Rightarrow> int \<Rightarrow> RegisterDto \<Rightarrow> world \<Rightarrow>
   TokenPairResponse result" where
  "register c refreshTtl salt newUserId newId refreshToken now dto w =
     (case findByPhone (reg_phone dto) w of
        Some _ \<Rightarrow> (Inl (ConflictException ''Phone number already registered''), w)
      | None \<Rightarrow>
          (let user = new_user newUserId now (bcrypt_hash c salt (reg_password dto)) dto
           in case user_create user w of
                Inl e \<Rightarrow> (Inl e, w)
              | Inr w1 \<Rightarrow> issueTokenPair c refreshTtl newId refreshToken now (u_id user) (u_role user) w1))"

definition login ::
  "crypto \<Rightarrow> int \<Rightarrow> string \<Rightarrow> string \<Rightarrow> int \<Rightarrow> LoginDto \<Rightarrow> world \<Rightarrow> TokenPairResponse result" where
  "login c refreshTtl newId refreshToken now dto w =
     (case findByPhone (log_phone dto) w of
        None \<Rightarrow> (Inl (UnauthorizedException ''Invalid credentials''), w)
      | Some user \<Rightarrow>
          if \<not> bcrypt_compare c (log_password dto) (u_password user)
          then (Inl (UnauthorizedException ''Invalid credentials''), w)
          else issueTokenPair c refreshTtl newId refreshToken now (u_id user) (u_role user) w)"

definition me :: "string \<Rightarrow> world \<Rightarrow> error + UserResponse" where
  "me userId w =
     (case findById userId w of
        None \<Rightarrow> Inl (NotFoundException ''User not found'')
      | Some user \<Rightarrow> Inr (UserResponse_from user))"

subsection \<open>refresh and logout\<close>

definition refresh_load :: "crypto \<Rightarrow> int \<Rightarrow> string \<Rightarrow> world \<Rightarrow> error + RefreshToken" where
  "refresh_load c now refreshToken w =
     (case lookup rtk_tokenHash (sha256_hex c refreshToken) (refreshTokens w) of
        None \<Rightarrow> Inl (UnauthorizedException ''Invalid or expired refresh token'')
      | Some stored \<Rightarrow>
          if rtk_revokedAt stored \<noteq> None \<or> rtk_expiresAt stored < now
          then Inl (UnauthorizedException ''Invalid or expired refresh token'')
          else Inr stored)"

definition revoke :: "int \<Rightarrow> RefreshToken \<Rightarrow> RefreshToken" where
  "revoke now t = t\<lparr>rtk_revokedAt := Some now\<rparr>"

definition refresh_commit ::
  "crypto \<Rightarrow> int \<Rightarrow> string \<Rightarrow> string \<Rightarrow> int \<Rightarrow> RefreshToken \<Rightarrow> world \<Rightarrow> TokenPairResponse result" where
  "refresh_commit c refreshTtl newId newToken now stored w =
     (case refreshToken_update (rtk_id stored) (revoke now) w of
        Inl e \<Rightarrow> (Inl e, w)
      | Inr w1 \<Rightarrow>
          (case findById (rtk_userId stored) w1 of
             None \<Rightarrow> (Inl unauthorized, w1)
           | Some user \<Rightarrow>
               issueTokenPair c refreshTtl newId newToken now (u_id user) (u_role user) w1))"

definition refresh ::
  "crypto \<Rightarrow> int \<Rightarrow> string \<Rightarrow> string \<Rightarrow> int \<Rightarrow> string \<Rightarrow> world \<Rightarrow> TokenPairResponse result" where
  "refresh c refreshTtl newId newToken now refreshToken w =
     (case refresh_load c now refreshToken w of
        Inl e \<Rightarrow> (Inl e, w)
      | Inr stored \<Rightarrow> refresh_commit c refreshTtl newId newToken now stored w)"

definition logout :: "crypto \<Rightarrow> int \<Rightarrow> string \<Rightarrow> world \<Rightarrow> unit result" where
  "logout c now refreshToken w =
     (case refreshToken_updateMany
             (\<lambda>t. rtk_tokenHash t = sha256_hex c refreshToken \<and> rtk_revokedAt t = None)
             (revoke now) w of
        Inl e \<Rightarrow> (Inl e, w)
      | Inr w' \<Rightarrow> (Inr (), w'))"

subsection \<open>forgotPassword and resetPassword\<close>

definition sms_send :: "string \<Rightarrow> string \<Rightarrow> world \<Rightarrow> world" where
  "sms_send phone message w = w\<lparr>outbox := outbox w @ [(phone, message)]\<rparr>"

definition new_reset_token ::
  "crypto \<Rightarrow> int \<Rightarrow> string \<Rightarrow> string \<Rightarrow> int \<Rightarrow> string \<Rightarrow> PasswordResetToken" where
  "new_reset_token c codeTtl newId code now userId =
     \<lparr>prt_id = newId, prt_userId = userId, prt_codeHash = sha256_hex c code,
      prt_expiresAt = now + codeTtl, prt_usedAt = None, prt_createdAt = now\<rparr>"

definition outstanding :: "string \<Rightarrow> PasswordResetToken \<Rightarrow> bool" where
  "outstanding userId t \<longleftrightarrow> prt_userId t = userId \<and> prt_usedAt t = None"

definition forgotPassword ::
  "crypto \<Rightarrow> int \<Rightarrow> string \<Rightarrow> string \<Rightarrow> string \<Rightarrow> int \<Rightarrow> string \<Rightarrow> world \<Rightarrow> unit result" where
  "forgotPassword c codeTtl expiresIn newId code now phone w =
     (case findByPhone phone w of
        None \<Rightarrow> (Inr (), w)
      | Some user \<Rightarrow>
          (case transaction
                  [passwordResetToken_updateMany (outstanding (u_id user))
                     (\<lambda>t. t\<lparr>prt_usedAt := Some now\<rparr>),
                   passwordResetToken_create (new_reset_token c codeTtl newId code now (u_id user))] w of
             Inl e \<Rightarrow> (Inl e, w)
           | Inr w' \<Rightarrow>
               (Inr (),
                sms_send (u_phone user)
                  (''Your Reedr password reset code is '' @ code @ ''. It expires in '' @ expiresIn @ ''.'')
                  w')))"

definition redeemable :: "crypto \<Rightarrow> int \<Rightarrow> string \<Rightarrow> string \<Rightarrow> PasswordResetToken \<Rightarrow> bool" where
  "redeemable c now userId code t \<longleftrightarrow>
     prt_userId t = userId \<and> prt_codeHash t = sha256_hex c code \<and> prt_usedAt t = None \<and>
     now < prt_expiresAt t"

definition resetPassword ::
  "crypto \<Rightarrow> string \<Rightarrow> int \<Rightarrow> ResetPasswordDto \<Rightarrow> world \<Rightarrow> unit result" where
  "resetPassword c salt now dto w =
     (case findByPhone (rst_phone dto) w of
        None \<Rightarrow> (Inl (UnauthorizedException ''Invalid or expired reset code''), w)
      | Some user \<Rightarrow>
          (case find (redeemable c now (u_id user) (rst_code dto)) (passwordResetTokens w) of
             None \<Rightarrow> (Inl (UnauthorizedException ''Invalid or expired reset code''), w)
           | Some stored \<Rightarrow>
               (case transaction
                       [passwordResetToken_update (prt_id stored) (\<lambda>t. t\<lparr>prt_usedAt := Some now\<rparr>),
                        user_update (u_id user)
                          (\<lambda>u. u\<lparr>u_password := bcrypt_hash c salt (rst_newPassword dto)\<rparr>),
                        refreshToken_updateMany
                          (\<lambda>t. rtk_userId t = u_id user \<and> rtk_revokedAt t = None) (revoke now)] w of
                  Inl e \<Rightarrow> (Inl e, w)
                | Inr w' \<Rightarrow> (Inr (), w'))))"

subsection \<open>The nightly clean-up, and the JWT strategy\<close>

definition removeExpiredRefreshTokens :: "int \<Rightarrow> world \<Rightarrow> world" where
  "removeExpiredRefreshTokens now w =
     w\<lparr>refreshTokens := filter (\<lambda>t. \<not> rtk_expiresAt t < now) (refreshTokens w)\<rparr>"

record JwtPayload =
  jp_sub :: "string option"
  jp_role :: "Role option"

definition jwt_validate :: "JwtPayload \<Rightarrow> error + AuthenticatedUser" where
  "jwt_validate payload =
     (case (jp_sub payload, jp_role payload) of
        (Some sub, Some role) \<Rightarrow>
          if sub = [] then Inl unauthorized else Inr \<lparr>au_userId = sub, au_role = role\<rparr>
      | _ \<Rightarrow> Inl unauthorized)"

lemmas auth_ops [op_defs] =
  issueTokenPair_def register_def login_def me_def refresh_load_def refresh_commit_def refresh_def
  logout_def forgotPassword_def resetPassword_def removeExpiredRefreshTokens_def

subsection \<open>The invariant of the accounts\<close>

text \<open>At most one reset code of a user is outstanding.\<close>

definition codes_ok :: "PasswordResetToken list \<Rightarrow> bool" where
  "codes_ok ts \<longleftrightarrow>
     (\<forall>a \<in> set ts. \<forall>b \<in> set ts.
        prt_usedAt a = None \<longrightarrow> prt_usedAt b = None \<longrightarrow> prt_userId a = prt_userId b \<longrightarrow> a = b)"

definition accounts_inv :: "world \<Rightarrow> bool" where
  "accounts_inv w \<longleftrightarrow>
     unique_on u_id (users w) \<and> unique_on u_phone (users w) \<and>
     unique_on rtk_id (refreshTokens w) \<and> unique_on rtk_tokenHash (refreshTokens w) \<and>
     unique_on prt_id (passwordResetTokens w) \<and> codes_ok (passwordResetTokens w)"

lemma accounts_inv_empty: "accounts_inv empty_world"
  by (simp add: accounts_inv_def empty_world_def codes_ok_def)

lemma accounts_inv_frame:
  "accounts_inv w \<Longrightarrow> users w' = users w \<Longrightarrow> refreshTokens w' = refreshTokens w \<Longrightarrow>
     passwordResetTokens w' = passwordResetTokens w \<Longrightarrow> accounts_inv w'"
  by (simp add: accounts_inv_def)

lemma accounts_inv_user_update:
  assumes "accounts_inv w" "user_update i f w = Inr w'"
    and "\<And>u. u_id (f u) = u_id u" "\<And>u. u_phone (f u) = u_phone u"
  shows "accounts_inv w'"
  using assms by (auto simp: accounts_inv_def unique_on_update_where dest!: user_update_Inr)

lemma refreshToken_create_Inr:
  "refreshToken_create t w = Inr w' \<longleftrightarrow>
     create_row refreshToken_conflicts (user_exists (rtk_userId t) w) t (refreshTokens w)
       = Inr (refreshTokens w @ [t]) \<and> w' = w\<lparr>refreshTokens := refreshTokens w @ [t]\<rparr>"
  by (auto simp: refreshToken_create_def on_table_Inr create_row_Inr)

lemma refreshToken_update_Inr:
  "refreshToken_update i f w = Inr w' \<Longrightarrow>
     w' = w\<lparr>refreshTokens := update_where (\<lambda>t. rtk_id t = i) f (refreshTokens w)\<rparr>"
  by (auto simp: refreshToken_update_def on_table_Inr dest!: update_row_Inr)

lemma passwordResetToken_create_Inr:
  "passwordResetToken_create t w = Inr w' \<longleftrightarrow>
     create_row passwordResetToken_conflicts (user_exists (prt_userId t) w) t (passwordResetTokens w)
       = Inr (passwordResetTokens w @ [t]) \<and>
     w' = w\<lparr>passwordResetTokens := passwordResetTokens w @ [t]\<rparr>"
  by (auto simp: passwordResetToken_create_def on_table_Inr create_row_Inr)

lemma passwordResetToken_update_Inr:
  "passwordResetToken_update i f w = Inr w' \<Longrightarrow>
     w' = w\<lparr>passwordResetTokens := update_where (\<lambda>t. prt_id t = i) f (passwordResetTokens w)\<rparr>"
  by (auto simp: passwordResetToken_update_def on_table_Inr dest!: update_row_Inr)

lemma user_create_Inr:
  "user_create u w = Inr w' \<longleftrightarrow>
     create_row user_conflicts True u (users w) = Inr (users w @ [u]) \<and>
     w' = w\<lparr>users := users w @ [u]\<rparr>"
  by (auto simp: user_create_def on_table_Inr create_row_Inr)

lemma revoke_fields [simp]:
  "rtk_id (revoke now t) = rtk_id t" "rtk_tokenHash (revoke now t) = rtk_tokenHash t"
  "rtk_userId (revoke now t) = rtk_userId t" "rtk_revokedAt (revoke now t) = Some now"
  "rtk_expiresAt (revoke now t) = rtk_expiresAt t"
  by (simp_all add: revoke_def)

lemma accounts_inv_issue:
  assumes "accounts_inv w" "issueTokenPair c ttl i tok now u role w = (r, w')"
  shows "accounts_inv w'"
  using assms refreshTokens_id.unique_create refreshTokens_hash.unique_create
  by (fastforce simp: issueTokenPair_def refreshToken_create_Inr accounts_inv_def split: sum.splits)

lemma accounts_inv_register:
  assumes "accounts_inv w"
  shows "accounts_inv (snd (register c ttl salt ui i tok now dto w))"
proof -
  have "accounts_inv w1" if "user_create u w = Inr w1" for u w1
    using assms that users_id.unique_create users_phone.unique_create
    by (fastforce simp: user_create_Inr accounts_inv_def)
  then show ?thesis using assms
    by (auto simp: register_def Let_def split: option.splits sum.splits)
      (metis accounts_inv_issue prod.collapse)
qed

lemma accounts_inv_login:
  assumes "accounts_inv w"
  shows "accounts_inv (snd (login c ttl i tok now dto w))"
  using assms by (auto simp: login_def split: option.splits) (metis accounts_inv_issue prod.collapse)

lemma accounts_inv_revoke:
  "accounts_inv w \<Longrightarrow> accounts_inv (w\<lparr>refreshTokens := update_where p (revoke now) (refreshTokens w)\<rparr>)"
  by (simp add: accounts_inv_def unique_on_update_where)

lemma accounts_inv_refresh:
  assumes "accounts_inv w"
  shows "accounts_inv (snd (refresh c ttl i new now tok w))"
proof -
  have "accounts_inv w1" if "refreshToken_update j (revoke now) w = Inr w1" for j w1
    using assms that by (auto simp: accounts_inv_revoke dest!: refreshToken_update_Inr)
  then show ?thesis using assms
    by (auto simp: refresh_def refresh_commit_def split: option.splits sum.splits)
      (metis accounts_inv_issue prod.collapse)
qed

lemma accounts_inv_logout: "accounts_inv w \<Longrightarrow> accounts_inv (snd (logout c now tok w))"
  by (simp add: logout_def refreshToken_updateMany_def accounts_inv_revoke)

lemma accounts_inv_cleanup: "accounts_inv w \<Longrightarrow> accounts_inv (removeExpiredRefreshTokens now w)"
  by (simp add: accounts_inv_def removeExpiredRefreshTokens_def unique_on_def distinct_map_filter)

lemma codes_ok_use:
  assumes "codes_ok ts"
  shows "codes_ok (update_where p (\<lambda>t. t\<lparr>prt_usedAt := Some now\<rparr>) ts)"
proof -
  have "x \<in> set ts" if "x \<in> set (update_where p (\<lambda>t. t\<lparr>prt_usedAt := Some now\<rparr>) ts)" "prt_usedAt x = None" for x
    using that by (auto elim!: in_update_whereE)
  with assms show ?thesis unfolding codes_ok_def by blast
qed

lemma codes_ok_append:
  assumes ok: "codes_ok ts" and used: "\<And>x. x \<in> set ts \<Longrightarrow> prt_userId x = prt_userId t \<Longrightarrow> prt_usedAt x \<noteq> None"
  shows "codes_ok (ts @ [t])"
  unfolding codes_ok_def
proof (intro ballI impI)
  fix a b assume "a \<in> set (ts @ [t])" "b \<in> set (ts @ [t])" and ab: "prt_usedAt a = None"
    "prt_usedAt b = None" "prt_userId a = prt_userId b"
  then consider "a \<in> set ts" "b \<in> set ts" | "a = t" "b = t" | "a = t" "b \<in> set ts" | "a \<in> set ts" "b = t"
    by auto
  then show "a = b"
  proof cases
    case 1
    with ok ab show ?thesis by (simp add: codes_ok_def)
  next
    case 3
    with used [of b] ab show ?thesis by simp
  next
    case 4
    with used [of a] ab show ?thesis by simp
  qed simp
qed

lemma accounts_inv_forgotPassword:
  assumes "accounts_inv w"
  shows "accounts_inv (snd (forgotPassword c ttl ex i code now phone w))"
proof -
  let ?use = "\<lambda>t. t\<lparr>prt_usedAt := Some now\<rparr>"
  have "accounts_inv w'" if "transaction [passwordResetToken_updateMany (outstanding u) ?use,
      passwordResetToken_create (new_reset_token c ttl i code now u)] w = Inr w'" for u w'
  proof -
    let ?ts = "update_where (outstanding u) ?use (passwordResetTokens w)" and ?t = "new_reset_token c ttl i code now u"
    from that have w': "w' = w\<lparr>passwordResetTokens := ?ts @ [?t]\<rparr>"
      and row: "create_row passwordResetToken_conflicts
        (user_exists u (w\<lparr>passwordResetTokens := ?ts\<rparr>)) ?t ?ts = Inr (?ts @ [?t])"
      by (auto simp: passwordResetToken_updateMany_def passwordResetToken_create_Inr new_reset_token_def
          split: sum.splits)
    have "unique_on prt_id (?ts @ [?t])"
      using assms by (intro resetTokens_id.unique_create [OF row])
        (simp add: accounts_inv_def unique_on_update_where)
    moreover have "codes_ok (?ts @ [?t])"
    proof -
      have "prt_usedAt x \<noteq> None" if "x \<in> set ?ts" "prt_userId x = u" for x
        using that by (auto simp: outstanding_def elim!: in_update_whereE)
      moreover have "prt_userId ?t = u" by (simp add: new_reset_token_def)
      moreover have "codes_ok ?ts" using assms by (simp add: accounts_inv_def codes_ok_use)
      ultimately show ?thesis by (intro codes_ok_append) simp_all
    qed
    ultimately show ?thesis using assms by (simp add: accounts_inv_def w')
  qed
  then show ?thesis using assms
    by (auto simp: forgotPassword_def sms_send_def accounts_inv_def split: option.splits sum.splits)
qed

lemma resetPassword_commit:
  assumes "transaction
     [passwordResetToken_update j (\<lambda>t. t\<lparr>prt_usedAt := Some now\<rparr>),
      user_update u (\<lambda>x. x\<lparr>u_password := h\<rparr>),
      refreshToken_updateMany p (revoke now)] w = Inr w'"
  shows "w' = w\<lparr>passwordResetTokens := update_where (\<lambda>t. prt_id t = j) (\<lambda>t. t\<lparr>prt_usedAt := Some now\<rparr>)
        (passwordResetTokens w),
      users := update_where (\<lambda>x. u_id x = u) (\<lambda>x. x\<lparr>u_password := h\<rparr>) (users w),
      refreshTokens := update_where p (revoke now) (refreshTokens w)\<rparr>"
  using assms
  by (auto simp: refreshToken_updateMany_def split: sum.splits
      dest!: passwordResetToken_update_Inr user_update_Inr)

lemma accounts_inv_resetPassword:
  assumes "accounts_inv w"
  shows "accounts_inv (snd (resetPassword c salt now dto w))"
  using assms
  by (auto simp: resetPassword_def accounts_inv_def unique_on_update_where codes_ok_use
      split: option.splits sum.splits simp del: transaction.simps dest!: resetPassword_commit)

subsection \<open>What a session is worth\<close>

lemma find_SomeD: "find P xs = Some x \<Longrightarrow> x \<in> set xs \<and> P x"
  by (auto simp: find_Some_iff)

lemma issueTokenPair_Inr:
  assumes "issueTokenPair c ttl i tok now u role w = (Inr pair, w')"
  shows "w' = w\<lparr>refreshTokens := refreshTokens w @ [new_refresh_token c ttl i tok now u]\<rparr>"
    and "pair = \<lparr>tp_accessToken = jwt_sign c u role, tp_refreshToken = tok\<rparr>"
    and "lookup rtk_tokenHash (sha256_hex c tok) (refreshTokens w) = None"
proof -
  from assms have row: "create_row refreshToken_conflicts (user_exists u w)
      (new_refresh_token c ttl i tok now u) (refreshTokens w)
      = Inr (refreshTokens w @ [new_refresh_token c ttl i tok now u])"
    and "w' = w\<lparr>refreshTokens := refreshTokens w @ [new_refresh_token c ttl i tok now u]\<rparr>"
    and "pair = \<lparr>tp_accessToken = jwt_sign c u role, tp_refreshToken = tok\<rparr>"
    by (auto simp: issueTokenPair_def refreshToken_create_Inr new_refresh_token_def split: sum.splits)
  then show "w' = w\<lparr>refreshTokens := refreshTokens w @ [new_refresh_token c ttl i tok now u]\<rparr>"
    and "pair = \<lparr>tp_accessToken = jwt_sign c u role, tp_refreshToken = tok\<rparr>" by simp_all
  from refreshTokens_hash.created_key_fresh [OF row]
  show "lookup rtk_tokenHash (sha256_hex c tok) (refreshTokens w) = None"
    by (simp add: lookup_None_image new_refresh_token_def)
qed

text \<open>A pair that was issued refreshes until it expires.\<close>

lemma issued_refreshes:
  assumes "issueTokenPair c ttl i tok now u role w = (Inr pair, w')" "later \<le> now + ttl"
  shows "refresh_load c later tok w' = Inr (new_refresh_token c ttl i tok now u)"
  using issueTokenPair_Inr [OF assms(1)] assms(2)
  by (simp add: refresh_load_def lookup_append new_refresh_token_def)

lemma refresh_load_Inr:
  "refresh_load c now tok w = Inr s \<longleftrightarrow>
     lookup rtk_tokenHash (sha256_hex c tok) (refreshTokens w) = Some s \<and>
     rtk_revokedAt s = None \<and> now \<le> rtk_expiresAt s"
  by (auto simp: refresh_load_def split: option.splits if_splits)

lemma refresh_load_revoked:
  assumes "map_option rtk_revokedAt (lookup rtk_tokenHash (sha256_hex c tok) (refreshTokens w)) = Some (Some x)"
  shows "refresh_load c later tok w = Inl (UnauthorizedException ''Invalid or expired refresh token'')"
  using assms by (auto simp: refresh_load_def)

lemma refresh_commit_Inr:
  assumes "refresh_commit c ttl i new now s w = (Inr pair, w')"
  obtains u w1 where "w1 = w\<lparr>refreshTokens := update_where (\<lambda>t. rtk_id t = rtk_id s) (revoke now) (refreshTokens w)\<rparr>"
    "lookup u_id (rtk_userId s) (users w) = Some u"
    "issueTokenPair c ttl i new now (rtk_userId s) (u_role u) w1 = (Inr pair, w')"
proof -
  from assms obtain w1 u where "refreshToken_update (rtk_id s) (revoke now) w = Inr w1"
    and u: "findById (rtk_userId s) w1 = Some u"
    and issue: "issueTokenPair c ttl i new now (u_id u) (u_role u) w1 = (Inr pair, w')"
    by (auto simp: refresh_commit_def split: sum.splits option.splits)
  then have w1: "w1 = w\<lparr>refreshTokens := update_where (\<lambda>t. rtk_id t = rtk_id s) (revoke now) (refreshTokens w)\<rparr>"
    by (auto dest: refreshToken_update_Inr)
  moreover from u have "lookup u_id (rtk_userId s) (users w) = Some u" "u_id u = rtk_userId s"
    by (auto simp: findById_def w1 dest: lookup_SomeD)
  ultimately show thesis using that issue by metis
qed

end
