(* ===== verification/Calendar.thy ===== *)
theory Calendar
  imports Prelude
begin

section \<open>Calendar: the dates of the validators\<close>

text \<open>
  What the validation of an application uses of JavaScript's \<open>Date\<close>: \<open>getFullYear\<close> and
  \<open>setFullYear\<close>, by the algorithms of ECMAScript. A time is a number of milliseconds since 1970; the
  local time zone of the server is a constant offset \<open>tz\<close>.
\<close>

definition msPerDay :: int where "msPerDay = 86400000"

definition day_from_year :: "int \<Rightarrow> int" where
  "day_from_year y = 365 * (y - 1970) + (y - 1969) div 4 - (y - 1901) div 100 + (y - 1601) div 400"

definition leap_year :: "int \<Rightarrow> bool" where
  "leap_year y \<longleftrightarrow> y mod 4 = 0 \<and> (y mod 100 \<noteq> 0 \<or> y mod 400 = 0)"

text \<open>The year that contains a day: an estimate from the mean length of a year, off by one at most.\<close>

definition year_from_day :: "int \<Rightarrow> int" where
  "year_from_day d =
     (let y = 1970 + (400 * d) div 146097
      in if d < day_from_year y then y - 1 else if day_from_year (y + 1) \<le> d then y + 1 else y)"

definition month_table :: "int list" where
  "month_table = [0, 31, 59, 90, 120, 151, 181, 212, 243, 273, 304, 334]"

definition month_start :: "int \<Rightarrow> nat \<Rightarrow> int" where
  "month_start y m = month_table ! m + (if 2 \<le> m \<and> leap_year y then 1 else 0)"

definition month_of :: "int \<Rightarrow> int \<Rightarrow> nat" where
  "month_of y w = last (filter (\<lambda>m. month_start y m \<le> w) [0..<12])"

definition make_day :: "int \<Rightarrow> nat \<Rightarrow> int \<Rightarrow> int" where
  "make_day y m dt = day_from_year y + month_start y m + dt - 1"

text \<open>The calendar date of a day: year, month (January is 0) and day of the month.\<close>

definition date_of :: "int \<Rightarrow> int \<times> nat \<times> int" where
  "date_of d =
     (let y = year_from_day d; w = d - day_from_year y; m = month_of y w
      in (y, m, w - month_start y m + 1))"

definition local_day :: "int \<Rightarrow> int \<Rightarrow> int" where
  "local_day tz t = (t + tz) div msPerDay"

definition getFullYear :: "int \<Rightarrow> int \<Rightarrow> int" where
  "getFullYear tz t = year_from_day (local_day tz t)"

definition setFullYear :: "int \<Rightarrow> int \<Rightarrow> int \<Rightarrow> int" where
  "setFullYear tz y t =
     (case date_of (local_day tz t) of
        (_, m, dt) \<Rightarrow> make_day y m dt * msPerDay + (t + tz) mod msPerDay - tz)"

subsection \<open>Years\<close>

lemma div_next:
  fixes x n :: int
  assumes "0 < n"
  shows "(x + 1) div n = x div n + (if (x + 1) mod n = 0 then 1 else 0)"
proof -
  define q r where "q = x div n" and "r = x mod n"
  have x: "x + 1 = n * q + (r + 1)" and r: "0 \<le> r" "r < n"
    using assms by (simp_all add: q_def r_def)
  show ?thesis
  proof (cases "r + 1 = n")
    case True
    then have "x + 1 = n * (q + 1)" using x by (simp add: algebra_simps)
    then show ?thesis using assms unfolding q_def [symmetric] by simp
  next
    case False
    then have "(x + 1) div n = q" "(x + 1) mod n = r + 1"
      using r x by (auto simp: int_div_pos_eq int_mod_pos_eq)
    then show ?thesis using r unfolding q_def [symmetric] by simp
  qed
qed

lemma year_length: "day_from_year (y + 1) = day_from_year y + (if leap_year y then 366 else 365)"
proof -
  have shift: "(y + c * n) mod n = y mod n" for c n :: int by simp
  have "(y + 1 - 1969) div 4 = (y - 1969) div 4 + (if y mod 4 = 0 then 1 else 0)"
    using div_next [of 4 "y - 1969"] shift [of "-492" 4] by simp
  moreover have "(y + 1 - 1901) div 100 = (y - 1901) div 100 + (if y mod 100 = 0 then 1 else 0)"
    using div_next [of 100 "y - 1901"] shift [of "-19" 100] by simp
  moreover have "(y + 1 - 1601) div 400 = (y - 1601) div 400 + (if y mod 400 = 0 then 1 else 0)"
    using div_next [of 400 "y - 1601"] shift [of "-4" 400] by simp
  moreover have "day_from_year (y + 1) = day_from_year y + 365 + a - b + c"
    if "(y + 1 - 1969) div 4 = (y - 1969) div 4 + a" "(y + 1 - 1901) div 100 = (y - 1901) div 100 + b"
      "(y + 1 - 1601) div 400 = (y - 1601) div 400 + c" for a b c
    unfolding day_from_year_def that by simp
  ultimately have "day_from_year (y + 1) = day_from_year y + 365 + (if y mod 4 = 0 then 1 else 0)
      - (if y mod 100 = 0 then 1 else 0) + (if y mod 400 = 0 then 1 else 0)" by blast
  moreover have "y mod 400 = 0 \<longrightarrow> y mod 100 = 0" "y mod 100 = 0 \<longrightarrow> y mod 4 = 0"
    using dvd_trans [of 100 400 y] dvd_trans [of 4 100 y] by (simp_all add: mod_eq_0_iff_dvd)
  ultimately show ?thesis unfolding leap_year_def
    by (cases "y mod 4 = 0"; cases "y mod 100 = 0"; cases "y mod 400 = 0") simp_all
qed

lemma day_from_year_mono: "y < z \<Longrightarrow> day_from_year y + 365 \<le> day_from_year z"
proof (induction z rule: int_gr_induct)
  case base
  then show ?case by (simp add: year_length)
next
  case (step i)
  then show ?case using year_length [of i] by (auto split: if_splits)
qed

lemma year_from_day: "day_from_year (year_from_day d) \<le> d \<and> d < day_from_year (year_from_day d + 1)"
proof -
  define k where "k = (400 * d) div 146097"
  have bounds: "n * (q div n) \<le> q \<and> q < n * (q div n) + n" if "0 < n" for n q :: int
    using that pos_mod_sign [of n q] pos_mod_bound [of n q] mult_div_mod_eq [of n q] by linarith
  have k: "146097 * k \<le> 400 * d" "400 * d < 146097 * k + 146097"
    using bounds [of 146097 "400 * d"] unfolding k_def by simp_all
  have lo: "day_from_year (1969 + k) \<le> d"
    using k bounds [of 4 k] bounds [of 100 "68 + k"] bounds [of 400 "368 + k"]
    by (simp add: day_from_year_def)
  have hi: "d < day_from_year (1972 + k)"
    using k bounds [of 4 "3 + k"] bounds [of 100 "71 + k"] bounds [of 400 "371 + k"]
    by (simp add: day_from_year_def)
  show ?thesis
    using lo hi unfolding year_from_day_def Let_def k_def [symmetric] by (auto simp: algebra_simps)
qed

lemma day_from_year_le: "y \<le> z \<Longrightarrow> day_from_year y \<le> day_from_year z"
  using day_from_year_mono [of y z] by (cases "y = z") auto

lemma year_from_day_unique:
  assumes "day_from_year y \<le> d" "d < day_from_year (y + 1)"
  shows "year_from_day d = y"
proof (rule antisym)
  show "year_from_day d \<le> y"
    using assms(2) year_from_day [of d] day_from_year_le [of "y + 1" "year_from_day d"] by linarith
  show "y \<le> year_from_day d"
    using assms(1) year_from_day [of d] day_from_year_le [of "year_from_day d + 1" y] by linarith
qed

subsection \<open>Months\<close>

lemma sorted_le_last: "sorted xs \<Longrightarrow> (x :: nat) \<in> set xs \<Longrightarrow> x \<le> last xs"
  by (induction xs) auto

lemma month_of_props:
  assumes "0 \<le> w"
  shows "month_start y (month_of y w) \<le> w" "month_of y w < 12"
    and "m < 12 \<Longrightarrow> month_start y m \<le> w \<Longrightarrow> m \<le> month_of y w"
proof -
  let ?ms = "filter (\<lambda>m. month_start y m \<le> w) [0..<12]"
  have zero: "0 \<in> set ?ms" using assms by (simp add: month_start_def month_table_def)
  then have mem: "month_of y w \<in> set ?ms" unfolding month_of_def by (intro last_in_set) (metis empty_iff list.set(1))
  then show "month_start y (month_of y w) \<le> w" "month_of y w < 12" by simp_all
  assume "m < 12" "month_start y m \<le> w"
  then have "m \<in> set ?ms" by simp
  moreover have "sorted ?ms" by (intro sorted_wrt_filter) simp
  ultimately show "m \<le> month_of y w"
    unfolding month_of_def by (rule sorted_le_last [rotated])
qed

lemma month_start_2:
  assumes "2 \<le> m" "m < 12"
  shows "month_start y 2 \<le> month_start y m"
proof -
  have "sorted month_table" "length month_table = 12" by (simp_all add: month_table_def)
  then have "month_table ! 2 \<le> month_table ! m" using assms by (intro sorted_nth_mono) simp_all
  with assms show ?thesis by (simp add: month_start_def)
qed

lemma after_february: "0 \<le> w \<Longrightarrow> 2 \<le> month_of y w \<longleftrightarrow> 59 + (if leap_year y then 1 else 0) \<le> w"
  using month_of_props(1,2) [of w y] month_of_props(3) [of w 2 y] month_start_2 [of "month_of y w" y]
  by (auto simp: month_start_def [of y 2] month_table_def)

text \<open>Moving a day to another year: its day number in the year shifts by one at most, after February.\<close>

definition to_year :: "int \<Rightarrow> int \<Rightarrow> int" where
  "to_year z d =
     (let y = year_from_day d; w = d - day_from_year y
      in day_from_year z + w +
         (if w < 59 + (if leap_year y then 1 else 0) then 0
          else (if leap_year z then 1 else 0) - (if leap_year y then 1 else 0)))"

lemma make_day_to_year: "date_of d = (y, m, dt) \<Longrightarrow> make_day z m dt = to_year z d"
proof -
  assume date: "date_of d = (y, m, dt)"
  then have y: "y = year_from_day d" and m: "m = month_of y (d - day_from_year y)"
    and dt: "dt = d - day_from_year y - month_start y m + 1"
    by (auto simp: date_of_def Let_def)
  have w: "0 \<le> d - day_from_year y" using year_from_day y by simp
  show ?thesis
    using after_february [OF w, of y] unfolding make_day_def to_year_def Let_def dt y [symmetric] m
    by (auto simp: month_start_def)
qed

lemma setFullYear_day: "local_day tz (setFullYear tz z t) = to_year z (local_day tz t)"
proof -
  obtain y m dt where date: "date_of (local_day tz t) = (y, m, dt)" by (metis prod_cases3)
  have "0 < msPerDay" by (simp add: msPerDay_def)
  then show ?thesis
    by (simp add: setFullYear_def date make_day_to_year [OF date] local_day_def [of tz "_ - tz"])
qed

lemma to_year_bounds: "day_from_year z \<le> to_year z d \<and> to_year z d < day_from_year (z + 1)"
  using year_from_day [of d] year_length [of z] year_length [of "year_from_day d"]
  by (auto simp: to_year_def Let_def)

lemma year_from_to_year [simp]: "year_from_day (to_year z d) = z"
  using to_year_bounds by (blast intro: year_from_day_unique)

text \<open>Days keep their order when they move by the same number of years.\<close>

lemma to_year_mono:
  assumes "d \<le> e"
  shows "to_year (year_from_day d + k) d \<le> to_year (year_from_day e + k) e"
proof (cases "year_from_day d" "year_from_day e" rule: linorder_cases)
  case less
  then have "day_from_year (year_from_day d + k + 1) \<le> day_from_year (year_from_day e + k)"
    by (intro day_from_year_le) simp
  then show ?thesis using to_year_bounds [of "year_from_day d + k" d] to_year_bounds [of "year_from_day e + k" e] by linarith
next
  case equal
  with assms show ?thesis by (auto simp: to_year_def Let_def)
next
  case greater
  then have "day_from_year (year_from_day e + 1) \<le> day_from_year (year_from_day d)" by (intro day_from_year_le) simp
  with assms year_from_day [of d] year_from_day [of e] show ?thesis by linarith
qed

text \<open>29 February is the only day that has no counterpart in some other years; it moves to 1 March.\<close>

definition leap_day :: "int \<Rightarrow> bool" where
  "leap_day d \<longleftrightarrow> snd (date_of d) = (1, 29)"

lemma leap_day_iff: "leap_day d \<longleftrightarrow> leap_year (year_from_day d) \<and> d = day_from_year (year_from_day d) + 59"
proof -
  define y w where "y = year_from_day d" and "w = d - day_from_year y"
  have w: "0 \<le> w" using year_from_day [of d] by (simp add: w_def y_def)
  have start: "month_start y 1 = 31" by (simp add: month_start_def month_table_def)
  have "leap_day d \<longleftrightarrow> month_of y w = 1 \<and> w = 59"
    using start by (auto simp: leap_day_def date_of_def Let_def y_def w_def)
  also have "... \<longleftrightarrow> leap_year y \<and> w = 59"
    using after_february [OF w, of y] month_of_props(3) [OF w, of 1 y] start by (auto split: if_splits)
  finally show ?thesis by (auto simp: y_def w_def)
qed

lemma to_year_back:
  shows "d \<le> to_year (year_from_day d) (to_year z d)"
    and "\<not> leap_day d \<Longrightarrow> to_year (year_from_day d) (to_year z d) = d"
  by (auto simp: leap_day_iff to_year_def [of _ "to_year z d"] Let_def) (auto simp: to_year_def Let_def split: if_splits)

lemma getFullYear_setFullYear [simp]: "getFullYear tz (setFullYear tz z t) = z"
  by (simp add: getFullYear_def setFullYear_day)

end
