(* ===== verification/Validation.thy ===== *)
theory Validation
  imports Realtime Applications Auth Matching Calendar
begin

section \<open>Validation: the request bodies the pipe lets through\<close>

text \<open>
  Models the DTO classes of the HTTP API: for each, the conjunction of its class-validator decorators
  as the global \<open>ValidationPipe\<close> checks them. Types are the model's own, so \<open>IsString\<close>, \<open>IsInt\<close>,
  \<open>IsDate\<close> and \<open>IsEnum\<close> hold by typing. Which strings are phone numbers is a parameter
  (libphonenumber decides), and so is the time zone of the server.
\<close>

subsection \<open>Accounts\<close>

definition valid_RegisterDto :: "(string \<Rightarrow> bool) \<Rightarrow> RegisterDto \<Rightarrow> bool" where
  "valid_RegisterDto isPhoneNumber dto \<longleftrightarrow>
     reg_name dto \<noteq> [] \<and> isPhoneNumber (reg_phone dto) \<and> 8 \<le> length (reg_password dto)"

definition valid_LoginDto :: "(string \<Rightarrow> bool) \<Rightarrow> LoginDto \<Rightarrow> bool" where
  "valid_LoginDto isPhoneNumber dto \<longleftrightarrow>
     isPhoneNumber (log_phone dto) \<and> 8 \<le> length (log_password dto)"

definition valid_RefreshTokenDto :: "string \<Rightarrow> bool" where
  "valid_RefreshTokenDto refreshToken \<longleftrightarrow> refreshToken \<noteq> []"

definition valid_ForgotPasswordDto :: "(string \<Rightarrow> bool) \<Rightarrow> string \<Rightarrow> bool" where
  "valid_ForgotPasswordDto isPhoneNumber phone \<longleftrightarrow> isPhoneNumber phone"

text \<open>\<open>Matches(/^\d{6}$/)\<close>.\<close>

definition six_digits :: "string \<Rightarrow> bool" where
  "six_digits s \<longleftrightarrow> length s = 6 \<and> list_all (\<lambda>c. c \<in> set ''0123456789'') s"

definition valid_ResetPasswordDto :: "(string \<Rightarrow> bool) \<Rightarrow> ResetPasswordDto \<Rightarrow> bool" where
  "valid_ResetPasswordDto isPhoneNumber dto \<longleftrightarrow>
     isPhoneNumber (rst_phone dto) \<and> length (rst_code dto) = 6 \<and> six_digits (rst_code dto) \<and>
     8 \<le> length (rst_newPassword dto)"

subsection \<open>Rides and drivers\<close>

definition valid_CreateRideRequestDto :: "CreateRideRequestDto \<Rightarrow> bool" where
  "valid_CreateRideRequestDto dto \<longleftrightarrow>
     isLatitude (crr_pickupLat dto) \<and> isLongitude (crr_pickupLng dto) \<and>
     isLatitude (crr_dropoffLat dto) \<and> isLongitude (crr_dropoffLng dto) \<and>
     0 < crr_suggestedFare dto"

definition valid_CancelRideRequestDto :: "string option \<Rightarrow> bool" where
  "valid_CancelRideRequestDto reason \<longleftrightarrow> (case reason of None \<Rightarrow> True | Some r \<Rightarrow> length r \<le> 280)"

definition valid_NearbyDriversQueryDto :: "real \<Rightarrow> real \<Rightarrow> real option \<Rightarrow> bool" where
  "valid_NearbyDriversQueryDto lat lng radiusKm \<longleftrightarrow>
     isLatitude lat \<and> isLongitude lng \<and>
     (case radiusKm of None \<Rightarrow> True | Some r \<Rightarrow> 0.1 \<le> r \<and> r \<le> 50)"

definition valid_UpdateLocationDto :: "real \<Rightarrow> real \<Rightarrow> bool" where
  "valid_UpdateLocationDto lat lng \<longleftrightarrow> isLatitude lat \<and> isLongitude lng"

subsection \<open>Driver applications\<close>

definition eighteenYearsAgo :: "int \<Rightarrow> int \<Rightarrow> int" where
  "eighteenYearsAgo tz now = setFullYear tz (getFullYear tz now - 18) now"

definition valid_SubmitPersonalInfoDto :: "int \<Rightarrow> int \<Rightarrow> SubmitPersonalInfoDto \<Rightarrow> bool" where
  "valid_SubmitPersonalInfoDto tz now dto \<longleftrightarrow>
     spi_fullLegalName dto \<noteq> [] \<and> spi_dateOfBirth dto \<le> eighteenYearsAgo tz now \<and>
     spi_residentialAddress dto \<noteq> []"

definition valid_SubmitLicenseDto :: "int \<Rightarrow> SubmitLicenseDto \<Rightarrow> bool" where
  "valid_SubmitLicenseDto now dto \<longleftrightarrow> sl_licenseNumber dto \<noteq> [] \<and> now \<le> sl_licenseExpiryDate dto"

definition EARLIEST_VEHICLE_YEAR :: int where "EARLIEST_VEHICLE_YEAR = 1980"

text \<open>The latest year is computed once, when the class is loaded, at the time \<open>loaded\<close>.\<close>

definition valid_SubmitVehicleDto :: "int \<Rightarrow> int \<Rightarrow> int \<Rightarrow> SubmitVehicleDto \<Rightarrow> bool" where
  "valid_SubmitVehicleDto tz loaded now dto \<longleftrightarrow>
     sv_vehicleMake dto \<noteq> [] \<and> sv_vehicleModel dto \<noteq> [] \<and>
     EARLIEST_VEHICLE_YEAR \<le> sv_vehicleYear dto \<and> sv_vehicleYear dto \<le> getFullYear tz loaded + 1 \<and>
     sv_vehicleColor dto \<noteq> [] \<and> sv_plateNumber dto \<noteq> [] \<and> now \<le> sv_registrationExpiryDate dto"

definition valid_UploadOptionalDocumentDto :: "DriverDocumentType \<Rightarrow> bool" where
  "valid_UploadOptionalDocumentDto type \<longleftrightarrow> type \<in> set OPTIONAL_DOCUMENT_TYPES"

definition REVIEW_DECISIONS :: "DriverApplicationStatus list" where
  "REVIEW_DECISIONS = [VERIFIED, DriverApplicationStatus.REJECTED]"

definition valid_ReviewApplicationDto :: "ReviewApplicationDto \<Rightarrow> bool" where
  "valid_ReviewApplicationDto dto \<longleftrightarrow>
     rad_decision dto \<in> set REVIEW_DECISIONS \<and>
     (rad_decision dto = DriverApplicationStatus.REJECTED \<longrightarrow>
        (case rad_rejectionReason dto of None \<Rightarrow> False | Some r \<Rightarrow> r \<noteq> [] \<and> length r \<le> 280))"

text \<open>The query of the admin list: without a status, the applications under review.\<close>

definition ListApplicationsQueryDto_status :: "DriverApplicationStatus option \<Rightarrow> DriverApplicationStatus" where
  "ListApplicationsQueryDto_status status = (case status of None \<Rightarrow> UNDER_REVIEW | Some s \<Rightarrow> s)"

subsection \<open>The age check\<close>

text \<open>The day of the birthday \<open>k\<close> years after the birth.\<close>

definition birthday :: "int \<Rightarrow> int \<Rightarrow> int \<Rightarrow> int" where
  "birthday tz k dateOfBirth = local_day tz (setFullYear tz (getFullYear tz dateOfBirth + k) dateOfBirth)"

end
