(* ===== verification/Responses.thy ===== *)
theory Responses
  imports Applications Trips Ratings Matching
begin

section \<open>Responses: what the API shows of a row\<close>

text \<open>
  Models the response DTOs that only select columns (\<open>plainToInstance\<close> with
  \<open>excludeExtraneousValues\<close>): \<open>from\<close> is a projection. In the code the services return the DTO;
  in the model the services return the row and the controllers project it (\<open>map_result\<close>), so that
  the properties of the services speak of rows.
\<close>

definition map_result :: "('a \<Rightarrow> 'b) \<Rightarrow> 'a result \<Rightarrow> 'b result" where
  "map_result f rw = (map_sum id f (fst rw), snd rw)"

lemma map_result_simps [simp]:
  "snd (map_result f rw) = snd rw" "fst (map_result f rw) = map_sum id f (fst rw)"
  by (simp_all add: map_result_def)

record TripResponse =
  trr_id :: string
  trr_rideRequestId :: string
  trr_driverId :: string
  trr_riderId :: string
  trr_agreedFare :: rat
  trr_status :: TripStatus
  trr_routePolyline :: "string option"
  trr_startedAt :: "int option"
  trr_endedAt :: "int option"
  trr_cancelReason :: "string option"
  trr_createdAt :: int

definition TripResponse_from :: "Trip \<Rightarrow> TripResponse" where
  "TripResponse_from t =
     \<lparr>trr_id = t_id t, trr_rideRequestId = t_rideRequestId t, trr_driverId = t_driverId t,
      trr_riderId = t_riderId t, trr_agreedFare = t_agreedFare t, trr_status = t_status t,
      trr_routePolyline = t_routePolyline t, trr_startedAt = t_startedAt t, trr_endedAt = t_endedAt t,
      trr_cancelReason = t_cancelReason t, trr_createdAt = t_createdAt t\<rparr>"

record RatingResponse =
  rar_id :: string
  rar_tripId :: string
  rar_fromUserId :: string
  rar_toUserId :: string
  rar_score :: int
  rar_comment :: "string option"
  rar_createdAt :: int

definition RatingResponse_from :: "Rating \<Rightarrow> RatingResponse" where
  "RatingResponse_from r =
     \<lparr>rar_id = rt_id r, rar_tripId = rt_tripId r, rar_fromUserId = rt_fromUserId r,
      rar_toUserId = rt_toUserId r, rar_score = rt_score r, rar_comment = rt_comment r,
      rar_createdAt = rt_createdAt r\<rparr>"

record DriverApplicationResponse =
  dar_id :: string
  dar_userId :: string
  dar_status :: DriverApplicationStatus
  dar_fullLegalName :: "string option"
  dar_dateOfBirth :: "int option"
  dar_residentialAddress :: "string option"
  dar_licenseNumber :: "string option"
  dar_licenseExpiryDate :: "int option"
  dar_vehicleMake :: "string option"
  dar_vehicleModel :: "string option"
  dar_vehicleYear :: "int option"
  dar_vehicleColor :: "string option"
  dar_plateNumber :: "string option"
  dar_registrationExpiryDate :: "int option"
  dar_rejectionReason :: "string option"
  dar_submittedAt :: "int option"
  dar_reviewedAt :: "int option"
  dar_createdAt :: int

definition DriverApplicationResponse_from :: "DriverApplication \<Rightarrow> DriverApplicationResponse" where
  "DriverApplicationResponse_from a =
     \<lparr>dar_id = da_id a, dar_userId = da_userId a, dar_status = da_status a,
      dar_fullLegalName = da_fullLegalName a, dar_dateOfBirth = da_dateOfBirth a,
      dar_residentialAddress = da_residentialAddress a, dar_licenseNumber = da_licenseNumber a,
      dar_licenseExpiryDate = da_licenseExpiryDate a, dar_vehicleMake = da_vehicleMake a,
      dar_vehicleModel = da_vehicleModel a, dar_vehicleYear = da_vehicleYear a,
      dar_vehicleColor = da_vehicleColor a, dar_plateNumber = da_plateNumber a,
      dar_registrationExpiryDate = da_registrationExpiryDate a,
      dar_rejectionReason = da_rejectionReason a, dar_submittedAt = da_submittedAt a,
      dar_reviewedAt = da_reviewedAt a, dar_createdAt = da_createdAt a\<rparr>"

text \<open>A row of the live-map query is its aliased columns and the distance.\<close>

record NearbyDriverResponse =
  nr_driverId :: "cell option"
  nr_lat :: "cell option"
  nr_lng :: "cell option"
  nr_vehicleMake :: "cell option"
  nr_vehicleModel :: "cell option"
  nr_distanceMeters :: real

definition NearbyDriverResponse_from :: "(string \<times> cell option) list \<times> real \<Rightarrow> NearbyDriverResponse" where
  "NearbyDriverResponse_from entity =
     (let col = (\<lambda>c. Option.bind (map_of (fst entity) c) id)
      in \<lparr>nr_driverId = col ''userId'', nr_lat = col ''lat'', nr_lng = col ''lng'',
          nr_vehicleMake = col ''vehicleMake'', nr_vehicleModel = col ''vehicleModel'',
          nr_distanceMeters = snd entity\<rparr>)"

end
