(* ===== verification/Endpoints.thy ===== *)
theory Endpoints
  imports Validation Responses
begin

section \<open>Endpoints: the HTTP surface\<close>

text \<open>
  Models the controllers (\<open>*.controller.ts\<close>): each is the service operation behind its guards and
  the validation of its input, in Nest's order. \<open>JwtAuthGuard\<close> has run when a handler gets its
  \<open>user\<close>. The error filter \<open>common/filters/http-exception.filter.ts\<close> and the envelope
  \<open>common/interceptors/response-envelope.interceptor.ts\<close> are \<open>http_response\<close> and
  \<open>http_envelope\<close>. The phone number and UUID formats and the multipart interceptor are library
  code: the formats are predicates of \<open>api_env\<close>, uploads arrive parsed. The texts in which the
  validation pipe lists its complaints are all \<open>Bad Request Exception\<close> here.
\<close>

record api_env =
  api_isUUID :: "string \<Rightarrow> bool"
  api_isPhoneNumber :: "string \<Rightarrow> bool"
  api_tz :: int
  api_loadedAt :: int
  api_geography :: geography
  api_matchRadiusKm :: real
  api_expirySeconds :: real
  api_crypto :: crypto
  api_refreshTtl :: int
  api_codeTtl :: int
  api_codeExpiresIn :: string
  api_io :: "string \<Rightarrow> bool"
  api_uploadDir :: string

subsection \<open>Guards and validation around a handler\<close>

definition with_profile ::
  "ActiveProfile option \<Rightarrow> AuthenticatedUser \<Rightarrow> (world \<Rightarrow> 'a result) \<Rightarrow> world \<Rightarrow> 'a result" where
  "with_profile required user handler w =
     (case activeProfile_canActivate required (Some user) w of
        Inl e \<Rightarrow> (Inl e, w)
      | Inr ok \<Rightarrow> if ok then handler w else (Inl (ForbiddenException ''Forbidden resource''), w))"

definition with_roles ::
  "Role list option \<Rightarrow> AuthenticatedUser \<Rightarrow> (world \<Rightarrow> 'a result) \<Rightarrow> world \<Rightarrow> 'a result" where
  "with_roles required user handler w =
     (if roles_canActivate required (Some user) then handler w
      else (Inl (ForbiddenException ''Forbidden resource''), w))"

definition validated :: "bool \<Rightarrow> (world \<Rightarrow> 'a result) \<Rightarrow> world \<Rightarrow> 'a result" where
  "validated ok handler w =
     (if ok then handler w else (Inl (BadRequestException ''Bad Request Exception''), w))"

definition reads :: "(world \<Rightarrow> error + 'a) \<Rightarrow> world \<Rightarrow> 'a result" where
  "reads f w = (f w, w)"

subsection \<open>Ride requests, trips, matching\<close>

definition RideRequestsController_create ::
  "api_env \<Rightarrow> string \<Rightarrow> int \<Rightarrow> AuthenticatedUser \<Rightarrow> CreateRideRequestDto \<Rightarrow> world \<Rightarrow>
   RideRequestResponse result" where
  "RideRequestsController_create env newId now user dto =
     with_profile (Some RIDER) user
       (validated (valid_CreateRideRequestDto dto)
          (createRideRequest (api_geography env) (api_matchRadiusKm env) newId now (au_userId user) dto))"

definition RideRequestsController_findOne ::
  "api_env \<Rightarrow> AuthenticatedUser \<Rightarrow> string \<Rightarrow> world \<Rightarrow> RideRequestResponse result" where
  "RideRequestsController_findOne env user i =
     with_profile None user (validated (api_isUUID env i) (findOneForUser i (au_userId user)))"

definition RideRequestsController_cancel ::
  "api_env \<Rightarrow> int \<Rightarrow> AuthenticatedUser \<Rightarrow> string \<Rightarrow> string option \<Rightarrow> world \<Rightarrow>
   RideRequestResponse result" where
  "RideRequestsController_cancel env now user i reason =
     with_profile None user
       (validated (api_isUUID env i \<and> valid_CancelRideRequestDto reason)
          (cancelRideRequest i now (au_userId user) reason))"

definition TripsController_start ::
  "api_env \<Rightarrow> int \<Rightarrow> AuthenticatedUser \<Rightarrow> string \<Rightarrow> world \<Rightarrow> TripResponse result" where
  "TripsController_start env now user i =
     with_profile (Some DRIVER) user 
       (validated (api_isUUID env i) (map_result TripResponse_from \<circ> startTrip i now (au_userId user)))"

definition TripsController_complete ::
  "api_env \<Rightarrow> int \<Rightarrow> AuthenticatedUser \<Rightarrow> string \<Rightarrow> world \<Rightarrow> TripResponse result" where
  "TripsController_complete env now user i =
     with_profile (Some DRIVER) user 
       (validated (api_isUUID env i) (map_result TripResponse_from \<circ> completeTrip i now (au_userId user)))"

definition TripsController_rate ::
  "api_env \<Rightarrow> string \<Rightarrow> int \<Rightarrow> AuthenticatedUser \<Rightarrow> string \<Rightarrow> RateTripDto \<Rightarrow> world \<Rightarrow>
   RatingResponse result" where
  "TripsController_rate env newId now user i dto =
     with_profile None user
       (validated (api_isUUID env i \<and> valid_RateTripDto dto) 
          (map_result RatingResponse_from \<circ> rateTrip newId now i (au_userId user) dto))"

definition MatchingController_nearbyDrivers ::
  "api_env \<Rightarrow> AuthenticatedUser \<Rightarrow> real \<Rightarrow> real \<Rightarrow> real option \<Rightarrow> world \<Rightarrow>
   NearbyDriverResponse list result" where
  "MatchingController_nearbyDrivers env user lat lng radiusKm =
     with_profile (Some RIDER) user
       (validated (valid_NearbyDriversQueryDto lat lng radiusKm)
          (map_result (map NearbyDriverResponse_from) \<circ>
             reads (findNearbyDriverLocations driver_profiles_columns (api_geography env)
               (api_matchRadiusKm env) lat lng radiusKm)))"

subsection \<open>Drivers and users\<close>

definition DriversController_updateStatus ::
  "int \<Rightarrow> AuthenticatedUser \<Rightarrow> bool \<Rightarrow> world \<Rightarrow> DriverStatusResponse result" where
  "DriversController_updateStatus now user isOnline =
     with_profile (Some DRIVER) user (setOnlineStatus now (au_userId user) isOnline)"

definition DriversController_updateLocation ::
  "int \<Rightarrow> AuthenticatedUser \<Rightarrow> real \<Rightarrow> real \<Rightarrow> world \<Rightarrow> DriverLocationResponse result" where
  "DriversController_updateLocation now user lat lng =
     with_profile (Some DRIVER) user
       (validated (valid_UpdateLocationDto lat lng) (updateLocation now (au_userId user) lat lng))"

definition UsersController_setActiveProfile ::
  "api_env \<Rightarrow> int \<Rightarrow> AuthenticatedUser \<Rightarrow> ActiveProfile \<Rightarrow> world \<Rightarrow> ActiveProfileResponse result" where
  "UsersController_setActiveProfile env now user profile =
     setActiveProfile (api_expirySeconds env) now (au_userId user) profile"

subsection \<open>Driver applications\<close>

text \<open>
  Multer hands each file to \<open>fileFilter\<close> before the body is validated; the first it refuses ends the
  request.
\<close>

definition fileFilter :: "UploadableFile \<Rightarrow> error + bool" where
  "fileFilter file =
     (if \<not> isAllowedMimeType (uf_mimetype file)
      then Inl (BadRequestException (''Unsupported file type '' @ em_dash @ '' use JPEG, PNG, or PDF''))
      else Inr True)"

fun with_files :: "UploadableFile list \<Rightarrow> (world \<Rightarrow> 'a result) \<Rightarrow> world \<Rightarrow> 'a result" where
  "with_files [] handler w = handler w"
| "with_files (f # fs) handler w =
     (case fileFilter f of Inl e \<Rightarrow> (Inl e, w) | Inr _ \<Rightarrow> with_files fs handler w)"

definition DriverApplicationController_start ::
  "string \<Rightarrow> int \<Rightarrow> AuthenticatedUser \<Rightarrow> world \<Rightarrow> DriverApplicationResponse result" where
  "DriverApplicationController_start newId now user =
     map_result DriverApplicationResponse_from \<circ> startApplication newId now (au_userId user)"

definition DriverApplicationController_getStatus ::
  "AuthenticatedUser \<Rightarrow> world \<Rightarrow> DriverApplicationStatusResponse result" where
  "DriverApplicationController_getStatus user = reads (getApplicationStatus (au_userId user))"

definition DriverApplicationController_submitPersonalInfo ::
  "api_env \<Rightarrow> int \<Rightarrow> AuthenticatedUser \<Rightarrow> SubmitPersonalInfoDto \<Rightarrow> world \<Rightarrow>
   DriverApplicationResponse result" where
  "DriverApplicationController_submitPersonalInfo env now user dto =
     validated (valid_SubmitPersonalInfoDto (api_tz env) now dto)
       (map_result DriverApplicationResponse_from \<circ> submitPersonalInfo now (au_userId user) dto)"

definition DriverApplicationController_submitLicense ::
  "api_env \<Rightarrow> string \<Rightarrow> string \<Rightarrow> int \<Rightarrow> AuthenticatedUser \<Rightarrow> SubmitLicenseDto \<Rightarrow>
   UploadableFile option \<Rightarrow> world \<Rightarrow> DriverApplicationResponse result" where
  "DriverApplicationController_submitLicense env newId uuid now user dto licenseImage =
     with_files (case licenseImage of None \<Rightarrow> [] | Some f \<Rightarrow> [f])
       (validated (valid_SubmitLicenseDto now dto)
          (\<lambda>w. case licenseImage of
             None \<Rightarrow> (Inl (BadRequestException ''A photo of your license is required''), w)
           | Some f \<Rightarrow>
               map_result DriverApplicationResponse_from
                 (submitLicense (api_io env) (api_uploadDir env) newId uuid now (au_userId user) dto f w)))"

text \<open>The named fields of the multipart form, in the order of \<open>fieldToType\<close>.\<close>

record VehicleFiles =
  vf_vehiclePhoto :: "UploadableFile list"
  vf_registrationDocument :: "UploadableFile list"
  vf_proofOfInsurance :: "UploadableFile list"
  vf_profilePhoto :: "UploadableFile list"

definition files_by_type :: "VehicleFiles \<Rightarrow> (DriverDocumentType \<times> UploadableFile) list" where
  "files_by_type files =
     concat (map (\<lambda>(t, fs). case fs of [] \<Rightarrow> [] | f # _ \<Rightarrow> [(t, f)])
       [(VEHICLE_PHOTO, vf_vehiclePhoto files),
        (VEHICLE_REGISTRATION, vf_registrationDocument files),
        (PROOF_OF_INSURANCE, vf_proofOfInsurance files),
        (PROFILE_PHOTO, vf_profilePhoto files)])"

text \<open>\<open>ids\<close> gives each upload its row identifier and the identifier of its storage key.\<close>

definition DriverApplicationController_submitVehicle ::
  "api_env \<Rightarrow> (DriverDocumentType \<Rightarrow> string \<times> string) \<Rightarrow> int \<Rightarrow> AuthenticatedUser \<Rightarrow>
   SubmitVehicleDto \<Rightarrow> VehicleFiles \<Rightarrow> world \<Rightarrow> DriverApplicationResponse result" where
  "DriverApplicationController_submitVehicle env ids now user dto files =
     with_files (vf_vehiclePhoto files @ vf_registrationDocument files @ vf_proofOfInsurance files @
         vf_profilePhoto files)
       (validated (valid_SubmitVehicleDto (api_tz env) (api_loadedAt env) now dto)
          (map_result DriverApplicationResponse_from \<circ>
             submitVehicle (api_io env) (api_uploadDir env) now (au_userId user) dto
               (map (\<lambda>(t, f). ((t, f), ids t)) (files_by_type files))))"

definition DriverApplicationController_uploadOptionalDocument ::
  "api_env \<Rightarrow> string \<Rightarrow> string \<Rightarrow> int \<Rightarrow> AuthenticatedUser \<Rightarrow> DriverDocumentType \<Rightarrow>
   UploadableFile option \<Rightarrow> world \<Rightarrow> DriverDocumentResponse result" where
  "DriverApplicationController_uploadOptionalDocument env newId uuid now user type fl =
     with_files (case fl of None \<Rightarrow> [] | Some f \<Rightarrow> [f])
       (validated (valid_UploadOptionalDocumentDto type)
          (\<lambda>w. case fl of
             None \<Rightarrow> (Inl (BadRequestException ''No file uploaded''), w)
           | Some f \<Rightarrow>
               uploadOptionalDocument (api_io env) (api_uploadDir env) newId uuid now (au_userId user) type f w))"

definition DriverApplicationController_listDocuments ::
  "AuthenticatedUser \<Rightarrow> world \<Rightarrow> DriverDocumentResponse list result" where
  "DriverApplicationController_listDocuments user = reads (listOwnDocuments (au_userId user))"

definition AdminController_listApplications ::
  "AuthenticatedUser \<Rightarrow> DriverApplicationStatus option \<Rightarrow> world \<Rightarrow>
   DriverApplicationResponse list result" where
  "AdminController_listApplications user status =
     with_roles (Some [ADMIN]) user
       (reads (\<lambda>w. Inr (map DriverApplicationResponse_from
          (listForReview (ListApplicationsQueryDto_status status) w))))"

definition AdminController_review ::
  "api_env \<Rightarrow> string \<Rightarrow> int \<Rightarrow> AuthenticatedUser \<Rightarrow> string \<Rightarrow> ReviewApplicationDto \<Rightarrow> world \<Rightarrow>
   DriverApplicationResponse result" where
  "AdminController_review env newId now user i dto =
     with_roles (Some [ADMIN]) user
       (validated (api_isUUID env i \<and> valid_ReviewApplicationDto dto)
          (map_result DriverApplicationResponse_from \<circ> reviewApplication newId now i dto))"

definition AdminController_listDocuments ::
  "api_env \<Rightarrow> AuthenticatedUser \<Rightarrow> string \<Rightarrow> world \<Rightarrow> DriverDocumentResponse list result" where
  "AdminController_listDocuments env user i =
     with_roles (Some [ADMIN]) user (validated (api_isUUID env i) (reads (listDocumentsForApplication i)))"

definition AdminController_downloadDocument ::
  "api_env \<Rightarrow> AuthenticatedUser \<Rightarrow> string \<Rightarrow> world \<Rightarrow> (string \<times> string \<times> string) result" where
  "AdminController_downloadDocument env user documentId =
     with_roles (Some [ADMIN]) user
       (validated (api_isUUID env documentId) (reads (getFileBuffer (api_uploadDir env) documentId)))"

subsection \<open>Accounts\<close>

text \<open>Who may call them how often is the matter of \<open>@nestjs/throttler\<close>; a refused call changes nothing.\<close>

definition AuthController_register ::
  "api_env \<Rightarrow> string \<Rightarrow> string \<Rightarrow> string \<Rightarrow> string \<Rightarrow> int \<Rightarrow> RegisterDto \<Rightarrow> world \<Rightarrow> TokenPairResponse result" where
  "AuthController_register env salt newUserId newId refreshToken now dto =
     validated (valid_RegisterDto (api_isPhoneNumber env) dto)
       (register (api_crypto env) (api_refreshTtl env) salt newUserId newId refreshToken now dto)"

definition AuthController_login ::
  "api_env \<Rightarrow> string \<Rightarrow> string \<Rightarrow> int \<Rightarrow> LoginDto \<Rightarrow> world \<Rightarrow> TokenPairResponse result" where
  "AuthController_login env newId refreshToken now dto =
     validated (valid_LoginDto (api_isPhoneNumber env) dto)
       (login (api_crypto env) (api_refreshTtl env) newId refreshToken now dto)"

definition AuthController_refresh ::
  "api_env \<Rightarrow> string \<Rightarrow> string \<Rightarrow> int \<Rightarrow> string \<Rightarrow> world \<Rightarrow> TokenPairResponse result" where
  "AuthController_refresh env newId newToken now refreshToken =
     validated (valid_RefreshTokenDto refreshToken)
       (refresh (api_crypto env) (api_refreshTtl env) newId newToken now refreshToken)"

definition AuthController_logout :: "api_env \<Rightarrow> int \<Rightarrow> string \<Rightarrow> world \<Rightarrow> unit result" where
  "AuthController_logout env now refreshToken =
     validated (valid_RefreshTokenDto refreshToken) (logout (api_crypto env) now refreshToken)"

definition AuthController_forgotPassword ::
  "api_env \<Rightarrow> string \<Rightarrow> string \<Rightarrow> int \<Rightarrow> string \<Rightarrow> world \<Rightarrow> unit result" where
  "AuthController_forgotPassword env newId code now phone =
     validated (valid_ForgotPasswordDto (api_isPhoneNumber env) phone)
       (forgotPassword (api_crypto env) (api_codeTtl env) (api_codeExpiresIn env) newId code now phone)"

definition AuthController_resetPassword ::
  "api_env \<Rightarrow> string \<Rightarrow> int \<Rightarrow> ResetPasswordDto \<Rightarrow> world \<Rightarrow> unit result" where
  "AuthController_resetPassword env salt now dto =
     validated (valid_ResetPasswordDto (api_isPhoneNumber env) dto)
       (resetPassword (api_crypto env) salt now dto)"

definition AuthController_me :: "AuthenticatedUser \<Rightarrow> world \<Rightarrow> UserResponse result" where
  "AuthController_me user = reads (me (au_userId user))"

lemmas endpoint_defs [op_defs] =
  RideRequestsController_create_def RideRequestsController_findOne_def
  RideRequestsController_cancel_def TripsController_start_def TripsController_complete_def
  TripsController_rate_def MatchingController_nearbyDrivers_def DriversController_updateStatus_def
  DriversController_updateLocation_def UsersController_setActiveProfile_def
  DriverApplicationController_start_def DriverApplicationController_getStatus_def
  DriverApplicationController_submitPersonalInfo_def DriverApplicationController_listDocuments_def
  DriverApplicationController_submitLicense_def DriverApplicationController_submitVehicle_def
  DriverApplicationController_uploadOptionalDocument_def AdminController_listApplications_def
  AdminController_review_def AdminController_listDocuments_def AdminController_downloadDocument_def
  AuthController_register_def AuthController_login_def AuthController_refresh_def
  AuthController_logout_def AuthController_forgotPassword_def AuthController_resetPassword_def
  AuthController_me_def

subsection \<open>The interface of the guards\<close>

text \<open>
  What a handler does to the world, its guards keep: they run it or leave the world as it is. Every
  relation between the worlds before and after that holds of no change at all interprets this locale
  and gets its rules for guarded handlers.
\<close>

lemma with_files_cases: "with_files fs h w = h w \<or> (\<exists>e. with_files fs h w = (Inl e, w))"
  by (induction fs) (auto split: sum.split)

declare with_files.simps [simp del]

locale handler_relation =
  fixes rel :: "world \<Rightarrow> world \<Rightarrow> bool"
  assumes unchanged: "rel w w"
begin

lemma profile_guard:
  "(\<And>ok. activeProfile_canActivate r (Some u) w = Inr ok \<Longrightarrow> rel w (snd (h w))) \<Longrightarrow>
     rel w (snd (with_profile r u h w))"
  by (auto simp: with_profile_def unchanged split: sum.splits)

lemma roles_guard: "rel w (snd (h w)) \<Longrightarrow> rel w (snd (with_roles rs u h w))"
  by (simp add: with_roles_def unchanged)

lemma validation_guard: "(ok \<Longrightarrow> rel w (snd (h w))) \<Longrightarrow> rel w (snd (validated ok h w))"
  by (simp add: validated_def unchanged)

lemma files_guard: "rel w (snd (h w)) \<Longrightarrow> rel w (snd (with_files fs h w))"
  using with_files_cases [of fs h w] by (auto simp: unchanged)

lemmas guards = profile_guard roles_guard validation_guard files_guard

end

subsection \<open>Responses\<close>

fun http_status :: "error \<Rightarrow> nat" where
  "http_status (BadRequestException m) = 400"
| "http_status (UnauthorizedException m) = 401"
| "http_status (ForbiddenException m) = 403"
| "http_status (NotFoundException m) = 404"
| "http_status (ConflictException m) = 409"
| "http_status (InternalServerErrorException m) = 500"
| "http_status (ServiceUnavailableException m) = 503"
| "http_status e = 500"

fun http_name :: "error \<Rightarrow> string" where
  "http_name (BadRequestException m) = ''BadRequestException''"
| "http_name (UnauthorizedException m) = ''UnauthorizedException''"
| "http_name (ForbiddenException m) = ''ForbiddenException''"
| "http_name (NotFoundException m) = ''NotFoundException''"
| "http_name (ConflictException m) = ''ConflictException''"
| "http_name (InternalServerErrorException m) = ''InternalServerErrorException''"
| "http_name (ServiceUnavailableException m) = ''ServiceUnavailableException''"
| "http_name e = ''InternalServerError''"

fun http_message :: "error \<Rightarrow> string" where
  "http_message (BadRequestException m) = m"
| "http_message (UnauthorizedException m) = m"
| "http_message (ForbiddenException m) = m"
| "http_message (NotFoundException m) = m"
| "http_message (ConflictException m) = m"
| "http_message (InternalServerErrorException m) = m"
| "http_message (ServiceUnavailableException m) = m"
| "http_message e = ''Internal server error''"

record error_body =
  eb_statusCode :: nat
  eb_message :: string
  eb_error :: string
  eb_path :: string
  eb_timestamp :: int

definition http_response :: "string \<Rightarrow> int \<Rightarrow> error \<Rightarrow> error_body" where
  "http_response url now e =
     \<lparr>eb_statusCode = http_status e, eb_message = http_message e, eb_error = http_name e,
      eb_path = url, eb_timestamp = now\<rparr>"

record 'a success_body =
  sb_statusCode :: nat
  sb_message :: string
  sb_data :: 'a
  sb_path :: string
  sb_timestamp :: int

text \<open>What the interceptor makes of a handler's value: \<open>Inl\<close> the value as it is, \<open>Inr\<close> the envelope.\<close>

definition http_envelope ::
  "bool \<Rightarrow> bool \<Rightarrow> string option \<Rightarrow> nat \<Rightarrow> string \<Rightarrow> int \<Rightarrow> 'a option \<Rightarrow>
   'a option + 'a success_body" where
  "http_envelope skip headersSent message statusCode url now data =
     (if skip \<or> headersSent then Inl data
      else
        (case data of
           None \<Rightarrow> Inl None
         | Some d \<Rightarrow>
             Inr \<lparr>sb_statusCode = statusCode,
                  sb_message = (case message of None \<Rightarrow> ''Success'' | Some m \<Rightarrow> m),
                  sb_data = d, sb_path = url, sb_timestamp = now\<rparr>))"

end
