(* ===== verification/Frames.thy ===== *)
theory Frames
  imports Progress Endpoints
begin

section \<open>Frames: which operation writes which tables\<close>

text \<open>
  What each group of operations leaves alone, so that an invariant over some tables survives the
  operations on the others without a proof of its own.
\<close>

subsection \<open>Ride operations\<close>

definition frame_rides :: "world \<Rightarrow> world \<Rightarrow> bool" where
  "frame_rides w w' \<longleftrightarrow>
     users w' = users w \<and> refreshTokens w' = refreshTokens w \<and>
     passwordResetTokens w' = passwordResetTokens w \<and>
     driverApplications w' = driverApplications w \<and> driverProfiles w' = driverProfiles w \<and>
     driverDocuments w' = driverDocuments w \<and> ratings w' = ratings w \<and> redis w' = redis w \<and>
     disk w' = disk w \<and> outbox w' = outbox w"

lemma frame_rides_refl [simp]: "frame_rides w w"
  by (simp add: frame_rides_def)

lemma frame_rides_trans: "frame_rides w v \<Longrightarrow> frame_rides v x \<Longrightarrow> frame_rides w x"
  by (simp add: frame_rides_def)

lemma frame_rides_writes [simp]:
  "frame_rides w (w'\<lparr>rideRequests := rs\<rparr>) = frame_rides w w'"
  "frame_rides w (w'\<lparr>rideOffers := fs\<rparr>) = frame_rides w w'"
  "frame_rides w (w'\<lparr>trips := ts\<rparr>) = frame_rides w w'"
  "frame_rides w (emit e w') = frame_rides w w'"
  "frame_rides w (enqueue c w') = frame_rides w w'"
  "frame_rides w (cancelScheduledExpiry i w') = frame_rides w w'"
  "frame_rides w (scheduleExpiry secs i w') = frame_rides w w'"
  by (simp_all add: frame_rides_def emit_def enqueue_def cancelScheduledExpiry_def scheduleExpiry_def)

lemma frame_rides_fold [simp]:
  "frame_rides w (fold cancelScheduledExpiry is w') = frame_rides w w'"
  by (induction "is" arbitrary: w') simp_all

lemma frame_rides_upsert:
  "rideOffer_upsert newId now i d fare w = Inr (f, w') \<Longrightarrow> frame_rides w w'"
  by (subst rideOffer_upsert_frame [of newId now i d fare w f w']) simp_all

lemma frame_rides_trip_result:
  "(\<And>w'. c = Inr w' \<Longrightarrow> frame_rides w w') \<Longrightarrow> frame_rides w (snd (trip_result i e w c))"
  by (auto simp: trip_result_def split: sum.splits option.splits)

lemma frame_rides_cancel_commit:
  "cancel_commit i now reason v w = Inr w' \<Longrightarrow> frame_rides w w'"
  by (auto simp: cancel_commit_def rideOffer_updateMany_def split: sum.splits option.splits
      dest!: rideRequest_update_Inr trip_update_Inr)

lemma frame_rides_ops:
  "frame_rides w (snd (createRideRequest g km newId now riderId dto w))"
  "frame_rides w (snd (submitOffer secs newId now u i fare w))"
  "frame_rides w (snd (acceptOffer newId now u i w))"
  "frame_rides w (snd (cancelRideRequest i now u reason w))"
  "frame_rides w (snd (startTrip i now u w))"
  "frame_rides w (snd (completeTrip i now u w))"
  by (auto simp: createRideRequest_def Let_def rideRequest_create_Inr submitOffer_def
      submitOffer_finish_def acceptOffer_def acceptOffer_finish_def cancelRideRequest_def
      startTrip_def start_commit_def completeTrip_def complete_commit_def
      split: sum.splits option.splits
      dest!: acceptOffer_commit_Inr(1) trip_update_Inr rideRequest_update_Inr
      intro!: frame_rides_trip_result
      intro: frame_rides_upsert frame_rides_cancel_commit)

lemma frame_rides_process_job: "frame_rides w (snd (process_job j w))"
  by (cases j)
    (auto simp: expireIfStillPending_def expireOffer_commit_def expireAllPendingOffersForDriver_def
      rideOffer_updateMany_def split: sum.splits option.splits prod.splits dest!: rideOffer_update_Inr)

end
