(* ===== verification/Reputation.thy ===== *)
theory Reputation
  imports Frames
begin

section \<open>Reputation: a rating is the average of the scores received\<close>

text \<open>
  The invariant of the ratings: one per author, subject and trip, between the two participants of a
  completed trip, with a score from 1 to 5; and every user's \<open>rating\<close> column is the average of the
  scores they have received, 5 if there are none.
\<close>

definition participants :: "Trip \<Rightarrow> (string \<times> string) set" where
  "participants t = {(t_riderId t, t_driverId t), (t_driverId t, t_riderId t)}"

definition rating_ok :: "Trip list \<Rightarrow> Rating \<Rightarrow> bool" where
  "rating_ok ts r \<longleftrightarrow>
     1 \<le> rt_score r \<and> rt_score r \<le> 5 \<and>
     (\<exists>t \<in> set ts. t_id t = rt_tripId r \<and> t_status t = TripStatus.COMPLETED \<and>
        (rt_fromUserId r, rt_toUserId r) \<in> participants t)"

definition ratings_inv :: "world \<Rightarrow> bool" where
  "ratings_inv w \<longleftrightarrow>
     unique_on rt_key (ratings w) \<and>
     (\<forall>r \<in> set (ratings w). rating_ok (trips w) r) \<and>
     rt_toUserId ` set (ratings w) \<subseteq> u_id ` set (users w) \<and>
     (\<forall>u \<in> set (users w). u_rating u = recalculated (u_id u) w)"

lemma ratings_inv_empty: "ratings_inv empty_world"
  by (simp add: ratings_inv_def empty_world_def)

subsection \<open>The average\<close>

lemma sum_list_bounds:
  fixes xs :: "int list"
  assumes "\<And>x. x \<in> set xs \<Longrightarrow> a \<le> x \<and> x \<le> b"
  shows "a * int (length xs) \<le> sum_list xs \<and> sum_list xs \<le> b * int (length xs)"
  using assms by (induction xs) (force simp: algebra_simps)+

lemma average_bounds:
  assumes "xs \<noteq> []" "\<And>x. x \<in> set xs \<Longrightarrow> a \<le> x \<and> x \<le> b" "average xs = Some m"
  shows "real_of_int a \<le> m \<and> m \<le> real_of_int b"
proof -
  have "a * int (length xs) \<le> sum_list xs" "sum_list xs \<le> b * int (length xs)"
    using sum_list_bounds [OF assms(2)] by simp_all
  then have "real_of_int a * real (length xs) \<le> real_of_int (sum_list xs)"
    "real_of_int (sum_list xs) \<le> real_of_int b * real (length xs)"
    by (metis of_int_le_iff of_int_mult of_int_of_nat_eq)+
  with assms(1,3) show ?thesis
    by (auto simp: average_def le_divide_eq divide_le_eq)
qed

lemma recalculated_bounds:
  assumes "\<And>r. r \<in> set (ratings w) \<Longrightarrow> 1 \<le> rt_score r \<and> rt_score r \<le> 5"
  shows "1 \<le> recalculated u w \<and> recalculated u w \<le> 5"
proof (cases "average (scores_of u w)")
  case (Some m)
  then have "scores_of u w \<noteq> []" by (auto simp: average_def)
  moreover have "1 \<le> x \<and> x \<le> 5" if "x \<in> set (scores_of u w)" for x
    using that assms by (auto simp: scores_of_def)
  ultimately show ?thesis using average_bounds [of "scores_of u w" 1 5 m] Some
    by (simp add: recalculated_def)
qed (simp add: recalculated_def)

lemma recalculated_frame: "ratings w' = ratings w \<Longrightarrow> recalculated u w' = recalculated u w"
  by (simp add: recalculated_def scores_of_def)

subsection \<open>Ride operations keep it\<close>

lemma completed_trip_kept:
  assumes inv: "ride_inv w" "ride_inv w'" and moves: "moves w w'"
    and t: "t \<in> set (trips w)" "t_status t = TripStatus.COMPLETED"
  shows "\<exists>t' \<in> set (trips w'). same_terms t t' \<and> t_status t' = TripStatus.COMPLETED"
proof -
  let ?i = "t_rideRequestId t"
  have tr: "trip_of w ?i = Some t" using inv(1) t(1) by (simp add: trip_of_member)
  then have st: "status_of w ?i = Some RideRequestStatus.COMPLETED"
    using linked_of [OF inv(1), of ?i] t(2) by (simp add: linked_trip)
  have "ride_edge\<^sup>*\<^sup>* (status_of w ?i) (status_of w' ?i)"
    using moves_progress [OF moves] by (simp add: progress_def)
  then have st': "status_of w' ?i = Some RideRequestStatus.COMPLETED"
    using ride_edge_terminal [of "status_of w ?i"] st by (simp add: terminal_def)
  from moves tr obtain t' where t': "trip_of w' ?i = Some t'" "same_terms t t'"
    by (auto simp: moves_def terms_kept_def)
  moreover from t'(1) have "t_status t' = TripStatus.COMPLETED"
    using linked_of [OF inv(2), of ?i] st' by simp
  moreover have "t' \<in> set (trips w')" using t'(1) inv(2) by (simp add: trip_of_member)
  ultimately show ?thesis by blast
qed

lemma rating_ok_mono:
  assumes "rating_ok ts r"
    and "\<And>t. t \<in> set ts \<Longrightarrow> t_status t = TripStatus.COMPLETED \<Longrightarrow>
      \<exists>t' \<in> set ts'. same_terms t t' \<and> t_status t' = TripStatus.COMPLETED"
  shows "rating_ok ts' r"
proof -
  from assms(1) obtain t where t: "t \<in> set ts" "t_id t = rt_tripId r" "t_status t = TripStatus.COMPLETED"
    "(rt_fromUserId r, rt_toUserId r) \<in> participants t" by (auto simp: rating_ok_def)
  from assms(2) [OF t(1,3)] obtain t' where "t' \<in> set ts'" "same_terms t t'"
    "t_status t' = TripStatus.COMPLETED" by blast
  with t(2,4) assms(1) show ?thesis
    by (auto simp: rating_ok_def same_terms_def participants_def intro!: bexI [of _ t'])
qed

lemma ratings_inv_rides:
  assumes "ratings_inv w" "ride_inv w" "ride_inv w'" "moves w w'" "frame_rides w w'"
  shows "ratings_inv w'"
proof -
  have same: "ratings w' = ratings w" "users w' = users w"
    using assms(5) by (simp_all add: frame_rides_def)
  have "rating_ok (trips w') r" if "r \<in> set (ratings w)" for r
    using that assms(1) completed_trip_kept [OF assms(2-4)] rating_ok_mono
    by (metis ratings_inv_def)
  with assms(1) show ?thesis
    by (simp add: ratings_inv_def same recalculated_frame [OF same(1)])
qed

lemma ratings_inv_frame:
  assumes "ratings_inv w" "ratings w' = ratings w" "trips w' = trips w" "users w' = users w"
  shows "ratings_inv w'"
  using assms by (simp add: ratings_inv_def recalculated_frame [OF assms(2)])

subsection \<open>Rating a trip keeps it\<close>

lemma scores_of_append:
  "scores_of u (w\<lparr>ratings := ratings w @ [r]\<rparr>)
    = scores_of u w @ (if rt_toUserId r = u then [rt_score r] else [])"
  by (simp add: scores_of_def)

lemma rate_load_Inr:
  assumes "rate_load tripId fromUserId w = Inr toUserId"
  shows "\<exists>t \<in> set (trips w). t_id t = tripId \<and> t_status t = TripStatus.COMPLETED \<and>
    (fromUserId, toUserId) \<in> participants t"
proof -
  from assms obtain t where t: "lookup t_id tripId (trips w) = Some t" "t_status t = TripStatus.COMPLETED"
    "rate_target t fromUserId = Inr toUserId"
    by (auto simp: rate_load_def split: option.splits if_splits)
  then show ?thesis
    by (intro bexI [of _ t])
      (auto simp: rate_target_def participants_def split: if_splits dest: lookup_SomeD)
qed

lemma new_rating_fields [simp]:
  "rt_toUserId (new_rating newId now i u v dto) = v" "rt_score (new_rating newId now i u v dto) = rd_score dto"
  "rt_tripId (new_rating newId now i u v dto) = i" "rt_fromUserId (new_rating newId now i u v dto) = u"
  by (simp_all add: new_rating_def)

lemma ratings_inv_rateTrip:
  assumes inv: "ratings_inv w" and keys: "unique_on u_id (users w)" "unique_on u_phone (users w)"
    and score: "1 \<le> rd_score dto" "rd_score dto \<le> 5"
  shows "ratings_inv (snd (rateTrip newId now tripId u dto w))"
proof (cases "rate_load tripId u w")
  case (Inr to)
  let ?r = "new_rating newId now tripId u to dto" and ?w = "w\<lparr>ratings := ratings w @ [new_rating newId now tripId u to dto]\<rparr>"
  show ?thesis
  proof (cases "rating_create ?r w")
    case (Inr w1)
    then have w1: "w1 = ?w" and row: "create_row rating_conflicts (trip_exists tripId w \<and> user_exists u w \<and>
        user_exists to w) ?r (ratings w) = Inr (ratings w @ [?r])"
      by (simp_all add: rating_create_Inr)
    from row obtain x where x: "lookup u_id to (users w) = Some x" by (auto simp: create_row_Inr)
    then have tousr: "to \<in> u_id ` set (users w)" by (auto dest: lookup_SomeD)
    let ?f = "\<lambda>x. x\<lparr>u_rating := recalculated to ?w\<rparr>"
    have upd: "user_update to ?f ?w = Inr (?w\<lparr>users := update_where (\<lambda>x. u_id x = to) ?f (users ?w)\<rparr>)"
      by (rule user_update_ok [where r = x]) (use keys x in \<open>auto dest: lookup_SomeD\<close>)
    let ?v = "?w\<lparr>users := update_where (\<lambda>x. u_id x = to) ?f (users ?w)\<rparr>"
    have result: "snd (rateTrip newId now tripId u dto w) = ?v"
      using \<open>rate_load tripId u w = Inr to\<close> Inr upd by (simp add: rateTrip_def recalculateRating_def w1)
    have "unique_on rt_key (ratings ?v)"
      using ratings_author.unique_create [OF row] inv by (simp add: ratings_inv_def)
    moreover have "rating_ok (trips ?v) y" if "y \<in> set (ratings ?v)" for y
      using that inv score rate_load_Inr [OF \<open>rate_load tripId u w = Inr to\<close>]
      by (auto simp: ratings_inv_def rating_ok_def)
    moreover have "rt_toUserId ` set (ratings ?v) \<subseteq> u_id ` set (users ?v)"
      using inv tousr by (simp add: ratings_inv_def image_update_where)
    moreover have "u_rating y = recalculated (u_id y) ?v" if "y \<in> set (users ?v)" for y
    proof -
      have frame: "recalculated z ?v = recalculated z ?w" for z by (rule recalculated_frame) simp
      from that have "y \<in> set (update_where (\<lambda>x. u_id x = to) ?f (users w))" by simp
      then show ?thesis
      proof (cases rule: in_update_whereE)
        case same
        then have "recalculated (u_id y) ?w = recalculated (u_id y) w"
          by (simp add: recalculated_def scores_of_append)
        with same inv show ?thesis unfolding frame by (simp add: ratings_inv_def)
      next
        case (changed z)
        then show ?thesis unfolding frame by simp
      qed
    qed
    ultimately show ?thesis unfolding result ratings_inv_def by blast
  qed (simp add: rateTrip_def \<open>rate_load tripId u w = Inr to\<close> inv)
qed (simp add: rateTrip_def inv)

end
