(* ===== verification/System.thy ===== *)
theory System
  imports Reputation
begin

section \<open>System: every operation of the backend, and the invariant of its database\<close>

text \<open>
  \<open>api_op\<close> is the set of operations a client, the queue or the scheduler can run, each one whole:
  the endpoints behind their guards, the service calls of the WebSocket handlers (which have no
  guard), a delivered job, the nightly clean-up, the expiry of cache keys. \<open>system_step\<close> runs one
  of them. Two requests whose awaits interleave are the subject of Interleaving.
\<close>

inductive api_op :: "api_env \<Rightarrow> (world \<Rightarrow> world) \<Rightarrow> bool" for env :: api_env where
  create_ride: "api_op env (\<lambda>w. snd (RideRequestsController_create env newId now user dto w))"
| view_ride: "api_op env (\<lambda>w. snd (RideRequestsController_findOne env user i w))"
| cancel_ride: "api_op env (\<lambda>w. snd (RideRequestsController_cancel env now user i reason w))"
| start_trip: "api_op env (\<lambda>w. snd (TripsController_start env now user i w))"
| complete_trip: "api_op env (\<lambda>w. snd (TripsController_complete env now user i w))"
| rate_trip: "api_op env (\<lambda>w. snd (TripsController_rate env newId now user i rdto w))"
| submit_offer: "0 < fare \<Longrightarrow> api_op env (\<lambda>w. snd (submitOffer (api_expirySeconds env) newId now uid i fare w))"
| accept_offer: "api_op env (\<lambda>w. snd (acceptOffer newId now uid i w))"
| run_job: "api_op env (\<lambda>w. snd (process_job j w))"
| set_online: "api_op env (\<lambda>w. snd (DriversController_updateStatus now user online w))"
| set_location: "api_op env (\<lambda>w. snd (DriversController_updateLocation now user lat lng w))"
| ws_location: "isLatitude lat \<Longrightarrow> isLongitude lng \<Longrightarrow> api_op env (\<lambda>w. snd (updateLocation now uid lat lng w))"
| ws_disconnect: "api_op env (\<lambda>w. snd (goOffline (api_expirySeconds env) now uid w))"
| set_profile: "api_op env (\<lambda>w. snd (UsersController_setActiveProfile env now user prf w))"
| start_application: "api_op env (\<lambda>w. snd (DriverApplicationController_start newId now user w))"
| personal_info: "api_op env (\<lambda>w. snd (DriverApplicationController_submitPersonalInfo env now user pdto w))"
| license: "api_op env (\<lambda>w. snd (DriverApplicationController_submitLicense env newId uuid now user ldto img w))"
| vehicle: "api_op env (\<lambda>w. snd (DriverApplicationController_submitVehicle env ids now user vdto files w))"
| optional_document:
    "api_op env (\<lambda>w. snd (DriverApplicationController_uploadOptionalDocument env newId uuid now user ty fl w))"
| review: "api_op env (\<lambda>w. snd (AdminController_review env newId now user i adto w))"
| register_account: "api_op env (\<lambda>w. snd (AuthController_register env salt newUser newId tok now gdto w))"
| log_in: "api_op env (\<lambda>w. snd (AuthController_login env newId tok now odto w))"
| refresh_session: "api_op env (\<lambda>w. snd (AuthController_refresh env newId newTok now tok w))"
| log_out: "api_op env (\<lambda>w. snd (AuthController_logout env now tok w))"
| forgot_password: "api_op env (\<lambda>w. snd (AuthController_forgotPassword env newId code now phone w))"
| reset_password: "api_op env (\<lambda>w. snd (AuthController_resetPassword env salt now sdto w))"
| clean_up: "api_op env (removeExpiredRefreshTokens now)"

definition system_step :: "api_env \<Rightarrow> world \<Rightarrow> world \<Rightarrow> bool" where
  "system_step env w w' \<longleftrightarrow> (\<exists>f. api_op env f \<and> w' = f w)"

definition world_core :: "world \<Rightarrow> bool" where
  "world_core w \<longleftrightarrow>
     ride_inv w \<and> ratings_inv w \<and> onboarding_inv w \<and> accounts_inv w \<and>
     profile_keys_ok w \<and> identity_cache_ok w"

definition world_inv :: "world \<Rightarrow> bool" where
  "world_inv w \<longleftrightarrow> world_core w \<and> online_ok w"

lemma world_coreD:
  assumes "world_core w"
  shows "ride_inv w" "ratings_inv w" "onboarding_inv w" "accounts_inv w" "profile_keys_ok w"
    "identity_cache_ok w"
  using assms by (simp_all add: world_core_def)

lemma world_invD:
  assumes "world_inv w"
  shows "ride_inv w" "ratings_inv w" "onboarding_inv w" "accounts_inv w" "profile_keys_ok w"
    "identity_cache_ok w" "online_ok w" "world_core w"
  using assms by (simp_all add: world_inv_def world_core_def)

lemma world_inv_empty: "world_inv empty_world"
  by (simp add: world_inv_def world_core_def ride_inv_empty ratings_inv_empty onboarding_inv_empty accounts_inv_empty)
    (simp add: profile_keys_ok_def identity_cache_ok_def online_ok_def empty_world_def)

subsection \<open>The invariant, group by group\<close>

lemma world_inv_rides:
  assumes inv: "world_inv w" and "frame_rides w w'" "ride_inv w'" "moves w w'"
  shows "world_inv w'"
proof -
  note d = world_invD [OF inv]
  have same: "users w' = users w" "refreshTokens w' = refreshTokens w"
    "passwordResetTokens w' = passwordResetTokens w" "driverApplications w' = driverApplications w"
    "driverProfiles w' = driverProfiles w" "driverDocuments w' = driverDocuments w" "redis w' = redis w"
    using assms(2) by (simp_all add: frame_rides_def)
  have "identity_cache_ok w'" by (rule identity_cache_ok_frame [OF d(6) same(7)]) (simp add: same)
  moreover have "ratings_inv w'" by (rule ratings_inv_rides [OF d(2,1) assms(3,4,2)])
  moreover have "onboarding_inv w'" by (rule onboarding_inv_same [OF d(3) same(4-6)])
  moreover have "accounts_inv w'" by (rule accounts_inv_frame [OF d(4) same(1-3)])
  moreover have "online_ok w'" by (rule online_ok_frame [OF d(7) same(1,5)])
  moreover have "profile_keys_ok w'" using d(5) by (simp add: profile_keys_ok_def same)
  ultimately show ?thesis using assms(3) by (simp add: world_inv_def world_core_def)
qed

lemma profile_changed_views:
  assumes "profile_changed u f w w'" "\<And>p. same_profile p (f p)"
  shows "profile_users w' = profile_users w" "profile_links w' = profile_links w"
proof -
  have "(\<lambda>p. (dp_id p, dp_userId p)) ` set (update_where q f ps) = (\<lambda>p. (dp_id p, dp_userId p)) ` set ps" for q ps
    using assms(2) by (intro image_update_where) (simp add: same_profile_def)
  moreover have "(\<lambda>p. (dp_driverApplicationId p, dp_userId p)) ` set (update_where q f ps)
      = (\<lambda>p. (dp_driverApplicationId p, dp_userId p)) ` set ps" for q ps
    using assms(2) by (intro image_update_where) (simp add: same_profile_def)
  ultimately show "profile_users w' = profile_users w" "profile_links w' = profile_links w"
    using assms(1) by (auto simp: profile_changed_def profile_users_def profile_links_def del: equalityI)
qed

lemma world_inv_profile:
  assumes inv: "world_core w" and ch: "profile_changed u f w w'" and same: "\<And>p. same_profile p (f p)"
    and "identity_cache_ok w'" "online_ok w'"
  shows "world_inv w'"
proof -
  note d = world_coreD [OF inv]
  have fr: "frame_profiles w w'" using ch by (simp add: profile_changed_def)
  then have tabs: "users w' = users w" "refreshTokens w' = refreshTokens w"
    "passwordResetTokens w' = passwordResetTokens w" "driverApplications w' = driverApplications w"
    "driverDocuments w' = driverDocuments w" "rideRequests w' = rideRequests w"
    "rideOffers w' = rideOffers w" "trips w' = trips w" "ratings w' = ratings w"
    by (simp_all add: frame_profiles_def)
  have keys: "profile_keys_ok w'" using profile_keys_changed [OF ch same] d(5) by simp
  have ids: "dp_userId ` set (driverProfiles w') = dp_userId ` set (driverProfiles w)"
    using profile_changed_views(1) [OF ch same] unfolding profile_users_def
    by (metis (no_types, lifting) image_cong image_image snd_conv)
  have "ride_inv w'"
    by (rule ride_inv_frame [OF d(1) tabs(6-8)])
      (use keys d(1) ids profile_changed_views(1) [OF ch same] in
        \<open>auto simp: profile_keys_ok_def tabs ride_inv_def keys_ok_def refs_ok_def\<close>)
  moreover have "ratings_inv w'" by (rule ratings_inv_frame [OF d(2)]) (simp_all add: tabs)
  moreover have "onboarding_inv w'"
    by (rule onboarding_inv_frame [OF d(3) tabs(4) profile_changed_views(2) [OF ch same]])
      (simp add: uploadedTypes_def tabs)
  moreover have "accounts_inv w'" by (rule accounts_inv_frame [OF d(4) tabs(1-3)])
  ultimately show ?thesis using keys assms(4,5) by (simp add: world_inv_def world_core_def)
qed

text \<open>Users: a new one starts with the default rating and in rider mode.\<close>

lemma world_core_user_update:
  assumes inv: "world_core w" and upd: "user_update i f w = Inr w'"
    and keep: "\<And>u. u_id (f u) = u_id u" "\<And>u. u_phone (f u) = u_phone u" "\<And>u. u_rating (f u) = u_rating u"
  shows "world_core w'"
proof -
  note d = world_coreD [OF inv]
  from upd have w': "w' = w\<lparr>users := update_where (\<lambda>u. u_id u = i) f (users w)\<rparr>"
    by (auto dest: user_update_Inr)
  have "ratings_inv w'"
  proof -
    have "u_rating y = recalculated (u_id y) w" if "y \<in> set (update_where (\<lambda>u. u_id u = i) f (users w))" for y
      using that d(2) keep by (elim in_update_whereE) (auto simp: ratings_inv_def)
    moreover have "recalculated y w' = recalculated y w" for y by (rule recalculated_frame) (simp add: w')
    ultimately show ?thesis using d(2) keep by (simp add: ratings_inv_def w' image_update_where)
  qed
  moreover have "ride_inv w'" by (rule ride_inv_user_update [OF d(1) upd keep(1)])
  moreover have "accounts_inv w'" by (rule accounts_inv_user_update [OF d(4) upd keep(1,2)])
  moreover have "onboarding_inv w'" by (rule onboarding_inv_same [OF d(3)]) (simp_all add: w')
  ultimately show ?thesis using d(5,6) by (simp add: world_core_def w' profile_keys_ok_def)
qed

lemma online_ok_user_update:
  assumes "online_ok w" "\<And>u. u_id (f u) = u_id u" "\<And>u. u_activeProfile (f u) = u_activeProfile u"
  shows "online_ok (w\<lparr>users := update_where p f (users w)\<rparr>)"
  unfolding online_ok_def
proof (intro ballI impI)
  fix q assume "q \<in> set (driverProfiles (w\<lparr>users := update_where p f (users w)\<rparr>))" "dp_isOnline q"
  with assms(1) obtain u where "lookup u_id (dp_userId q) (users w) = Some u" "u_activeProfile u = DRIVER"
    by (auto simp: online_ok_def)
  with assms(2,3) show "map_option u_activeProfile (lookup u_id (dp_userId q)
      (users (w\<lparr>users := update_where p f (users w)\<rparr>))) = Some DRIVER"
    by (simp add: lookup_update_where)
qed

lemma world_inv_user_create:
  assumes inv: "world_inv w" and create: "user_create u w = Inr w'" and rating: "u_rating u = 5"
  shows "world_inv w'"
proof -
  note d = world_invD [OF inv]
  from create have w': "w' = w\<lparr>users := users w @ [u]\<rparr>"
    and row: "create_row user_conflicts True u (users w) = Inr (users w @ [u])"
    by (auto simp: user_create_Inr)
  have fresh: "u_id u \<notin> u_id ` set (users w)" by (rule users_id.created_key_fresh [OF row])
  have keys: "unique_on u_id (users w')" "unique_on u_phone (users w')"
    using d(4) users_id.unique_create [OF row] users_phone.unique_create [OF row]
    by (simp_all add: accounts_inv_def w')
  have "ride_inv w'"
    by (rule ride_inv_frame [OF d(1)])
      (use keys d(1) in \<open>auto simp: w' ride_inv_def keys_ok_def refs_ok_def profile_users_def\<close>)
  moreover have "ratings_inv w'"
  proof -
    have "u_id u \<notin> rt_toUserId ` set (ratings w)"
      using d(2) fresh unfolding ratings_inv_def by blast
    then have "rt_toUserId r \<noteq> u_id u" if "r \<in> set (ratings w)" for r using that by (metis image_eqI)
    then have "scores_of (u_id u) w = []" by (auto simp: scores_of_def filter_empty_conv)
    then have "recalculated (u_id u) w' = 5" by (simp add: recalculated_def average_def scores_of_def w')
    moreover have "recalculated y w' = recalculated y w" for y by (rule recalculated_frame) (simp add: w')
    ultimately show ?thesis using d(2) rating by (auto simp: ratings_inv_def w')
  qed
  moreover have "accounts_inv w'" using d(4) keys by (simp add: accounts_inv_def w')
  moreover have "onboarding_inv w'" by (rule onboarding_inv_same [OF d(3)]) (simp_all add: w')
  moreover have "online_ok w'"
    using d(7) by (force simp: online_ok_def w' lookup_append)
  ultimately show ?thesis using d(5,6) by (simp add: world_inv_def world_core_def w' profile_keys_ok_def)
qed

text \<open>Tokens, codes and messages.\<close>

lemma world_inv_tokens:
  assumes "world_inv w" "accounts_inv (w\<lparr>refreshTokens := rs, passwordResetTokens := ps, outbox := ob\<rparr>)"
  shows "world_inv (w\<lparr>refreshTokens := rs, passwordResetTokens := ps, outbox := ob\<rparr>)"
proof -
  let ?w = "w\<lparr>refreshTokens := rs, passwordResetTokens := ps, outbox := ob\<rparr>"
  note d = world_invD [OF assms(1)]
  have "onboarding_inv ?w" by (rule onboarding_inv_same [OF d(3)]) simp_all
  moreover have "ratings_inv ?w" by (rule ratings_inv_frame [OF d(2)]) simp_all
  moreover have "identity_cache_ok ?w" using d(6) by (simp add: identity_cache_ok_def)
  ultimately show ?thesis using d(1,5,7) assms(2)
    by (simp add: world_inv_def world_core_def profile_keys_ok_def online_ok_def)
qed

subsection \<open>Onboarding\<close>

definition frame_onboarding :: "world \<Rightarrow> world \<Rightarrow> bool" where
  "frame_onboarding w w' \<longleftrightarrow>
     users w' = users w \<and> refreshTokens w' = refreshTokens w \<and>
     passwordResetTokens w' = passwordResetTokens w \<and> rideRequests w' = rideRequests w \<and>
     rideOffers w' = rideOffers w \<and> trips w' = trips w \<and> ratings w' = ratings w \<and>
     redis w' = redis w \<and> events w' = events w \<and> queue w' = queue w"

text \<open>At most one profile appears, offline and nowhere, and its row was accepted by the table.\<close>

definition profile_added :: "world \<Rightarrow> world \<Rightarrow> bool" where
  "profile_added w w' \<longleftrightarrow>
     driverProfiles w' = driverProfiles w \<or>
     (\<exists>p fk. create_row driverProfile_conflicts fk p (driverProfiles w) = Inr (driverProfiles w') \<and>
        (fk \<longrightarrow> user_exists (dp_userId p) w) \<and> \<not> dp_isOnline p \<and>
        dp_currentLat p = None \<and> dp_currentLng p = None)"

lemma frame_onboarding_refl [simp]: "frame_onboarding w w" "profile_added w w"
  by (simp_all add: frame_onboarding_def profile_added_def)

lemma frame_onboarding_trans:
  "frame_onboarding w v \<Longrightarrow> frame_onboarding v x \<Longrightarrow> frame_onboarding w x"
  by (simp add: frame_onboarding_def)

lemma frame_onboarding_writes [simp]:
  "frame_onboarding w (w'\<lparr>driverApplications := as\<rparr>) = frame_onboarding w w'"
  "frame_onboarding w (w'\<lparr>driverProfiles := ps\<rparr>) = frame_onboarding w w'"
  by (simp_all add: frame_onboarding_def)

lemma world_inv_onboarding:
  assumes inv: "world_inv w" and fr: "frame_onboarding w w'" and prof: "profile_added w w'"
    and onb: "onboarding_inv w'"
  shows "world_inv w'"
proof -
  note d = world_invD [OF inv]
  have tabs: "users w' = users w" "refreshTokens w' = refreshTokens w"
    "passwordResetTokens w' = passwordResetTokens w" "rideRequests w' = rideRequests w"
    "rideOffers w' = rideOffers w" "trips w' = trips w" "ratings w' = ratings w" "redis w' = redis w"
    using fr by (simp_all add: frame_onboarding_def)
  have profs: "profile_keys_ok w' \<and> dp_userId ` set (driverProfiles w') \<subseteq> u_id ` set (users w) \<and>
      profile_users w \<subseteq> profile_users w' \<and> identity_cache_ok w' \<and> online_ok w'"
  proof (cases "driverProfiles w' = driverProfiles w")
    case True
    have "identity_cache_ok w'" by (rule identity_cache_ok_frame [OF d(6) tabs(8)]) (simp add: True)
    with True d show ?thesis
      by (auto simp: profile_keys_ok_def profile_users_def ride_inv_def refs_ok_def tabs
          intro: online_ok_frame)
  next
    case False
    then obtain p fk where row: "create_row driverProfile_conflicts fk p (driverProfiles w) = Inr (driverProfiles w')"
      and p: "fk \<longrightarrow> user_exists (dp_userId p) w" "\<not> dp_isOnline p"
      using prof by (auto simp: profile_added_def)
    from row have ps: "driverProfiles w' = driverProfiles w @ [p]" "fk" by (auto simp: create_row_Inr)
    have "profile_keys_ok w'"
      using d(5) profiles_id.unique_create [OF row] profiles_user.unique_create [OF row]
        profiles_application.unique_create [OF row] by (simp add: profile_keys_ok_def)
    moreover have "dp_userId p \<in> u_id ` set (users w)" using p(1) ps(2) lookup_None_image by metis
    moreover have "identity_cache_ok w'"
      by (rule identity_cache_ok_frame [OF d(6) tabs(8)]) (auto simp: ps lookup_append)
    ultimately show ?thesis using d(1,7) p(2)
      by (auto simp: ps profile_users_def ride_inv_def refs_ok_def online_ok_def tabs)
  qed
  have "ride_inv w'"
    by (rule ride_inv_frame [OF d(1) tabs(4-6)])
      (use profs d(1) in \<open>auto simp: profile_keys_ok_def ride_inv_def keys_ok_def tabs\<close>)
  moreover have "ratings_inv w'" by (rule ratings_inv_frame [OF d(2)]) (simp_all add: tabs)
  moreover have "accounts_inv w'" by (rule accounts_inv_frame [OF d(4) tabs(1-3)])
  ultimately show ?thesis using profs onb by (simp add: world_inv_def world_core_def)
qed

lemma frame_onboarding_documents: "frame_documents w w' \<Longrightarrow> frame_onboarding w w' \<and> profile_added w w'"
  by (simp add: frame_documents_def frame_onboarding_def profile_added_def)

lemma upload_onboarding:
  assumes "upload_document io b newId uuid now a t fl w = (r, w')"
  shows "frame_onboarding w w'" "driverProfiles w' = driverProfiles w"
  using upload_frame [of w io b newId uuid now a t fl] assms
  by (simp_all add: frame_documents_def frame_onboarding_def)

lemma upload_all_onboarding:
  "upload_all io b now a fls w = (r, w') \<Longrightarrow>
     frame_onboarding w w' \<and> driverProfiles w' = driverProfiles w"
proof (induction io b now a fls w arbitrary: r w' rule: upload_all.induct)
  case (2 io b now a t fl newId uuid fls w)
  obtain r1 w1 where up: "upload_document io b newId uuid now a t fl w = (r1, w1)" by fastforce
  note first = upload_onboarding [OF up]
  show ?case
  proof (cases r1)
    case (Inr x)
    with 2(2) up have "upload_all io b now a fls w1 = (r, w')" by simp
    with 2(1) [OF up [symmetric] Inr] first show ?thesis using frame_onboarding_trans by metis
  qed (use 2(2) up first in simp)
qed simp

lemma update_application_onboarding:
  assumes "update_application i f w = (r, w')"
  shows "frame_onboarding w w'" "driverProfiles w' = driverProfiles w"
  using update_application_world [OF assms]
  by (auto dest!: driverApplication_update_Inr(1))

lemma onboarding_op_frames:
  "frame_onboarding w (snd (startApplication newId now u w))"
  "driverProfiles (snd (startApplication newId now u w)) = driverProfiles w"
  "frame_onboarding w (snd (submitPersonalInfo now u pdto w))"
  "driverProfiles (snd (submitPersonalInfo now u pdto w)) = driverProfiles w"
  "frame_onboarding w (snd (submitLicense io b newId uuid now u ldto fl w))"
  "driverProfiles (snd (submitLicense io b newId uuid now u ldto fl w)) = driverProfiles w"
  "frame_onboarding w (snd (submitVehicle io b now u vdto fls w))"
  "driverProfiles (snd (submitVehicle io b now u vdto fls w)) = driverProfiles w"
  "frame_onboarding w (snd (uploadOptionalDocument io b newId uuid now u ty fl w))"
  "driverProfiles (snd (uploadOptionalDocument io b newId uuid now u ty fl w)) = driverProfiles w"
proof -
  have upd: "frame_onboarding w (snd (update_application i f w))"
      "driverProfiles (snd (update_application i f w)) = driverProfiles w" for i f w
    using update_application_onboarding by (metis prod.collapse)+
  have up: "frame_onboarding w (snd (upload_document io b newId uuid now a t fl w))"
      "driverProfiles (snd (upload_document io b newId uuid now a t fl w)) = driverProfiles w" for a t
    using upload_onboarding by (metis prod.collapse)+
  show "frame_onboarding w (snd (startApplication newId now u w))"
    "driverProfiles (snd (startApplication newId now u w)) = driverProfiles w"
    by (auto simp: startApplication_def upd driverApplication_create_def on_table_Inr
        split: option.splits sum.splits)
  show "frame_onboarding w (snd (submitPersonalInfo now u pdto w))"
    "driverProfiles (snd (submitPersonalInfo now u pdto w)) = driverProfiles w"
    by (auto simp: submitPersonalInfo_def upd split: sum.splits)
  show "frame_onboarding w (snd (submitLicense io b newId uuid now u ldto fl w))"
    "driverProfiles (snd (submitLicense io b newId uuid now u ldto fl w)) = driverProfiles w"
    by (auto simp: submitLicense_def upd split: sum.splits prod.splits
        dest: upload_onboarding intro: frame_onboarding_trans [OF _ upd(1)])
  show "frame_onboarding w (snd (submitVehicle io b now u vdto fls w))"
    "driverProfiles (snd (submitVehicle io b now u vdto fls w)) = driverProfiles w"
    by (auto simp: submitVehicle_def upd split: sum.splits prod.splits
        dest!: upload_all_onboarding intro: frame_onboarding_trans [OF _ upd(1)])
  show "frame_onboarding w (snd (uploadOptionalDocument io b newId uuid now u ty fl w))"
    "driverProfiles (snd (uploadOptionalDocument io b newId uuid now u ty fl w)) = driverProfiles w"
    by (auto simp: uploadOptionalDocument_def up split: sum.splits)
qed

lemma review_frames:
  "frame_onboarding w (snd (reviewApplication newId now i dto w)) \<and>
   profile_added w (snd (reviewApplication newId now i dto w))"
proof -
  have upd: "frame_onboarding w (snd (update_application i f w)) \<and>
      profile_added w (snd (update_application i f w))" for i f
    using update_application_onboarding [of i f w "fst (update_application i f w)" "snd (update_application i f w)"]
    by (simp add: profile_added_def)
  have commit: "frame_onboarding w w' \<and> profile_added w w'" if "approve_commit newId now a w = Inr w'" for a w'
  proof -
    from that obtain w1 where "driverApplication_update (da_id a) (verified_application now) w = Inr w1"
      and create: "driverProfile_create (new_profile newId a) w1 = Inr w'"
      by (auto simp: approve_commit_def split: sum.splits)
    then have "w1 = w\<lparr>driverApplications := update_where (\<lambda>x. da_id x = da_id a)
        (verified_application now) (driverApplications w)\<rparr>" by (blast dest: driverApplication_update_Inr(1))
    then have "users w1 = users w" "driverProfiles w1 = driverProfiles w" "frame_onboarding w w1"
      by simp_all
    moreover obtain fk where "create_row driverProfile_conflicts (user_exists (da_userId a) w1 \<and> fk)
        (new_profile newId a) (driverProfiles w1) = Inr (driverProfiles w')"
      "w' = w1\<lparr>driverProfiles := driverProfiles w'\<rparr>"
      using create by (auto simp: driverProfile_create_def on_table_Inr new_profile_def)
    moreover have "dp_userId (new_profile newId a) = da_userId a" "\<not> dp_isOnline (new_profile newId a)"
      "dp_currentLat (new_profile newId a) = None" "dp_currentLng (new_profile newId a) = None"
      by (simp_all add: new_profile_def)
    ultimately show ?thesis unfolding profile_added_def
      by (metis frame_onboarding_writes(2))
  qed
  from upd commit show ?thesis
    by (auto simp: reviewApplication_def split: sum.splits option.splits)
qed

subsection \<open>Every operation keeps the invariant\<close>

interpretation kept_by_guards: handler_relation "\<lambda>w w'. world_inv w \<longrightarrow> world_inv w'"
  by unfold_locales simp

lemma through_guards:
  assumes "world_inv w"
  shows "(\<And>ok. activeProfile_canActivate r (Some u) w = Inr ok \<Longrightarrow> world_inv (snd (h w))) \<Longrightarrow>
      world_inv (snd (with_profile r u h w))"
    and "world_inv (snd (h w)) \<Longrightarrow> world_inv (snd (with_roles rs u h w))"
    and "(ok \<Longrightarrow> world_inv (snd (h w))) \<Longrightarrow> world_inv (snd (validated ok h w))"
    and "world_inv (snd (h w)) \<Longrightarrow> world_inv (snd (with_files fs h w))"
  using assms kept_by_guards.profile_guard [of r u w h] kept_by_guards.roles_guard [of w h rs u]
    kept_by_guards.validation_guard [of ok w h] kept_by_guards.files_guard [of w h fs] by blast+

lemma world_inv_ride_ops:
  assumes "world_inv w"
  shows "world_inv (snd (createRideRequest g km newId now riderId dto w))"
    "world_inv (snd (submitOffer secs newId now u i fare w))"
    "world_inv (snd (acceptOffer newId now u i w))"
    "world_inv (snd (cancelRideRequest i now u reason w))"
    "world_inv (snd (startTrip i now u w))"
    "world_inv (snd (completeTrip i now u w))"
    "world_inv (snd (process_job j w))"
  using assms world_invD(1) [OF assms]
  by (blast intro: world_inv_rides frame_rides_ops frame_rides_process_job
      ride_inv_createRideRequest ride_inv_submitOffer ride_inv_acceptOffer ride_inv_cancelRideRequest
      ride_inv_startTrip ride_inv_completeTrip ride_inv_process_job
      moves_createRideRequest moves_submitOffer moves_acceptOffer moves_cancelRideRequest
      moves_startTrip moves_completeTrip moves_process_job)+

lemma world_inv_rateTrip:
  assumes inv: "world_inv w" and score: "1 \<le> rd_score dto" "rd_score dto \<le> 5"
  shows "world_inv (snd (rateTrip newId now i u dto w))"
proof -
  note d = world_invD [OF inv]
  have rat: "ratings_inv (snd (rateTrip newId now i u dto w))"
    using d(4) by (intro ratings_inv_rateTrip [OF d(2) _ _ score]) (simp_all add: accounts_inv_def)
  have "world_inv w' \<or> ratings_inv w' \<longrightarrow> world_inv w'"
    if "\<exists>rs us. w' = w\<lparr>ratings := rs, users := us\<rparr> \<and> accounts_inv w' \<and> online_ok w' \<and> ride_inv w'" for w'
  proof -
    from that obtain rs us where w': "w' = w\<lparr>ratings := rs, users := us\<rparr>" by blast
    have "onboarding_inv w'" by (rule onboarding_inv_same [OF d(3)]) (simp_all add: w')
    moreover have "identity_cache_ok w'" "profile_keys_ok w'"
      using d(5,6) by (simp_all add: w' identity_cache_ok_def profile_keys_ok_def)
    ultimately show ?thesis using that by (auto simp: world_inv_def world_core_def)
  qed
  moreover have "\<exists>rs us. w' = w\<lparr>ratings := rs, users := us\<rparr> \<and> accounts_inv w' \<and> online_ok w' \<and> ride_inv w'"
    if w': "w' = snd (rateTrip newId now i u dto w)" for w'
  proof -
    have plain: "accounts_inv (w\<lparr>ratings := rs\<rparr>)" "online_ok (w\<lparr>ratings := rs\<rparr>)" "ride_inv (w\<lparr>ratings := rs\<rparr>)" for rs
      using d(1,4,7) by (simp_all add: accounts_inv_def online_ok_def)
    have same: "w = w\<lparr>ratings := ratings w, users := users w\<rparr>" "w\<lparr>ratings := rs\<rparr> = w\<lparr>ratings := rs, users := users w\<rparr>" for rs
      by simp_all
    have upd: "accounts_inv v \<and> online_ok v \<and> ride_inv v \<and> (\<exists>us. v = w\<lparr>ratings := rs, users := us\<rparr>)"
      if v: "user_update j (\<lambda>x. x\<lparr>u_rating := m\<rparr>) (w\<lparr>ratings := rs\<rparr>) = Inr v" for j m rs v
      using accounts_inv_user_update [OF plain(1) v] ride_inv_user_update [OF plain(3) v]
        online_ok_user_update [OF plain(2)] user_update_Inr [OF v] by auto
    show ?thesis
    proof (cases "rate_load i u w")
      case (Inl e)
      then have "w' = w" by (simp add: w' rateTrip_def)
      with d same(1) show ?thesis by blast
    next
      case (Inr to)
      show ?thesis
      proof (cases "rating_create (new_rating newId now i u to dto) w")
        case (Inl e)
        then have "w' = w" by (simp add: w' rateTrip_def \<open>rate_load i u w = Inr to\<close>)
        with d same(1) show ?thesis by blast
      next
        case (Inr w1)
        then obtain rs where w1: "w1 = w\<lparr>ratings := rs\<rparr>" by (auto simp: rating_create_Inr)
        show ?thesis
        proof (cases "user_update to (\<lambda>x. x\<lparr>u_rating := recalculated to w1\<rparr>) w1")
          case (Inl e)
          then have "w' = w\<lparr>ratings := rs\<rparr>"
            using Inr \<open>rate_load i u w = Inr to\<close> by (simp add: w' rateTrip_def recalculateRating_def w1)
          with plain same(2) show ?thesis by metis
        next
          case upd': (Inr v)
          then have "w' = v"
            using Inr \<open>rate_load i u w = Inr to\<close> by (simp add: w' rateTrip_def recalculateRating_def)
          with upd [of to "recalculated to w1" rs v] upd' show ?thesis by (auto simp: w1)
        qed
      qed
    qed
  qed
  ultimately show ?thesis using rat by blast
qed

lemma world_inv_driver_ops:
  assumes "world_inv w"
  shows "world_inv (snd (updateLocation now u lat lng w))"
    and "world_inv (snd (goOffline secs now u w))"
    and "map_option u_activeProfile (lookup u_id u (users w)) = Some DRIVER \<Longrightarrow>
      world_inv (snd (setOnlineStatus now u b w))"
proof -
  note d = world_invD [OF assms]
  show "world_inv (snd (updateLocation now u lat lng w))"
    by (rule world_inv_profile [OF d(8) updateLocation_changed])
      (simp_all add: identity_cache_driver_ops d online_ok_updateLocation)
  show "world_inv (snd (goOffline secs now u w))"
  proof (rule world_inv_profile [OF d(8) goOffline_changed])
    show "online_ok (snd (goOffline secs now u w))"
      by (rule online_ok_goOffline [OF d(5)]) (use d(7) in \<open>simp add: online_ok_def\<close>)
  qed (simp_all add: identity_cache_driver_ops d)
  show "world_inv (snd (setOnlineStatus now u b w))"
    if "map_option u_activeProfile (lookup u_id u (users w)) = Some DRIVER"
    by (rule world_inv_profile [OF d(8) setOnlineStatus_changed])
      (simp_all add: identity_cache_driver_ops d online_ok_setOnlineStatus that)
qed

lemma world_inv_setActiveProfile:
  assumes inv: "world_inv w"
  shows "world_inv (snd (setActiveProfile secs now u prf w))"
proof -
  note d = world_invD [OF inv]
  have mode: "online_ok (snd (setActiveProfile secs now u prf w))"
    by (rule online_ok_setActiveProfile [OF d(5,7)])
  have upd: "world_core w1" if "user_update u (\<lambda>x. x\<lparr>u_activeProfile := prf\<rparr>) w = Inr w1" for w1
    by (rule world_core_user_update [OF d(8) that]) simp_all
  have off: "world_inv (snd (goOffline secs now u w1))"
    if "world_core w1" "online_ok (snd (goOffline secs now u w1))" for w1
    by (rule world_inv_profile [OF that(1) goOffline_changed _ _ that(2)])
      (use world_coreD(6) [OF that(1)] in \<open>simp_all add: identity_cache_driver_ops\<close>)
  show ?thesis
  proof (cases "user_update u (\<lambda>x. x\<lparr>u_activeProfile := prf\<rparr>) w")
    case (Inr w1)
    with mode upd [OF Inr] off [OF upd [OF Inr]] inv show ?thesis
      by (auto simp: setActiveProfile_def world_inv_def split: option.splits sum.splits prod.splits if_splits)
  qed (use inv in \<open>simp add: setActiveProfile_def\<close>)
qed

lemma world_inv_onboarding_ops:
  assumes "world_inv w"
  shows "world_inv (snd (startApplication newId now u w))"
    "world_inv (snd (submitPersonalInfo now u pdto w))"
    "world_inv (snd (submitLicense io b newId uuid now u ldto fl w))"
    "world_inv (snd (submitVehicle io b now u vdto fls w))"
    "world_inv (snd (uploadOptionalDocument io b newId uuid now u ty fl w))"
    "world_inv (snd (reviewApplication newId now i adto w))"
  using world_invD(3) [OF assms] review_frames
  by (auto intro!: world_inv_onboarding [OF assms] onboarding_op_frames
      onboarding_inv_startApplication onboarding_inv_submitPersonalInfo onboarding_inv_submitLicense
      onboarding_inv_submitVehicle onboarding_inv_uploadOptionalDocument onboarding_inv_reviewApplication
      simp: profile_added_def onboarding_op_frames)

text \<open>Accounts: what each operation writes besides its own invariant.\<close>

definition tokens_only :: "world \<Rightarrow> world \<Rightarrow> bool" where
  "tokens_only w w' \<longleftrightarrow>
     (\<exists>rs ps ob. w' = w\<lparr>refreshTokens := rs, passwordResetTokens := ps, outbox := ob\<rparr>)"

lemma tokens_onlyI:
  "w' = w\<lparr>refreshTokens := refreshTokens w', passwordResetTokens := passwordResetTokens w',
     outbox := outbox w'\<rparr> \<Longrightarrow> tokens_only w w'"
  unfolding tokens_only_def by blast

lemma tokens_only_refl [simp]: "tokens_only w w"
  by (rule tokens_onlyI) simp

lemma world_inv_tokens_only: "world_inv w \<Longrightarrow> tokens_only w w' \<Longrightarrow> accounts_inv w' \<Longrightarrow> world_inv w'"
  unfolding tokens_only_def using world_inv_tokens by blast

lemma tokens_only_refresh: "tokens_only w (w\<lparr>refreshTokens := rs\<rparr>)"
  by (rule tokens_onlyI) simp

lemma issue_world:
  "issueTokenPair c ttl i tok now u role w = (r, w') \<Longrightarrow> \<exists>rs. w' = w\<lparr>refreshTokens := rs\<rparr>"
  by (auto simp: issueTokenPair_def refreshToken_create_Inr split: sum.splits
      intro: exI [of _ "refreshTokens w"])

lemma tokens_only_login: "tokens_only w (snd (login c ttl i tok now dto w))"
proof (cases "login c ttl i tok now dto w")
  case (Pair r w')
  then have "w' = w \<or> (\<exists>rs. w' = w\<lparr>refreshTokens := rs\<rparr>)"
    by (auto simp: login_def split: option.splits if_splits dest: issue_world)
  with Pair tokens_only_refresh show ?thesis by auto
qed

lemma tokens_only_refresh_op: "tokens_only w (snd (refresh c ttl i new now tok w))"
proof (cases "refresh c ttl i new now tok w")
  case (Pair r w')
  then have "w' = w \<or> (\<exists>rs. w' = w\<lparr>refreshTokens := rs\<rparr>)"
    by (auto simp: refresh_def refresh_commit_def split: option.splits sum.splits
        dest!: refreshToken_update_Inr issue_world)
  with Pair tokens_only_refresh show ?thesis by auto
qed

lemma tokens_only_forgotPassword: "tokens_only w (snd (forgotPassword c ttl ex i code now phone w))"
  by (rule tokens_onlyI)
    (auto simp: forgotPassword_def sms_send_def passwordResetToken_updateMany_def
      passwordResetToken_create_Inr split: option.splits sum.splits)

lemma world_inv_register:
  assumes inv: "world_inv w"
  shows "world_inv (snd (register c ttl salt ui i tok now dto w))"
proof -
  have "world_inv w'" if "user_create (new_user ui now h dto) w = Inr w1"
    "issueTokenPair c ttl i tok now u role w1 = (r, w')" for h w1 u role r w'
  proof -
    have w1: "world_inv w1" by (rule world_inv_user_create [OF inv that(1)]) (simp add: new_user_def)
    have "tokens_only w1 w'" using issue_world [OF that(2)] tokens_only_refresh by auto
    with w1 world_invD(4) [OF w1] accounts_inv_issue [OF _ that(2)] show ?thesis
      by (blast intro: world_inv_tokens_only)
  qed
  then show ?thesis using inv
    by (auto simp: register_def Let_def split: option.splits sum.splits) (metis prod.collapse)
qed

lemma world_inv_resetPassword:
  assumes inv: "world_inv w"
  shows "world_inv (snd (resetPassword c salt now dto w))"
proof (cases "findByPhone (rst_phone dto) w")
  case (Some x)
  note d = world_invD [OF inv]
  have x: "lookup u_id (u_id x) (users w) = Some x"
    using Some d(4) by (auto simp: findByPhone_def accounts_inv_def lookup_Some_iff dest: lookup_SomeD)
  let ?f = "\<lambda>x. x\<lparr>u_password := bcrypt_hash c salt (rst_newPassword dto)\<rparr>"
  let ?v = "w\<lparr>users := update_where (\<lambda>y. u_id y = u_id x) ?f (users w)\<rparr>"
  have "user_update (u_id x) ?f w = Inr ?v"
    using d(4) x by (intro user_update_ok [where r = x]) (simp_all add: accounts_inv_def)
  then have "world_core ?v" by (rule world_core_user_update [OF d(8)]) simp_all
  moreover have "online_ok ?v" by (rule online_ok_user_update [OF d(7)]) simp_all
  ultimately have v: "world_inv ?v" by (simp add: world_inv_def)
  show ?thesis
  proof (cases "fst (resetPassword c salt now dto w)")
    case (Inl e)
    then have "snd (resetPassword c salt now dto w) = w"
      by (auto simp: resetPassword_def simp del: transaction.simps split: option.splits sum.splits)
    with inv show ?thesis by simp
  next
    case (Inr y)
    let ?w' = "snd (resetPassword c salt now dto w)"
    from Inr Some have "?w' = ?v\<lparr>refreshTokens := refreshTokens ?w',
        passwordResetTokens := passwordResetTokens ?w', outbox := outbox w\<rparr>"
      by (auto simp: resetPassword_def simp del: transaction.simps
          split: option.splits sum.splits dest!: resetPassword_commit)
    with world_inv_tokens [OF v] accounts_inv_resetPassword [OF d(4)] show ?thesis by metis
  qed
qed (use inv in \<open>simp add: resetPassword_def\<close>)

lemma world_inv_account_ops:
  assumes "world_inv w"
  shows "world_inv (snd (login c ttl i tok now odto w))"
    "world_inv (snd (refresh c ttl i new now tok w))"
    "world_inv (snd (logout c now tok w))"
    "world_inv (snd (forgotPassword c cttl ex i code now phone w))"
    "world_inv (removeExpiredRefreshTokens now w)"
proof -
  note d = world_invD(4) [OF assms]
  show "world_inv (snd (login c ttl i tok now odto w))"
    by (rule world_inv_tokens_only [OF assms tokens_only_login accounts_inv_login [OF d]])
  show "world_inv (snd (refresh c ttl i new now tok w))"
    by (rule world_inv_tokens_only [OF assms tokens_only_refresh_op accounts_inv_refresh [OF d]])
  show "world_inv (snd (forgotPassword c cttl ex i code now phone w))"
    by (rule world_inv_tokens_only [OF assms tokens_only_forgotPassword accounts_inv_forgotPassword [OF d]])
  show "world_inv (snd (logout c now tok w))"
    by (rule world_inv_tokens_only [OF assms _ accounts_inv_logout [OF d]])
      (simp add: logout_def refreshToken_updateMany_def tokens_only_refresh)
  show "world_inv (removeExpiredRefreshTokens now w)"
    by (rule world_inv_tokens_only [OF assms _ accounts_inv_cleanup [OF d]])
      (simp add: removeExpiredRefreshTokens_def tokens_only_refresh)
qed

subsection \<open>Reachability\<close>

lemma api_op_world_inv:
  assumes "api_op env f" "world_inv w"
  shows "world_inv (f w)"
  using assms(1)
proof cases
  case rate_trip
  with assms(2) show ?thesis
    by (auto simp: TripsController_rate_def valid_RateTripDto_def
        intro!: through_guards world_inv_rateTrip)
next
  case set_online
  with assms(2) show ?thesis
    by (auto simp: DriversController_updateStatus_def activeProfile_canActivate_Inr
        intro!: through_guards world_inv_driver_ops)
next
  case view_ride
  have "snd (findOneForUser i u w) = w" for i u
    by (simp add: findOneForUser_def split: sum.splits)
  with view_ride assms(2) show ?thesis
    by (auto simp: RideRequestsController_findOne_def intro!: through_guards)
next
  case license
  with assms(2) show ?thesis
    by (auto simp: DriverApplicationController_submitLicense_def intro!: through_guards world_inv_onboarding_ops
        split: option.split)
next
  case optional_document
  with assms(2) show ?thesis
    by (auto simp: DriverApplicationController_uploadOptionalDocument_def
        intro!: through_guards world_inv_onboarding_ops split: option.split)
qed (use assms(2) in \<open>auto simp: RideRequestsController_create_def RideRequestsController_cancel_def
    TripsController_start_def TripsController_complete_def DriversController_updateLocation_def
    UsersController_setActiveProfile_def DriverApplicationController_submitVehicle_def
    AdminController_review_def DriverApplicationController_start_def
    DriverApplicationController_submitPersonalInfo_def AuthController_register_def AuthController_login_def
    AuthController_refresh_def AuthController_logout_def AuthController_forgotPassword_def
    AuthController_resetPassword_def
    intro!: through_guards world_inv_register world_inv_resetPassword world_inv_ride_ops world_inv_driver_ops world_inv_setActiveProfile
      world_inv_onboarding_ops world_inv_account_ops\<close>)

text \<open>The system interprets the contract of a transition system with an invariant.\<close>

interpretation backend: invariant_system "\<lambda>w. w = empty_world" "system_step env" world_inv for env
  by unfold_locales (auto simp: world_inv_empty system_step_def intro: api_op_world_inv)

end
