(* ===== verification/Scenario.thy ===== *)
theory Scenario
  imports System
begin

section \<open>Scenario: a ride, step by step\<close>

text \<open>
  Concrete worlds on which the properties are applied: one rider, two verified drivers and a ride
  request with an offer of each (\<open>open_world\<close>), and what the operations of the services make of
  it: matched, started, completed.
\<close>

definition sample_user :: "string \<Rightarrow> string \<Rightarrow> ActiveProfile \<Rightarrow> User" where
  "sample_user i phone prf =
     \<lparr>u_id = i, u_name = i, u_phone = phone, u_password = '''', u_role = USER,
      u_activeProfile = prf, u_rating = 5, u_createdAt = 0\<rparr>"

definition sample_profile :: "string \<Rightarrow> string \<Rightarrow> string \<Rightarrow> DriverProfile" where
  "sample_profile i user app =
     \<lparr>dp_id = i, dp_userId = user, dp_driverApplicationId = app, dp_isOnline = True,
      dp_currentLat = Some 6, dp_currentLng = Some 3, dp_locationUpdatedAt = Some 0\<rparr>"

definition sample_request :: RideRequest where
  "sample_request =
     \<lparr>rr_id = ''q'', rr_riderId = ''r'', rr_pickupLat = 6, rr_pickupLng = 3, rr_dropoffLat = 7,
      rr_dropoffLng = 3, rr_suggestedFare = 10, rr_status = RideRequestStatus.PENDING,
      rr_cancelReason = None, rr_cancelledAt = None, rr_createdAt = 0\<rparr>"

definition open_world :: world where
  "open_world = empty_world
     \<lparr>users := [sample_user ''r'' ''1'' RIDER, sample_user ''d'' ''2'' DRIVER, sample_user ''e'' ''3'' DRIVER],
      driverProfiles := [sample_profile ''pd'' ''d'' ''ad'', sample_profile ''pe'' ''e'' ''ae''],
      rideRequests := [sample_request],
      rideOffers := [new_offer ''o'' 1 ''q'' ''pd'' 12, new_offer ''x'' 2 ''q'' ''pe'' 15]\<rparr>"

definition matched_world :: world where
  "matched_world = snd (acceptOffer ''t'' 3 ''r'' ''o'' open_world)"

definition started_world :: world where
  "started_world = snd (startTrip ''t'' 4 ''d'' matched_world)"

definition completed_world :: world where
  "completed_world = snd (completeTrip ''t'' 5 ''d'' started_world)"

lemmas scenario_defs =
  open_world_def empty_world_def sample_user_def sample_profile_def sample_request_def new_offer_def

lemma ride_inv_open: "ride_inv open_world"
  by (simp add: ride_inv_def ride_parts scenario_defs unique_on_def ro_key_def status_of_def trip_of_def)

lemma ride_inv_scenario: "ride_inv matched_world" "ride_inv started_world" "ride_inv completed_world"
  by (simp_all add: matched_world_def started_world_def completed_world_def ride_inv_open
      ride_inv_acceptOffer ride_inv_startTrip ride_inv_completeTrip)

lemmas scenario_ops =
  op_defs row_defs competing_def conflict_defs on_table_def create_row_def update_row_def
  update_where_def new_trip_def ro_key_def driver_user_of_def acceptOffer_others_def
  acceptOffer_finish_def

lemma matched_rows:
  "users matched_world = users open_world"
  "rideRequests matched_world = [sample_request\<lparr>rr_status := RideRequestStatus.MATCHED\<rparr>]"
  "rideOffers matched_world =
     [(new_offer ''o'' 1 ''q'' ''pd'' 12)\<lparr>ro_status := OfferStatus.ACCEPTED\<rparr>,
      (new_offer ''x'' 2 ''q'' ''pe'' 15)\<lparr>ro_status := OfferStatus.EXPIRED\<rparr>]"
  by (simp_all add: matched_world_def scenario_defs scenario_ops emit_def enqueue_def cancelScheduledExpiry_def lookup_def)

end
