(* ===== verification/Journey.thy ===== *)
theory Journey
  imports Scenario
begin

section \<open>Journey: one run of the whole backend\<close>

text \<open>
  An instance of the parameters and a run of the backend on it, from the empty database: two people
  register, one becomes a driver (application, documents, review), goes online, answers the other's
  request, drives and is rated. The properties of reachable databases are applied to its worlds.
\<close>

definition sample_crypto :: crypto where
  "sample_crypto =
     \<lparr>bcrypt_hash = (\<lambda>salt p. salt @ p), bcrypt_compare = (\<lambda>p h. h = ''s'' @ p),
      sha256_hex = (\<lambda>s. ''#'' @ s), jwt_sign = (\<lambda>u r. (case r of USER \<Rightarrow> CHR ''u'' | ADMIN \<Rightarrow> CHR ''a'') # u)\<rparr>"

definition sample_geography :: geography where
  "sample_geography =
     \<lparr>st_distance = (\<lambda>a b. 0), st_dwithin = (\<lambda>a b r. True), st_knn = (\<lambda>a b. 0)\<rparr>"

definition sample_env :: api_env where
  "sample_env =
     \<lparr>api_isUUID = (\<lambda>s. True), api_isPhoneNumber = (\<lambda>s. True), api_tz = 0, api_loadedAt = 1750000000000,
      api_geography = sample_geography,
      api_matchRadiusKm = 5, api_expirySeconds = 300, api_crypto = sample_crypto,
      api_refreshTtl = 1000000, api_codeTtl = 900000, api_codeExpiresIn = ''15m'',
      api_io = (\<lambda>p. True), api_uploadDir = ''/up''\<rparr>"

definition sample_file :: UploadableFile where
  "sample_file = \<lparr>uf_buffer = ''PNG'', uf_mimetype = ''image/png'', uf_originalname = ''a.png'', uf_size = 3\<rparr>"

definition sample_rider :: AuthenticatedUser where "sample_rider = \<lparr>au_userId = ''r'', au_role = USER\<rparr>"
definition sample_driver :: AuthenticatedUser where "sample_driver = \<lparr>au_userId = ''d'', au_role = USER\<rparr>"
definition sample_admin :: AuthenticatedUser where "sample_admin = \<lparr>au_userId = ''a'', au_role = ADMIN\<rparr>"

definition sample_people :: "(world \<Rightarrow> world) list" where
  "sample_people =
     [\<lambda>w. snd (AuthController_register sample_env ''s'' ''r'' ''k1'' ''t1'' 1
         \<lparr>reg_name = ''Rita'', reg_phone = ''1'', reg_password = ''password''\<rparr> w),
      \<lambda>w. snd (AuthController_register sample_env ''s'' ''d'' ''k2'' ''t2'' 2
         \<lparr>reg_name = ''Dan'', reg_phone = ''2'', reg_password = ''password''\<rparr> w)]"

definition sample_onboarding :: "(world \<Rightarrow> world) list" where
  "sample_onboarding =
     [\<lambda>w. snd (DriverApplicationController_start ''ap'' 3 sample_driver w),
      \<lambda>w. snd (DriverApplicationController_submitPersonalInfo sample_env 4 sample_driver
         \<lparr>spi_fullLegalName = ''Dan D'', spi_dateOfBirth = - 600000000000, spi_residentialAddress = ''x''\<rparr> w),
      \<lambda>w. snd (DriverApplicationController_submitLicense sample_env ''d1'' ''u1'' 5 sample_driver
         \<lparr>sl_licenseNumber = ''L'', sl_licenseExpiryDate = 9\<rparr> (Some sample_file) w),
      \<lambda>w. snd (DriverApplicationController_submitVehicle sample_env
         (\<lambda>t. if t = VEHICLE_PHOTO then (''d2'', ''u2'') else (''d3'', ''u3'')) 6 sample_driver
         \<lparr>sv_vehicleMake = ''M'', sv_vehicleModel = ''T'', sv_vehicleYear = 2020, sv_vehicleColor = ''red'',
          sv_plateNumber = ''P'', sv_registrationExpiryDate = 9\<rparr>
         \<lparr>vf_vehiclePhoto = [sample_file], vf_registrationDocument = [sample_file],
          vf_proofOfInsurance = [], vf_profilePhoto = []\<rparr> w),
      \<lambda>w. snd (AdminController_review sample_env ''pd'' 7 sample_admin ''ap''
         \<lparr>rad_decision = VERIFIED, rad_rejectionReason = None\<rparr> w),
      \<lambda>w. snd (UsersController_setActiveProfile sample_env 8 sample_driver DRIVER w),
      \<lambda>w. snd (DriversController_updateStatus 9 sample_driver True w),
      \<lambda>w. snd (DriversController_updateLocation 10 sample_driver 6 3 w)]"

definition sample_ride :: "(world \<Rightarrow> world) list" where
  "sample_ride =
     [\<lambda>w. snd (RideRequestsController_create sample_env ''q'' 11 sample_rider
         \<lparr>crr_pickupLat = 6, crr_pickupLng = 3, crr_dropoffLat = 7, crr_dropoffLng = 3, crr_suggestedFare = 10\<rparr> w),
      \<lambda>w. snd (submitOffer (api_expirySeconds sample_env) ''o'' 12 ''d'' ''q'' 12 w),
      \<lambda>w. snd (acceptOffer ''t'' 13 ''r'' ''o'' w),
      \<lambda>w. snd (TripsController_start sample_env 14 sample_driver ''t'' w),
      \<lambda>w. snd (TripsController_complete sample_env 15 sample_driver ''t'' w),
      \<lambda>w. snd (TripsController_rate sample_env ''v'' 16 sample_rider ''t'' \<lparr>rd_score = 4, rd_comment = None\<rparr> w)]"

definition run_ops :: "(world \<Rightarrow> world) list \<Rightarrow> world \<Rightarrow> world" where
  "run_ops fs w = fold (\<lambda>f w. f w) fs w"

definition online_world :: world where "online_world = run_ops (sample_people @ sample_onboarding) empty_world"
definition offered_world :: world where "offered_world = run_ops (take 2 sample_ride) online_world"
definition rated_world :: world where "rated_world = run_ops (drop 2 sample_ride) offered_world"

lemma run_steps:
  "(\<And>f. f \<in> set fs \<Longrightarrow> api_op env f) \<Longrightarrow> (system_step env)\<^sup>*\<^sup>* w (run_ops fs w)"
proof (induction fs arbitrary: w)
  case (Cons f fs)
  then have "system_step env w (f w)" by (auto simp: system_step_def)
  also have "(system_step env)\<^sup>*\<^sup>* (f w) (run_ops (f # fs) w)" using Cons by (simp add: run_ops_def)
  finally show ?case .
qed (simp add: run_ops_def)

lemma reachable_online: "(system_step sample_env)\<^sup>*\<^sup>* empty_world online_world"
  unfolding online_world_def sample_people_def sample_onboarding_def
  by (rule run_steps) (auto intro: api_op.intros)

lemma ride_steps:
  "(system_step sample_env)\<^sup>*\<^sup>* online_world offered_world"
  "(system_step sample_env)\<^sup>*\<^sup>* offered_world rated_world"
  unfolding offered_world_def rated_world_def sample_ride_def
  by (rule run_steps, auto intro: api_op.intros)+

lemma reachable:
  "(system_step sample_env)\<^sup>*\<^sup>* empty_world offered_world"
  "(system_step sample_env)\<^sup>*\<^sup>* empty_world rated_world"
  using reachable_online ride_steps by (meson rtranclp_trans)+

end
