(* ===== verification/AccountSpecs.thy ===== *)
theory AccountSpecs
  imports Journey
begin

section \<open>Account specifications: sessions, passwords, clean-up\<close>

text \<open>
  The contracts of AuthService and of the token clean-up: what a session is worth after a refresh,
  a logout, a password reset and the nightly job, and the race between two refreshes. They are
  applied to \<open>session_world\<close>, the database after the two registrations of Journey.
\<close>

definition session_world :: world where
  "session_world = run_ops sample_people empty_world"

lemma session_inv: "world_inv session_world"
proof (rule backend.reachable_inv [OF refl])
  show "(system_step sample_env)\<^sup>*\<^sup>* empty_world session_world"
    unfolding session_world_def sample_people_def by (rule run_steps) (auto intro: api_op.intros)
qed

text \<open>An account works as soon as it is registered: the phone number and password just registered
  log in, and the access token is signed for the same user and role (given that bcrypt accepts what it
  hashed and that the session drawn at login is new).\<close>

lemma register_then_login:
  assumes reg: "register c ttl salt ui i tok now dto w = (Inr pair, w')"
    and bcrypt: "bcrypt_compare c (reg_password dto) (bcrypt_hash c salt (reg_password dto))"
    and fresh: "i' \<notin> rtk_id ` set (refreshTokens w')"
      "sha256_hex c tok' \<notin> rtk_tokenHash ` set (refreshTokens w')"
  shows "fst (login c ttl i' tok' later \<lparr>log_phone = reg_phone dto, log_password = reg_password dto\<rparr> w')
    = Inr \<lparr>tp_accessToken = tp_accessToken pair, tp_refreshToken = tok'\<rparr>"
proof -
  let ?u = "new_user ui now (bcrypt_hash c salt (reg_password dto)) dto"
  from reg have none: "lookup u_phone (reg_phone dto) (users w) = None"
    by (auto simp: register_def findByPhone_def split: option.splits)
  from reg none obtain w1 where "user_create ?u w = Inr w1"
    and issue: "issueTokenPair c ttl i tok now (u_id ?u) (u_role ?u) w1 = (Inr pair, w')"
    by (auto simp: register_def findByPhone_def Let_def split: sum.splits)
  then have users: "users w' = users w @ [?u]"
    using issueTokenPair_Inr(1) [OF issue] by (auto simp: user_create_Inr)
  have found: "findByPhone (reg_phone dto) w' = Some ?u"
    using none by (simp add: findByPhone_def users lookup_append new_user_def)
  have exists: "user_exists (u_id ?u) w'" by (auto simp: users lookup_append split: option.splits)
  have "\<forall>x \<in> set (refreshTokens w'). rtk_id x \<noteq> i' \<and> rtk_tokenHash x \<noteq> sha256_hex c tok'"
    using fresh by (metis image_eqI)
  then have "create_row refreshToken_conflicts (user_exists (u_id ?u) w')
      (new_refresh_token c ttl i' tok' later (u_id ?u)) (refreshTokens w')
    = Inr (refreshTokens w' @ [new_refresh_token c ttl i' tok' later (u_id ?u)])"
    using exists by (auto simp: create_row_Inr refreshToken_conflicts_def new_refresh_token_def)
  then have "fst (issueTokenPair c ttl i' tok' later (u_id ?u) (u_role ?u) w')
    = Inr \<lparr>tp_accessToken = jwt_sign c (u_id ?u) (u_role ?u), tp_refreshToken = tok'\<rparr>"
    by (auto simp: issueTokenPair_def refreshToken_create_def on_table_def new_refresh_token_def split: sum.splits)
  moreover have "tp_accessToken pair = jwt_sign c (u_id ?u) (u_role ?u)"
    using issueTokenPair_Inr(2) [OF issue] by simp
  ultimately show ?thesis using bcrypt by (simp add: login_def found) (simp add: new_user_def)
qed



text \<open>A session that was logged out cannot be refreshed, whoever holds its token and whenever.\<close>

lemma logout_revokes:
  "refresh_load c later tok (snd (logout c now tok w))
    = Inl (UnauthorizedException ''Invalid or expired refresh token'')"
  by (cases "lookup rtk_tokenHash (sha256_hex c tok) (refreshTokens w)")
    (auto simp: logout_def refreshToken_updateMany_def refresh_load_def lookup_update_where
      dest: lookup_SomeD)

text \<open>C15: a password reset ends every session of the user and uses up the code. Once it succeeds,
  no token issued to the user before it can be refreshed, the user has no code left to redeem, and
  the new password logs in (given that bcrypt accepts what it hashed).\<close>

theorem resetPassword_ends_sessions:
  assumes inv: "accounts_inv w" and reset: "resetPassword c salt now dto w = (Inr (), w')"
    and user: "findByPhone (rst_phone dto) w = Some user"
    and bcrypt: "bcrypt_compare c (rst_newPassword dto) (bcrypt_hash c salt (rst_newPassword dto))"
  shows "(\<forall>tok s. lookup rtk_tokenHash (sha256_hex c tok) (refreshTokens w) = Some s \<longrightarrow>
        rtk_userId s = u_id user \<longrightarrow>
        refresh_load c later tok w' = Inl (UnauthorizedException ''Invalid or expired refresh token'')) \<and>
    resetPassword c salt' later (dto\<lparr>rst_code := code\<rparr>) w'
      = (Inl (UnauthorizedException ''Invalid or expired reset code''), w') \<and>
    (\<exists>user'. findByPhone (rst_phone dto) w' = Some user' \<and> u_id user' = u_id user \<and>
      bcrypt_compare c (rst_newPassword dto) (u_password user'))"
proof (intro conjI allI impI)
  from reset user obtain stored where stored: "stored \<in> set (passwordResetTokens w)"
      "redeemable c now (u_id user) (rst_code dto) stored"
    and w': "w' = w\<lparr>passwordResetTokens := update_where (\<lambda>t. prt_id t = prt_id stored)
        (\<lambda>t. t\<lparr>prt_usedAt := Some now\<rparr>) (passwordResetTokens w),
      users := update_where (\<lambda>x. u_id x = u_id user)
        (\<lambda>x. x\<lparr>u_password := bcrypt_hash c salt (rst_newPassword dto)\<rparr>) (users w),
      refreshTokens := update_where (\<lambda>t. rtk_userId t = u_id user \<and> rtk_revokedAt t = None) (revoke now)
        (refreshTokens w)\<rparr>"
    by (auto simp: resetPassword_def simp del: transaction.simps
        split: option.splits sum.splits dest!: resetPassword_commit find_SomeD)
  show "refresh_load c later tok w' = Inl (UnauthorizedException ''Invalid or expired refresh token'')"
    if "lookup rtk_tokenHash (sha256_hex c tok) (refreshTokens w) = Some s" "rtk_userId s = u_id user" for tok s
    using that by (auto simp: w' refresh_load_def lookup_update_where)
  have phone: "findByPhone (rst_phone dto) w' = Some (user\<lparr>u_password := bcrypt_hash c salt (rst_newPassword dto)\<rparr>)"
    using user by (simp add: w' findByPhone_def lookup_update_where)
  with bcrypt show "\<exists>user'. findByPhone (rst_phone dto) w' = Some user' \<and> u_id user' = u_id user \<and>
      bcrypt_compare c (rst_newPassword dto) (u_password user')" by simp
  have "\<not> redeemable c later (u_id user) code t" if "t \<in> set (passwordResetTokens w')" for t
  proof
    assume t: "redeemable c later (u_id user) code t"
    then have "t \<in> set (passwordResetTokens w)" "prt_id t \<noteq> prt_id stored"
      using that by (auto simp: w' redeemable_def elim!: in_update_whereE)
    with t stored inv show False by (auto simp: accounts_inv_def codes_ok_def redeemable_def)
  qed
  then have "find (redeemable c later (u_id user) code) (passwordResetTokens w') = None"
    by (simp add: find_None_iff)
  with phone show "resetPassword c salt' later (dto\<lparr>rst_code := code\<rparr>) w'
      = (Inl (UnauthorizedException ''Invalid or expired reset code''), w')"
    by (simp add: resetPassword_def)
qed

definition coded_world :: world where
  "coded_world = snd (forgotPassword sample_crypto 900000 ''15m'' ''c1'' ''1234'' 5 ''1'' session_world)"

lemma resetPassword_ends_sessions_witness:
  "\<exists>w'. resetPassword sample_crypto ''s'' 6 \<lparr>rst_phone = ''1'', rst_code = ''1234'', rst_newPassword = ''new''\<rparr> coded_world
       = (Inr (), w') \<and>
     refresh_load sample_crypto 7 ''t1'' w' = Inl (UnauthorizedException ''Invalid or expired refresh token'')"
proof -
  let ?dto = "\<lparr>rst_phone = ''1'', rst_code = ''1234'', rst_newPassword = ''new''\<rparr>"
  have inv: "accounts_inv coded_world"
    unfolding coded_world_def by (intro accounts_inv_forgotPassword world_invD(4) session_inv)
  have "fst (resetPassword sample_crypto ''s'' 6 ?dto coded_world) = Inr ()" by code_simp
  then obtain w' where run: "resetPassword sample_crypto ''s'' 6 ?dto coded_world = (Inr (), w')"
    by (metis prod.collapse)
  have "map_option u_id (findByPhone (rst_phone ?dto) coded_world) = Some ''r''" by code_simp
  then obtain u where u: "findByPhone (rst_phone ?dto) coded_world = Some u" "u_id u = ''r''" by auto
  have "map_option rtk_userId (lookup rtk_tokenHash (sha256_hex sample_crypto ''t1'') (refreshTokens coded_world))
      = Some ''r''" by code_simp
  then obtain s where s: "lookup rtk_tokenHash (sha256_hex sample_crypto ''t1'') (refreshTokens coded_world) = Some s"
    "rtk_userId s = ''r''" by auto
  have bcrypt: "bcrypt_compare sample_crypto (rst_newPassword ?dto) (bcrypt_hash sample_crypto ''s'' (rst_newPassword ?dto))"
    by (simp add: sample_crypto_def)
  show ?thesis
    using resetPassword_ends_sessions [OF inv run u(1) bcrypt, of 7] run s u(2) by auto
qed

text \<open>The nightly clean-up is invisible: from the moment it runs, every refresh is accepted or
  refused exactly as it would have been without it.\<close>

lemma cleanup_invisible:
  assumes "unique_on rtk_tokenHash (refreshTokens w)" "now \<le> later"
  shows "refresh_load c later tok (removeExpiredRefreshTokens now w) = refresh_load c later tok w"
proof (cases "lookup rtk_tokenHash (sha256_hex c tok) (refreshTokens w)")
  case None
  then have "lookup rtk_tokenHash (sha256_hex c tok)
      (filter (\<lambda>t. \<not> rtk_expiresAt t < now) (refreshTokens w)) = None"
    by (auto simp: lookup_None_iff)
  with None show ?thesis by (simp add: refresh_load_def removeExpiredRefreshTokens_def)
next
  case (Some s)
  let ?ts = "filter (\<lambda>t. \<not> rtk_expiresAt t < now) (refreshTokens w)"
  have uniq: "unique_on rtk_tokenHash ?ts"
    using assms(1) by (simp add: unique_on_def distinct_map_filter)
  have s: "s \<in> set (refreshTokens w)" "rtk_tokenHash s = sha256_hex c tok"
    using Some by (auto dest: lookup_SomeD)
  show ?thesis
  proof (cases "rtk_expiresAt s < now")
    case True
    then have "lookup rtk_tokenHash (sha256_hex c tok) ?ts = None"
      using assms(1) s by (auto simp: lookup_None_iff dest: unique_on_eq)
    with Some True assms(2) show ?thesis by (simp add: refresh_load_def removeExpiredRefreshTokens_def)
  next
    case False
    with s uniq have "lookup rtk_tokenHash (sha256_hex c tok) ?ts = Some s" by (simp add: lookup_Some_iff)
    with Some show ?thesis by (simp add: refresh_load_def removeExpiredRefreshTokens_def)
  qed
qed

lemma cleanup_invisible_witness:
  "refresh_load sample_crypto 2000000 ''t1'' (removeExpiredRefreshTokens 1500000 session_world)
     = refresh_load sample_crypto 2000000 ''t1'' session_world \<and>
   refreshTokens (removeExpiredRefreshTokens 1500000 session_world) = []"
proof
  have "unique_on rtk_tokenHash (refreshTokens session_world)"
    using world_invD(4) [OF session_inv] by (simp add: accounts_inv_def)
  then show "refresh_load sample_crypto 2000000 ''t1'' (removeExpiredRefreshTokens 1500000 session_world)
     = refresh_load sample_crypto 2000000 ''t1'' session_world"
    by (rule cleanup_invisible) simp
  show "refreshTokens (removeExpiredRefreshTokens 1500000 session_world) = []" by code_simp
qed

text \<open>A token that was read once can be revoked, and a new pair issued for it, whatever happened since.\<close>

lemma refresh_commit_again:
  assumes v: "accounts_inv v" "user_exists (rtk_userId s) v" "rtk_id s \<in> rtk_id ` set (refreshTokens v)"
    and new: "i \<notin> rtk_id ` set (refreshTokens v)" "sha256_hex c new \<notin> rtk_tokenHash ` set (refreshTokens v)"
  shows "\<exists>pair w'. refresh_commit c ttl i new now s v = (Inr pair, w') \<and> tp_refreshToken pair = new \<and>
    users w' = users v \<and> accounts_inv w' \<and>
    rtk_id ` set (refreshTokens w') = insert i (rtk_id ` set (refreshTokens v)) \<and>
    rtk_tokenHash ` set (refreshTokens w') = insert (sha256_hex c new) (rtk_tokenHash ` set (refreshTokens v))"
proof -
  let ?v = "v\<lparr>refreshTokens := update_where (\<lambda>t. rtk_id t = rtk_id s) (revoke now) (refreshTokens v)\<rparr>"
  have keys: "unique_on rtk_id (refreshTokens v)" "unique_on rtk_tokenHash (refreshTokens v)"
    using v(1) by (simp_all add: accounts_inv_def)
  from v(3) obtain s' where s': "s' \<in> set (refreshTokens v)" "rtk_id s' = rtk_id s" by auto
  then have "lookup rtk_id (rtk_id s) (refreshTokens v) = Some s'"
    using keys(1) by (simp add: lookup_Some_iff)
  then have "update_row refreshToken_conflicts (\<lambda>t. rtk_id t = rtk_id s) (revoke now) (refreshTokens v)
      = Inr (update_where (\<lambda>t. rtk_id t = rtk_id s) (revoke now) (refreshTokens v))"
  proof (rule update_row_ok)
    fix x assume "x \<in> set (refreshTokens v)" "refreshToken_conflicts (revoke now s') x"
    with keys s'(1) show "x = s'" by (auto simp: refreshToken_conflicts_def dest: unique_on_eq)
  qed
  then have upd: "refreshToken_update (rtk_id s) (revoke now) v = Inr ?v"
    by (simp add: refreshToken_update_def on_table_def)
  from v(2) obtain u where u: "findById (rtk_userId s) ?v = Some u" "u_id u = rtk_userId s"
    by (auto simp: findById_def dest: lookup_SomeD)
  let ?t = "new_refresh_token c ttl i new now (u_id u)"
  have "create_row refreshToken_conflicts (user_exists (rtk_userId ?t) ?v) ?t (refreshTokens ?v)
      = Inr (refreshTokens ?v @ [?t])"
  proof -
    have "\<forall>x \<in> set (refreshTokens v). rtk_id x \<noteq> i \<and> rtk_tokenHash x \<noteq> sha256_hex c new"
      using new by (metis image_eqI)
    then have "\<not> refreshToken_conflicts ?t x" if "x \<in> set (refreshTokens ?v)" for x
      using that by (auto simp: refreshToken_conflicts_def new_refresh_token_def elim!: in_update_whereE)
    with u v(2) show ?thesis by (auto simp: create_row_Inr new_refresh_token_def)
  qed
  then have "refreshToken_create ?t ?v = Inr (?v\<lparr>refreshTokens := refreshTokens ?v @ [?t]\<rparr>)"
    by (simp add: refreshToken_create_Inr)
  then have issue: "issueTokenPair c ttl i new now (u_id u) (u_role u) ?v
      = (Inr \<lparr>tp_accessToken = jwt_sign c (u_id u) (u_role u), tp_refreshToken = new\<rparr>,
         ?v\<lparr>refreshTokens := refreshTokens ?v @ [?t]\<rparr>)"
    by (simp add: issueTokenPair_def)
  then have eq: "refresh_commit c ttl i new now s v
      = (Inr \<lparr>tp_accessToken = jwt_sign c (u_id u) (u_role u), tp_refreshToken = new\<rparr>,
         ?v\<lparr>refreshTokens := refreshTokens ?v @ [?t]\<rparr>)"
    using upd u(1) by (simp add: refresh_commit_def)
  have "accounts_inv (?v\<lparr>refreshTokens := refreshTokens ?v @ [?t]\<rparr>)"
    by (rule accounts_inv_issue [OF accounts_inv_revoke [OF v(1)] issue])
  moreover have "rtk_id ?t = i" "rtk_tokenHash ?t = sha256_hex c new" by (simp_all add: new_refresh_token_def)
  moreover have "rtk_id ` set (refreshTokens ?v) = rtk_id ` set (refreshTokens v)"
    "rtk_tokenHash ` set (refreshTokens ?v) = rtk_tokenHash ` set (refreshTokens v)"
    by (simp_all add: image_update_where)
  ultimately have "tp_refreshToken \<lparr>tp_accessToken = jwt_sign c (u_id u) (u_role u), tp_refreshToken = new\<rparr> = new \<and>
    users (?v\<lparr>refreshTokens := refreshTokens ?v @ [?t]\<rparr>) = users v \<and>
    accounts_inv (?v\<lparr>refreshTokens := refreshTokens ?v @ [?t]\<rparr>) \<and>
    rtk_id ` set (refreshTokens (?v\<lparr>refreshTokens := refreshTokens ?v @ [?t]\<rparr>))
      = insert i (rtk_id ` set (refreshTokens v)) \<and>
    rtk_tokenHash ` set (refreshTokens (?v\<lparr>refreshTokens := refreshTokens ?v @ [?t]\<rparr>))
      = insert (sha256_hex c new) (rtk_tokenHash ` set (refreshTokens v))" by simp
  with eq show ?thesis by blast
qed

text \<open>One refresh token can be replayed. Two refreshes that both read the token before either of
  them revokes it both succeed, each with its own new pair: the check and the revocation are not one
  step.\<close>

lemma refresh_race:
  assumes inv: "accounts_inv w" and load: "refresh_load c now tok w = Inr s"
    and user: "user_exists (rtk_userId s) w"
    and fresh: "i1 \<noteq> i2" "sha256_hex c new1 \<noteq> sha256_hex c new2"
      "{i1, i2} \<inter> rtk_id ` set (refreshTokens w) = {}"
      "{sha256_hex c new1, sha256_hex c new2} \<inter> rtk_tokenHash ` set (refreshTokens w) = {}"
  shows "\<exists>pair1 pair2 w1 w2. refresh_commit c ttl i1 new1 now s w = (Inr pair1, w1) \<and>
      refresh_commit c ttl i2 new2 now s w1 = (Inr pair2, w2) \<and>
      tp_refreshToken pair1 = new1 \<and> tp_refreshToken pair2 = new2"
proof -
  have s: "s \<in> set (refreshTokens w)" using load by (auto simp: refresh_load_Inr dest: lookup_SomeD)
  from refresh_commit_again [of w s i1 c new1 ttl now] inv user s fresh obtain pair1 w1 where
    1: "refresh_commit c ttl i1 new1 now s w = (Inr pair1, w1)" "tp_refreshToken pair1 = new1"
      "users w1 = users w" "accounts_inv w1"
      "rtk_id ` set (refreshTokens w1) = insert i1 (rtk_id ` set (refreshTokens w))"
      "rtk_tokenHash ` set (refreshTokens w1) = insert (sha256_hex c new1) (rtk_tokenHash ` set (refreshTokens w))"
    by auto
  from s 1(5) have "rtk_id s \<in> rtk_id ` set (refreshTokens w1)" by simp
  with refresh_commit_again [of w1 s i2 c new2 ttl now] 1 user fresh obtain pair2 w2 where
    "refresh_commit c ttl i2 new2 now s w1 = (Inr pair2, w2)" "tp_refreshToken pair2 = new2"
    by auto
  with 1 show ?thesis by blast
qed

lemma refresh_race_witness:
  "\<exists>s pair1 pair2 w1 w2. refresh_load sample_crypto 5 ''t1'' session_world = Inr s \<and>
     refresh_commit sample_crypto 1000000 ''k3'' ''t3'' 5 s session_world = (Inr pair1, w1) \<and>
     refresh_commit sample_crypto 1000000 ''k4'' ''t4'' 5 s w1 = (Inr pair2, w2)"
proof -
  have "map_option rtk_userId (case refresh_load sample_crypto 5 ''t1'' session_world of Inl e \<Rightarrow> None | Inr s \<Rightarrow> Some s)
      = Some ''r''" by code_simp
  then obtain s where s: "refresh_load sample_crypto 5 ''t1'' session_world = Inr s" "rtk_userId s = ''r''"
    by (auto split: sum.splits)
  have "lookup u_id ''r'' (users session_world) \<noteq> None" by code_simp
  with s(2) have user: "user_exists (rtk_userId s) session_world" by simp
  have fresh: "''k3'' \<noteq> ''k4''" "sha256_hex sample_crypto ''t3'' \<noteq> sha256_hex sample_crypto ''t4''"
    "{''k3'', ''k4''} \<inter> rtk_id ` set (refreshTokens session_world) = {}"
    "{sha256_hex sample_crypto ''t3'', sha256_hex sample_crypto ''t4''} \<inter>
       rtk_tokenHash ` set (refreshTokens session_world) = {}"
    by code_simp+
  show ?thesis using refresh_race [OF world_invD(4) [OF session_inv] s(1) user fresh] s(1) by blast
qed

end
