(* ===== verification/Logs.thy ===== *)
theory Logs
  imports System
begin

section \<open>Logs: what each operation adds to the event log and to the queue\<close>

text \<open>
  An operation of the API is one of the seven ride operations (\<open>ride_op\<close>), or it leaves requests,
  offers and trips alone and adds nothing to the logs but events about drivers and disconnect jobs
  (\<open>bystander\<close>). Invariants that tie the logs to the rides (the queue in Scheduling, the events in
  Relay) have to look at the seven only.
\<close>

fun driver_event :: "DomainEvent \<Rightarrow> bool" where
  "driver_event (DriverLocationUpdated u lat lng) = True"
| "driver_event (DriverOnlineStatusChanged u b lat lng) = True"
| "driver_event _ = False"

fun disconnect_job :: "queue_command \<Rightarrow> bool" where
  "disconnect_job (AddJob k (ExpireDriverPendingOffers p) d a b) = (k = disconnect_job_id p)"
| "disconnect_job _ = False"

definition bystander :: "world \<Rightarrow> world \<Rightarrow> bool" where
  "bystander w w' \<longleftrightarrow>
     rideRequests w' = rideRequests w \<and> rideOffers w' = rideOffers w \<and> trips w' = trips w \<and>
     (\<exists>es. events w' = events w @ es \<and> list_all driver_event es) \<and>
     (\<exists>qs. queue w' = queue w @ qs \<and> list_all disconnect_job qs)"

lemma bystander_refl [simp]: "bystander w w"
  by (simp add: bystander_def)

lemma bystander_quiet:
  "rideRequests w' = rideRequests w \<Longrightarrow> rideOffers w' = rideOffers w \<Longrightarrow> trips w' = trips w \<Longrightarrow>
     events w' = events w \<Longrightarrow> queue w' = queue w \<Longrightarrow> bystander w w'"
  by (simp add: bystander_def)

lemma bystander_trans: "bystander w v \<Longrightarrow> bystander v x \<Longrightarrow> bystander w x"
  unfolding bystander_def by (metis append.assoc list_all_append)

lemma bystander_writes [simp]:
  "bystander w (w'\<lparr>redis := m\<rparr>) = bystander w w'"
  "bystander w (w'\<lparr>driverProfiles := ps\<rparr>) = bystander w w'"
  "bystander w (w'\<lparr>users := us\<rparr>) = bystander w w'"
  "bystander w (w'\<lparr>refreshTokens := rs\<rparr>) = bystander w w'"
  "bystander w (w'\<lparr>ratings := rts\<rparr>) = bystander w w'"
  by (simp_all add: bystander_def)

lemma bystander_emit:
  assumes "driver_event e" "bystander w w'"
  shows "bystander w (emit e w')"
proof -
  from assms(2) obtain es where "events w' = events w @ es" "list_all driver_event es"
    by (auto simp: bystander_def)
  with assms show ?thesis by (auto simp: bystander_def emit_def intro: exI [of _ "es @ [e]"])
qed

lemma bystander_schedule:
  assumes "bystander w w'"
  shows "bystander w (scheduleDriverOfferExpiry secs i w')"
proof -
  from assms obtain qs where "queue w' = queue w @ qs" "list_all disconnect_job qs"
    by (auto simp: bystander_def)
  with assms show ?thesis
    by (auto simp: bystander_def scheduleDriverOfferExpiry_def enqueue_def intro: exI [of _ "qs @ [_]"])
qed

subsection \<open>The bystanders\<close>

lemma update_profile_writes:
  "update_profile u f w = (r, w') \<Longrightarrow> \<exists>ps. w' = w\<lparr>driverProfiles := ps\<rparr>"
  by (auto simp: update_profile_def driverProfile_update_def on_table_Inr
      split: sum.splits option.splits intro: exI [of _ "driverProfiles w"])

lemma bystander_driver_ops:
  "bystander w (snd (setOnlineStatus now u b w))"
  "bystander w (snd (updateLocation now u lat lng w))"
  "bystander w (snd (goOffline secs now u w))"
  by (auto simp: setOnlineStatus_def updateLocation_def goOffline_def bystander_emit bystander_schedule
      split: prod.splits sum.splits option.splits
      dest!: findIdentity_world update_profile_writes)

lemma bystander_setActiveProfile: "bystander w (snd (setActiveProfile secs now u prf w))"
proof -
  have "bystander w (snd (goOffline secs now u (w\<lparr>users := us\<rparr>)))" for us
    using bystander_trans [OF _ bystander_driver_ops(3), of w "w\<lparr>users := us\<rparr>"] by simp
  then show ?thesis
    by (auto simp: setActiveProfile_def split: prod.splits sum.splits option.splits
        dest!: user_update_Inr) (metis snd_conv)+
qed

lemma bystander_onboarding: "frame_onboarding w w' \<Longrightarrow> bystander w w'"
  by (rule bystander_quiet) (simp_all add: frame_onboarding_def)

lemma bystander_tokens: "tokens_only w w' \<Longrightarrow> bystander w w'"
  by (rule bystander_quiet) (auto simp: tokens_only_def)

lemma bystander_register: "bystander w (snd (register c ttl salt ui i tok now dto w))"
proof -
  have "bystander w w'" if "issueTokenPair c ttl i tok now u role (w\<lparr>users := us\<rparr>) = (r, w')" for us u role r w'
    using issue_world [OF that] by auto
  then show ?thesis
    by (auto simp: register_def Let_def user_create_Inr split: option.splits sum.splits) (metis prod.collapse)
qed

lemma bystander_resetPassword: "bystander w (snd (resetPassword c salt now dto w))"
  by (rule bystander_quiet)
    (auto simp: resetPassword_def simp del: transaction.simps
      split: option.splits sum.splits dest!: resetPassword_commit)

lemma bystander_rateTrip: "bystander w (snd (rateTrip newId now i u dto w))"
  by (auto simp: rateTrip_def recalculateRating_def rating_create_Inr
      split: sum.splits prod.splits option.splits dest!: user_update_Inr)

lemma bystander_view: "bystander w (snd (findOneForUser i u w))"
  by (simp add: findOneForUser_def split: sum.splits)

lemmas bystander_ops =
  bystander_driver_ops bystander_setActiveProfile bystander_register bystander_resetPassword
  bystander_rateTrip bystander_view
  bystander_onboarding [OF onboarding_op_frames(1)] bystander_onboarding [OF onboarding_op_frames(3)]
  bystander_onboarding [OF onboarding_op_frames(5)] bystander_onboarding [OF onboarding_op_frames(7)]
  bystander_onboarding [OF onboarding_op_frames(9)] bystander_onboarding [OF conjunct1 [OF review_frames]]
  bystander_tokens [OF tokens_only_login] bystander_tokens [OF tokens_only_refresh_op]
  bystander_tokens [OF tokens_only_forgotPassword]

lemma bystander_sessions:
  "bystander w (snd (logout c now tok w))" "bystander w (removeExpiredRefreshTokens now w)"
  by (simp_all add: logout_def refreshToken_updateMany_def removeExpiredRefreshTokens_def)

subsection \<open>The ride operations\<close>

inductive ride_op :: "api_env \<Rightarrow> world \<Rightarrow> world \<Rightarrow> bool" for env :: api_env and w :: world where
  created: "ride_op env w (snd (createRideRequest (api_geography env) (api_matchRadiusKm env) newId now u dto w))"
| offered: "ride_op env w (snd (submitOffer (api_expirySeconds env) newId now u i fare w))"
| accepted: "ride_op env w (snd (acceptOffer newId now u i w))"
| cancelled: "ride_op env w (snd (cancelRideRequest i now u reason w))"
| started: "ride_op env w (snd (startTrip i now u w))"
| completed: "ride_op env w (snd (completeTrip i now u w))"
| job_run: "ride_op env w (snd (process_job j w))"

definition classified :: "api_env \<Rightarrow> world \<Rightarrow> world \<Rightarrow> bool" where
  "classified env w w' \<longleftrightarrow> bystander w w' \<or> ride_op env w w'"

lemma classified_bystander: "bystander w w' \<Longrightarrow> classified env w w'"
  by (simp add: classified_def)

lemma classified_ride: "ride_op env w w' \<Longrightarrow> classified env w w'"
  by (simp add: classified_def)

lemmas classified_ops =
  bystander_ops [THEN classified_bystander] bystander_sessions [THEN classified_bystander]
  ride_op.intros [THEN classified_ride]

interpretation classified: handler_relation "classified env" for env
  by unfold_locales (simp add: classified_bystander)

lemma api_op_classified:
  assumes "api_op env f"
  shows "classified env w (f w)"
  using assms
  by cases
    (simp_all add: endpoint_defs classified_ops classified.guards classified_bystander split: option.split)

subsection \<open>Driver profiles are never lost\<close>

definition profiles_kept :: "world \<Rightarrow> world \<Rightarrow> bool" where
  "profiles_kept w w' \<longleftrightarrow> profile_users w \<subseteq> profile_users w'"

lemma profiles_kept_same: "driverProfiles w' = driverProfiles w \<Longrightarrow> profiles_kept w w'"
  by (simp add: profiles_kept_def profile_users_def)

lemma profiles_kept_refl [simp]: "profiles_kept w w"
  by (simp add: profiles_kept_def)

lemma profiles_kept_frames:
  "frame_rides w w' \<Longrightarrow> profiles_kept w w'"
  "tokens_only w w' \<Longrightarrow> profiles_kept w w'"
  "profile_changed u f w w' \<Longrightarrow> (\<And>p. same_profile p (f p)) \<Longrightarrow> profiles_kept w w'"
  "profile_added w w' \<Longrightarrow> profiles_kept w w'"
proof -
  show "frame_rides w w' \<Longrightarrow> profiles_kept w w'" by (rule profiles_kept_same) (simp add: frame_rides_def)
  show "tokens_only w w' \<Longrightarrow> profiles_kept w w'" by (rule profiles_kept_same) (auto simp: tokens_only_def)
  show "profile_changed u f w w' \<Longrightarrow> (\<And>p. same_profile p (f p)) \<Longrightarrow> profiles_kept w w'"
    unfolding profiles_kept_def using profile_changed_views(1) by fastforce
  show "profile_added w w' \<Longrightarrow> profiles_kept w w'"
    unfolding profile_added_def profiles_kept_def profile_users_def by (auto simp: create_row_Inr)
qed

lemma profiles_kept_setActiveProfile: "profiles_kept w (snd (setActiveProfile secs now u prf w))"
proof -
  have "profiles_kept w (snd (goOffline secs now u (w\<lparr>users := us\<rparr>)))" for us
    using profiles_kept_frames(3) [OF goOffline_changed [of u "w\<lparr>users := us\<rparr>" secs now]]
    by (simp add: profiles_kept_def profile_users_def)
  then show ?thesis
    by (auto simp: setActiveProfile_def profiles_kept_same split: prod.splits sum.splits option.splits
        dest!: user_update_Inr) (metis snd_conv)+
qed

lemma same_profiles_others:
  "driverProfiles (snd (register c ttl salt ui i tok now gdto w)) = driverProfiles w"
  "driverProfiles (snd (resetPassword c salt now sdto w)) = driverProfiles w"
  "driverProfiles (snd (rateTrip newId now i u rdto w)) = driverProfiles w"
  "driverProfiles (snd (findOneForUser i u w)) = driverProfiles w"
  "driverProfiles (snd (logout c now tok w)) = driverProfiles w"
  "driverProfiles (removeExpiredRefreshTokens now w) = driverProfiles w"
proof -
  have "driverProfiles w' = driverProfiles w"
    if "issueTokenPair c ttl i tok now u role (w\<lparr>users := us\<rparr>) = (r, w')" for us u role r w'
    using issue_world [OF that] by auto
  then show "driverProfiles (snd (register c ttl salt ui i tok now gdto w)) = driverProfiles w"
    by (auto simp: register_def Let_def user_create_Inr split: option.splits sum.splits) (metis prod.collapse)
  show "driverProfiles (snd (resetPassword c salt now sdto w)) = driverProfiles w"
    by (auto simp: resetPassword_def simp del: transaction.simps
      split: option.splits sum.splits dest!: resetPassword_commit)
  show "driverProfiles (snd (rateTrip newId now i u rdto w)) = driverProfiles w"
    by (auto simp: rateTrip_def recalculateRating_def rating_create_Inr
      split: sum.splits prod.splits option.splits dest!: user_update_Inr)
  show "driverProfiles (snd (findOneForUser i u w)) = driverProfiles w"
    by (simp add: findOneForUser_def split: sum.splits)
qed (simp_all add: logout_def refreshToken_updateMany_def removeExpiredRefreshTokens_def)

interpretation profiles_kept: handler_relation profiles_kept
  by unfold_locales simp

lemmas profiles_kept_ops =
  profiles_kept_setActiveProfile same_profiles_others [THEN profiles_kept_same] profiles_kept.guards
  frame_rides_ops [THEN profiles_kept_frames(1)] frame_rides_process_job [THEN profiles_kept_frames(1)]
  tokens_only_login [THEN profiles_kept_frames(2)] tokens_only_refresh_op [THEN profiles_kept_frames(2)]
  tokens_only_forgotPassword [THEN profiles_kept_frames(2)]
  profiles_kept_frames(3) [OF setOnlineStatus_changed] profiles_kept_frames(3) [OF updateLocation_changed]
  profiles_kept_frames(3) [OF goOffline_changed]
  onboarding_op_frames(2,4,6,8,10) [THEN profiles_kept_same] conjunct2 [OF review_frames, THEN profiles_kept_frames(4)]

lemma api_op_profiles_kept:
  assumes "api_op env f"
  shows "profiles_kept w (f w)"
  using assms
  by cases (simp_all add: endpoint_defs profiles_kept_ops split: option.split)

end
