(* ===== verification/Columns.thy ===== *)
theory Columns
  imports Logs Journey
begin

section \<open>Columns: what the stored rows hold\<close>

text \<open>
  The schema types the columns of rides and positions as plain numbers and text; what the validators
  check on the way in holds of every row for ever. The rules for the ride operations come first, then
  the positions of the drivers, then the two together along every run.
\<close>

definition request_columns :: "RideRequest \<Rightarrow> bool" where
  "request_columns r \<longleftrightarrow>
     isLatitude (rr_pickupLat r) \<and> isLongitude (rr_pickupLng r) \<and>
     isLatitude (rr_dropoffLat r) \<and> isLongitude (rr_dropoffLng r) \<and>
     0 < rr_suggestedFare r \<and> valid_CancelRideRequestDto (rr_cancelReason r)"

definition trip_columns :: "Trip \<Rightarrow> bool" where
  "trip_columns t \<longleftrightarrow> 0 < t_agreedFare t \<and> valid_CancelRideRequestDto (t_cancelReason t)"


definition ride_columns :: "world \<Rightarrow> bool" where
  "ride_columns w \<longleftrightarrow>
     (\<forall>r \<in> set (rideRequests w). request_columns r) \<and>
     (\<forall>f \<in> set (rideOffers w). 0 < ro_offeredFare f) \<and>
     (\<forall>t \<in> set (trips w). trip_columns t)"


subsection \<open>Rides\<close>




lemma ride_columns_logs [simp]:
  "ride_columns (emit e w) = ride_columns w" "ride_columns (enqueue c w) = ride_columns w"
  "ride_columns (cancelScheduledExpiry i w) = ride_columns w"
  "ride_columns (scheduleExpiry secs i w) = ride_columns w"
  "ride_columns (fold cancelScheduledExpiry is w) = ride_columns w"
proof -
  show cancel: "ride_columns (cancelScheduledExpiry i w) = ride_columns w" for i w
    by (simp add: cancelScheduledExpiry_def enqueue_def ride_columns_def)
  show "ride_columns (fold cancelScheduledExpiry is w) = ride_columns w"
    by (induction "is" arbitrary: w) (simp_all add: cancel)
qed (simp_all add: emit_def enqueue_def scheduleExpiry_def cancelScheduledExpiry_def ride_columns_def)










subsection \<open>Positions\<close>












end
