(* ===== verification/RideSpecs.thy ===== *)
theory RideSpecs
  imports Scenario
begin

section \<open>Ride specifications: what each ride operation does, branch by branch\<close>

text \<open>
  The contracts of OffersService, RideRequestsService and TripsService over worlds that satisfy
  the ride invariant. A witness after each theorem applies it to a world of Scenario.
\<close>

subsection \<open>Loading an offer with the user behind it\<close>

lemma driver_user_of_ok:
  assumes "ride_inv w" "f \<in> set (rideOffers w)"
  shows "\<exists>u. driver_user_of f w = Inr u"
proof -
  note r = ride_invD(1,2) [OF assms(1)]
  from assms(2) r(2) have "ro_driverId f \<in> dp_id ` set (driverProfiles w)" by (auto simp: refs_ok_def)
  then obtain p where p: "lookup dp_id (ro_driverId f) (driverProfiles w) = Some p"
    using lookup_None_image by (metis option.exhaust)
  then have "dp_userId p \<in> u_id ` set (users w)" using r(2) by (auto simp: refs_ok_def dest: lookup_SomeD)
  then obtain u where "lookup u_id (dp_userId p) (users w) = Some u"
    using lookup_None_image by (metis option.exhaust)
  with p show ?thesis by (simp add: driver_user_of_def)
qed

lemma with_driver_users_ok:
  assumes "ride_inv w" "set fs \<subseteq> set (rideOffers w)"
  shows "\<exists>us. with_driver_users fs w = Inr us \<and> map fst us = fs \<and>
    (\<forall>(f, u) \<in> set us. (ro_driverId f, u_id u) \<in> profile_users w)"
  using assms(2)
proof (induction fs)
  case (Cons f fs)
  with driver_user_of_ok [OF assms(1), of f] obtain u where "driver_user_of f w = Inr u" by auto
  with Cons driver_user_of_Inr show ?case by fastforce
qed simp

lemma views_fields [simp]:
  "status_of (w\<lparr>events := es\<rparr>) = status_of w" "trip_of (w\<lparr>events := es\<rparr>) = trip_of w"
  "status_of (w\<lparr>queue := qs\<rparr>) = status_of w" "trip_of (w\<lparr>queue := qs\<rparr>) = trip_of w"
  by (simp_all add: status_of_def trip_of_def fun_eq_iff)

text \<open>What follows the transaction of an acceptance only writes the logs.\<close>

lemma cancelled_jobs:
  "fold cancelScheduledExpiry is w = w\<lparr>queue := queue w @ map (RemoveJob \<circ> offer_job_id) is\<rparr>"
  by (induction "is" arbitrary: w) (simp_all add: cancelScheduledExpiry_def enqueue_def)

lemma finish_world:
  "acceptOffer_finish v others t w =
     w\<lparr>queue := queue w @ map (RemoveJob \<circ> offer_job_id) (ro_id (ov_offer v) # map (ro_id \<circ> fst) others),
       events := events w @ [OfferAccepted ((ov_request v)\<lparr>rr_status := RideRequestStatus.MATCHED\<rparr>) t
         ((ov_offer v)\<lparr>ro_status := OfferStatus.ACCEPTED\<rparr>) (map (u_id \<circ> snd) others)]\<rparr>"
  by (simp add: acceptOffer_finish_def cancelled_jobs cancelScheduledExpiry_def enqueue_def emit_def comp_def)

lemma status_of_written:
  assumes "rideRequests w' = update_where (\<lambda>r. rr_id r = i) f (rideRequests w)"
    and "\<And>r. rr_id (f r) = rr_id r" "\<And>r. rr_status (f r) = s" and "status_of w i \<noteq> None"
  shows "status_of w' = (status_of w)(i \<mapsto> s)"
proof -
  have "status_of w' j = (if j = i then map_option (\<lambda>_. s) (status_of w i) else status_of w j)" for j
    using status_of_set [where f = f and s = s and w = w and i = i and j = j] assms(1-3)
    by (simp add: status_of_def)
  then show ?thesis using assms(4) by (auto simp: fun_eq_iff)
qed

subsection \<open>Accepting an offer\<close>

lemma acceptOffer_commit_writes:
  assumes "keys_ok w" "ro_id (ov_offer v) \<in> ro_id ` set (rideOffers w)"
    and req: "lookup rr_id (ro_rideRequestId (ov_offer v)) (rideRequests w) \<noteq> None"
    and "trip_of w (ro_rideRequestId (ov_offer v)) = None" "newId \<notin> t_id ` set (trips w)"
    and "riderId \<in> u_id ` set (users w)" "ov_driverUserId v \<in> u_id ` set (users w)"
  shows "acceptOffer_commit newId now riderId v w =
    Inr (w\<lparr>rideOffers := accepted_offers (ov_offer v) (rideOffers w),
       rideRequests := update_where (\<lambda>r. rr_id r = ro_rideRequestId (ov_offer v))
         (\<lambda>r. r\<lparr>rr_status := RideRequestStatus.MATCHED\<rparr>) (rideRequests w),
       trips := trips w @ [new_trip newId now riderId v]\<rparr>)"
proof -
  note keys = assms(1) [unfolded keys_ok_def]
  let ?f = "ov_offer v" and ?t = "new_trip newId now riderId v"
  let ?a = "\<lambda>f. f\<lparr>ro_status := OfferStatus.ACCEPTED\<rparr>" and ?m = "\<lambda>r. r\<lparr>rr_status := RideRequestStatus.MATCHED\<rparr>"
  let ?w1 = "w\<lparr>rideOffers := update_where (\<lambda>r. ro_id r = ro_id ?f) ?a (rideOffers w)\<rparr>"
  let ?w2 = "w\<lparr>rideOffers := accepted_offers ?f (rideOffers w)\<rparr>"
  let ?w3 = "?w2\<lparr>rideRequests := update_where (\<lambda>r. rr_id r = ro_rideRequestId ?f) ?m (rideRequests w)\<rparr>"
  obtain g where "lookup ro_id (ro_id ?f) (rideOffers w) = Some g"
    using assms(2) lookup_None_image by (metis option.exhaust)
  then have 1: "rideOffer_update (ro_id ?f) ?a w = Inr ?w1"
    using keys rideOffer_update_ok [of w "ro_id ?f" g ?a] by (auto simp: ro_key_def dest: lookup_SomeD)
  have 2: "rideOffer_updateMany (competing ?f) (\<lambda>f. f\<lparr>ro_status := OfferStatus.EXPIRED\<rparr>) ?w1 = Inr ?w2"
    by (simp add: rideOffer_updateMany_def accepted_offers_def)
  obtain r where r: "lookup rr_id (ro_rideRequestId ?f) (rideRequests w) = Some r" using req by blast
  then have 3: "rideRequest_update (ro_rideRequestId ?f) ?m ?w2 = Inr ?w3"
    using keys rideRequest_update_ok [of ?w2 "ro_rideRequestId ?f" r ?m] by (auto dest: lookup_SomeD)
  have new: "\<forall>x \<in> set (trips w). \<not> trip_conflicts ?t x"
    using assms(4,5) by (auto simp: trip_conflicts_def new_trip_def trip_of_def lookup_None_iff)
  have "trip_create ?t ?w3 = Inr (?w3\<lparr>trips := trips w @ [?t]\<rparr>)"
    using new r assms(6,7) by (simp add: trip_create_Inr create_row_Inr new_trip_def lookup_update_where lookup_None_image)
  then show ?thesis by (simp only: acceptOffer_commit_def transaction.simps 1 2 3 sum.case)
qed

lemma acceptOffer_commit_ok:
  assumes inv: "ride_inv w" and load: "acceptOffer_load riderId offerId w = Inr v"
    and fresh: "newId \<notin> t_id ` set (trips w)"
  shows "acceptOffer_commit newId now riderId v w =
    Inr (w\<lparr>rideOffers := accepted_offers (ov_offer v) (rideOffers w),
       rideRequests := update_where (\<lambda>r. rr_id r = ro_rideRequestId (ov_offer v))
         (\<lambda>r. r\<lparr>rr_status := RideRequestStatus.MATCHED\<rparr>) (rideRequests w),
       trips := trips w @ [new_trip newId now riderId v]\<rparr>)"
proof (rule acceptOffer_commit_writes)
  note refs = ride_invD(2) [OF inv, unfolded refs_ok_def]
  note l = acceptOffer_load_Inr [OF load]
  show "keys_ok w" by (rule ride_invD [OF inv])
  show "newId \<notin> t_id ` set (trips w)" by (rule fresh)
  show "ro_id (ov_offer v) \<in> ro_id ` set (rideOffers w)" using l(1) by simp
  show "lookup rr_id (ro_rideRequestId (ov_offer v)) (rideRequests w) \<noteq> None" using l(4) by simp
  show "trip_of w (ro_rideRequestId (ov_offer v)) = None"
    using linked_of [OF inv, of "ro_rideRequestId (ov_offer v)"] l(4,5) by (simp add: status_of_def)
  show "riderId \<in> u_id ` set (users w)" using l(4,6) refs by (auto dest!: lookup_SomeD)
  show "ov_driverUserId v \<in> u_id ` set (users w)" using l(8) refs by (auto simp: profile_users_def)
qed

lemma acceptOffer_load_ok:
  assumes inv: "ride_inv w" and f: "lookup ro_id offerId (rideOffers w) = Some f" "ro_status f = OfferStatus.PENDING"
    and r: "lookup rr_id (ro_rideRequestId f) (rideRequests w) = Some r" "rr_riderId r = riderId"
  shows "\<exists>u. driver_user_of f w = Inr u \<and> acceptOffer_load riderId offerId w
    = Inr \<lparr>ov_offer = f, ov_request = r, ov_driverUserId = u_id u\<rparr>"
proof -
  from f(1) have "f \<in> set (rideOffers w)" by (auto dest: lookup_SomeD)
  moreover from this have "rr_status r = RideRequestStatus.PENDING"
    using ride_invD(4) [OF inv] f(2) r(1) by (auto simp: pending_ok_def status_of_def)
  ultimately show ?thesis using driver_user_of_ok [OF inv] f r by (fastforce simp: acceptOffer_load_def)
qed

lemma acceptOffer_load_cong:
  assumes "ride_inv w" "lookup ro_id offerId (rideOffers w) = Some f"
    "lookup rr_id (ro_rideRequestId f) (rideRequests w) = Some r"
  shows "acceptOffer_load riderId offerId w =
    (if rr_riderId r \<noteq> riderId then Inl forbidden
     else if rr_status r \<noteq> RideRequestStatus.PENDING \<or> ro_status f \<noteq> OfferStatus.PENDING
     then Inl (BadRequestException ''Offer can no longer be accepted'')
     else acceptOffer_load riderId offerId w)"
proof -
  have "f \<in> set (rideOffers w)" using assms(2) by (auto dest: lookup_SomeD)
  then obtain u where "driver_user_of f w = Inr u" using driver_user_of_ok [OF assms(1)] by blast
  with assms show ?thesis by (simp add: acceptOffer_load_def)
qed

text \<open>
  C4: accepting a pending offer on one's own open request always succeeds (for a fresh trip id)
  and makes the whole match in one step: the trip has the offer's fare, the rider and the user
  behind the offer's driver profile; the offer is ACCEPTED, every other pending offer on the
  request EXPIRED and no offer of another request touched; the request is MATCHED; the one event
  names the rivals' drivers, and the expiry jobs of the offer and its rivals are removed.
\<close>

theorem acceptOffer_matches:
  assumes "ride_inv w" "lookup ro_id offerId (rideOffers w) = Some f" "ro_status f = OfferStatus.PENDING"
    and "lookup rr_id (ro_rideRequestId f) (rideRequests w) = Some r" "rr_riderId r = riderId"
    and "newId \<notin> t_id ` set (trips w)"
  shows "\<exists>t (others :: (RideOffer \<times> User) list) w'. acceptOffer newId now riderId offerId w = (Inr t, w') \<and>
    t_id t = newId \<and> t_rideRequestId t = rr_id r \<and> t_riderId t = riderId \<and>
    (ro_driverId f, t_driverId t) \<in> profile_users w \<and>
    t_agreedFare t = ro_offeredFare f \<and> t_status t = TripStatus.MATCHED \<and>
    trips w' = trips w @ [t] \<and>
    rideOffers w' = map (\<lambda>g. if ro_id g = offerId then g\<lparr>ro_status := OfferStatus.ACCEPTED\<rparr>
        else if ro_rideRequestId g = rr_id r \<and> ro_status g = OfferStatus.PENDING
        then g\<lparr>ro_status := OfferStatus.EXPIRED\<rparr> else g) (rideOffers w) \<and>
    status_of w' = (status_of w)(rr_id r \<mapsto> RideRequestStatus.MATCHED) \<and>
    map fst others = filter (\<lambda>g. ro_rideRequestId g = rr_id r \<and> ro_status g = OfferStatus.PENDING \<and>
        ro_id g \<noteq> offerId) (rideOffers w) \<and>
    (\<forall>(g, u) \<in> set others. (ro_driverId g, u_id u) \<in> profile_users w) \<and>
    events w' = events w @ [OfferAccepted (r\<lparr>rr_status := RideRequestStatus.MATCHED\<rparr>) t
        (f\<lparr>ro_status := OfferStatus.ACCEPTED\<rparr>) (map (u_id \<circ> snd) others)] \<and>
    queue w' = queue w @ map (RemoveJob \<circ> offer_job_id) (offerId # map (ro_id \<circ> fst) others)"
proof -
  obtain u :: User where load: "acceptOffer_load riderId offerId w
    = Inr \<lparr>ov_offer = f, ov_request = r, ov_driverUserId = u_id u\<rparr>" (is "_ = Inr ?v")
    using acceptOffer_load_ok [OF assms(1-5)] by blast
  note l = acceptOffer_load_Inr [OF load]
  from assms(4) have ri: "ro_rideRequestId f = rr_id r" by (auto dest: lookup_SomeD)
  obtain others where o: "acceptOffer_others ?v w = Inr others"
    "map fst others = filter (competing f) (rideOffers w)"
    "\<forall>(g, u) \<in> set others. (ro_driverId g, u_id u) \<in> profile_users w"
    using with_driver_users_ok [OF assms(1), of "filter (competing f) (rideOffers w)"]
    by (auto simp: acceptOffer_others_def)
  note commit = acceptOffer_commit_ok [OF assms(1) load assms(6), of now]
  let ?t = "new_trip newId now riderId ?v"
  let ?w1 = "w\<lparr>rideOffers := accepted_offers f (rideOffers w),
       rideRequests := update_where (\<lambda>r. rr_id r = ro_rideRequestId f)
         (\<lambda>r. r\<lparr>rr_status := RideRequestStatus.MATCHED\<rparr>) (rideRequests w), trips := trips w @ [?t]\<rparr>"
  have run: "acceptOffer newId now riderId offerId w = (Inr ?t, acceptOffer_finish ?v others ?t ?w1)"
    using load o(1) commit by (simp add: acceptOffer_def)
  have ids: "map (ro_id \<circ> fst) others = map ro_id (filter (competing f) (rideOffers w))"
    by (simp flip: o(2))
  have offers: "accepted_offers f (rideOffers w) = map (\<lambda>g. if ro_id g = offerId then g\<lparr>ro_status := OfferStatus.ACCEPTED\<rparr>
        else if ro_rideRequestId g = rr_id r \<and> ro_status g = OfferStatus.PENDING
        then g\<lparr>ro_status := OfferStatus.EXPIRED\<rparr> else g) (rideOffers w)"
    using l(3) ri by (auto simp: accepted_offers_def update_where_def competing_def)
  have st: "status_of ?w1 = (status_of w)(rr_id r \<mapsto> RideRequestStatus.MATCHED)"
    by (rule status_of_written [where f = "\<lambda>r. r\<lparr>rr_status := RideRequestStatus.MATCHED\<rparr>"])
      (use assms(4) ri in \<open>simp_all add: status_of_def\<close>)
  have st': "status_of (acceptOffer_finish ?v others ?t ?w1) = (status_of w)(rr_id r \<mapsto> RideRequestStatus.MATCHED)"
    using st by (simp add: finish_world)
  have rivals: "filter (competing f) (rideOffers w) = filter (\<lambda>g. ro_rideRequestId g = rr_id r \<and>
      ro_status g = OfferStatus.PENDING \<and> ro_id g \<noteq> offerId) (rideOffers w)"
    using l(3) ri by (intro filter_cong) (auto simp: competing_def)
  show ?thesis
    unfolding run
    by (rule exI [of _ ?t], rule exI [of _ others], rule exI, intro conjI, rule refl)
      (rule st' | use l(3,8) ri o(2,3) offers rivals ids in \<open>simp add: new_trip_def
        finish_world comp_def; fail\<close>)+
qed

lemma acceptOffer_matches_witness:
  "\<exists>t w'. acceptOffer ''t'' 3 ''r'' ''o'' open_world = (Inr t, w') \<and> t_agreedFare t = 12 \<and>
     t_rideRequestId t = ''q'' \<and> trips w' = [t] \<and>
     map ro_status (rideOffers w') = [OfferStatus.ACCEPTED, OfferStatus.EXPIRED]"
  using acceptOffer_matches [of open_world "''o''" "new_offer ''o'' 1 ''q'' ''pd'' 12" sample_request "''r''" "''t''" 3]
    ride_inv_open by (auto simp: scenario_defs)

subsection \<open>Submitting an offer\<close>

lemma rideOffer_upsert_ok:
  assumes inv: "ride_inv w" and p: "lookup dp_userId u (driverProfiles w) = Some p"
    and r: "lookup rr_id i (rideRequests w) = Some r" and fresh: "newId \<notin> ro_id ` set (rideOffers w)"
  shows "rideOffer_upsert newId now i (dp_id p) fare w =
    (case lookup ro_key (i, dp_id p) (rideOffers w) of
       None \<Rightarrow> Inr (new_offer newId now i (dp_id p) fare,
         w\<lparr>rideOffers := rideOffers w @ [new_offer newId now i (dp_id p) fare]\<rparr>)
     | Some g \<Rightarrow> Inr (resubmit fare g,
         w\<lparr>rideOffers := update_where (\<lambda>x. ro_id x = ro_id g) (resubmit fare) (rideOffers w)\<rparr>))"
proof -
  note keys = ride_invD(1) [OF inv, unfolded keys_ok_def]
  let ?f = "new_offer newId now i (dp_id p) fare"
  show ?thesis
  proof (cases "lookup ro_key (i, dp_id p) (rideOffers w)")
    case None
    then have "\<forall>x \<in> set (rideOffers w). \<not> rideOffer_conflicts ?f x"
      using fresh by (auto simp: rideOffer_conflicts_def new_offer_def ro_key_def lookup_None_iff)
    moreover have "profile_exists (dp_id p) w"
      using p by (auto simp: lookup_None_iff dest: lookup_SomeD)
    ultimately have "rideOffer_create ?f w = Inr (w\<lparr>rideOffers := rideOffers w @ [?f]\<rparr>)"
      using r by (simp add: rideOffer_create_Inr create_row_Inr new_offer_def)
    with None show ?thesis by (simp add: rideOffer_upsert_def)
  next
    case (Some g)
    then have "lookup ro_id (ro_id g) (rideOffers w) = Some g"
      using keys by (auto simp: lookup_Some_iff dest: lookup_SomeD)
    then have "rideOffer_update (ro_id g) (resubmit fare) w
      = Inr (w\<lparr>rideOffers := update_where (\<lambda>x. ro_id x = ro_id g) (resubmit fare) (rideOffers w)\<rparr>)"
      using keys by (intro rideOffer_update_ok) (auto simp: resubmit_def ro_key_def)
    with Some show ?thesis by (simp add: rideOffer_upsert_def)
  qed
qed

text \<open>
  C26: a driver's offer on an open request always succeeds and leaves exactly one offer of that
  driver on that request: pending, at the fare just given, under its first id if it existed
  already. No other offer changes, the expiry job is replaced by one due after the configured
  time, and the one event is addressed to the rider.
\<close>

theorem submitOffer_upserts:
  assumes "ride_inv w" "lookup dp_userId u (driverProfiles w) = Some p"
    and "lookup rr_id i (rideRequests w) = Some r" "rr_status r = RideRequestStatus.PENDING"
    and "newId \<notin> ro_id ` set (rideOffers w)"
  shows "\<exists>f w'. submitOffer secs newId now u i fare w = (Inr f, w') \<and>
    ro_offeredFare f = fare \<and> ro_status f = OfferStatus.PENDING \<and>
    ro_id f = (case lookup ro_key (i, dp_id p) (rideOffers w) of None \<Rightarrow> newId | Some g \<Rightarrow> ro_id g) \<and>
    (\<forall>k. lookup ro_key k (rideOffers w')
      = (if k = (i, dp_id p) then Some f else lookup ro_key k (rideOffers w))) \<and>
    length (rideOffers w') = length (rideOffers w)
      + (if lookup ro_key (i, dp_id p) (rideOffers w) = None then 1 else 0) \<and>
    rideRequests w' = rideRequests w \<and> trips w' = trips w \<and>
    queue w' = queue w @ [RemoveJob (offer_job_id (ro_id f)),
      AddJob (offer_job_id (ro_id f)) (ExpireOffer (ro_id f)) (secs * 1000) 3 2000] \<and>
    events w' = events w @ [OfferSubmitted f (rr_riderId r)]"
proof -
  note keys = ride_invD(1) [OF assms(1), unfolded keys_ok_def]
  have load: "submitOffer_load u i w = Inr (p, r)"
    using assms(2-4) by (simp add: submitOffer_load_def)
  note ups = rideOffer_upsert_ok [OF assms(1-3,5), of now fare]
  note effects = submitOffer_def load ups submitOffer_finish_def scheduleExpiry_def emit_def
    enqueue_def cancelScheduledExpiry_def JOB_RETRY_ATTEMPTS_def JOB_RETRY_BACKOFF_def
  show ?thesis
  proof (cases "lookup ro_key (i, dp_id p) (rideOffers w)")
    case None
    then show ?thesis
      by (auto simp: effects new_offer_def lookup_append ro_key_def split: option.splits)
  next
    case (Some g)
    then have g: "g \<in> set (rideOffers w)" "ro_key g = (i, dp_id p)" by (auto dest: lookup_SomeD)
    have same: "ro_id x = ro_id g \<longleftrightarrow> ro_key x = (i, dp_id p)" if "x \<in> set (rideOffers w)" for x
      using keys g that by (metis unique_on_eq)
    have key: "ro_key (resubmit fare x) = ro_key x" for x by (simp add: resubmit_def ro_key_def)
    have "lookup ro_key k (update_where (\<lambda>x. ro_id x = ro_id g) (resubmit fare) (rideOffers w))
      = (if k = (i, dp_id p) then Some (resubmit fare g) else lookup ro_key k (rideOffers w))" for k
      using Some same by (cases "lookup ro_key k (rideOffers w)")
        (auto simp: lookup_update_where [where f = "resubmit fare" and key = ro_key] key dest: lookup_SomeD)
    with Some show ?thesis by (auto simp: effects resubmit_def)
  qed
qed

lemma submitOffer_upserts_witness:
  "\<exists>f w'. submitOffer 300 ''n'' 9 ''d'' ''q'' 11 open_world = (Inr f, w') \<and> ro_id f = ''o'' \<and>
     ro_offeredFare f = 11 \<and> length (rideOffers w') = 2 \<and>
     queue w' = [RemoveJob ''offer-o'', AddJob ''offer-o'' (ExpireOffer ''o'') 300000 3 2000]"
  using submitOffer_upserts [of open_world "''d''" "sample_profile ''pd'' ''d'' ''ad''" "''q''" sample_request
      "''n''" 300 9 11] ride_inv_open
  by (auto simp: scenario_defs ro_key_def offer_job_id_def)

subsection \<open>Expiry\<close>

lemma expireOffer_commit_ok:
  assumes "ride_inv w" "lookup ro_id i (rideOffers w) = Some f"
  shows "expireOffer_commit i w = Inr (w\<lparr>rideOffers := update_where (\<lambda>r. ro_id r = i)
    (\<lambda>f. f\<lparr>ro_status := OfferStatus.EXPIRED\<rparr>) (rideOffers w)\<rparr>)"
  using ride_invD(1) [OF assms(1)] assms(2) unfolding expireOffer_commit_def
  by (intro rideOffer_update_ok) (auto simp: keys_ok_def ro_key_def dest: lookup_SomeD)

lemma process_expiry:
  assumes "ride_inv w" "lookup ro_id i (rideOffers w) = Some f" "driver_user_of f w = Inr d"
  shows "process_job (ExpireOffer i) w =
    (if ro_status f \<noteq> OfferStatus.PENDING then (Inr (), w)
     else (Inr (), emit (OfferExpired (ro_rideRequestId f) i (u_id d))
       (w\<lparr>rideOffers := update_where (\<lambda>r. ro_id r = i)
          (\<lambda>f. f\<lparr>ro_status := OfferStatus.EXPIRED\<rparr>) (rideOffers w)\<rparr>)))"
  using assms(2,3) expireOffer_commit_ok [OF assms(1,2)]
  by (simp add: expireIfStillPending_def expireIfStillPending_load_def)

text \<open>
  C27: a delivered expiry job expires its offer exactly when it is still pending, tells the driver
  behind it, moves no ride and no trip; and a job delivered again (BullMQ is at-least-once) finds
  nothing to do.
\<close>

theorem expiry_exact_and_idempotent:
  assumes "ride_inv w" "lookup ro_id i (rideOffers w) = Some f"
  shows "\<exists>d w'. process_job (ExpireOffer i) w = (Inr (), w') \<and>
    (ro_driverId f, u_id (d :: User)) \<in> profile_users w \<and>
    rideOffers w' = map (\<lambda>g. if ro_id g = i \<and> ro_status f = OfferStatus.PENDING
      then g\<lparr>ro_status := OfferStatus.EXPIRED\<rparr> else g) (rideOffers w) \<and>
    rideRequests w' = rideRequests w \<and> trips w' = trips w \<and> queue w' = queue w \<and>
    events w' = events w @ (if ro_status f = OfferStatus.PENDING
      then [OfferExpired (ro_rideRequestId f) i (u_id d)] else []) \<and>
    process_job (ExpireOffer i) w' = (Inr (), w')"
proof -
  have "f \<in> set (rideOffers w)" using assms(2) by (auto dest: lookup_SomeD)
  then obtain d where d: "driver_user_of f w = Inr d" using driver_user_of_ok [OF assms(1)] by blast
  note first = process_expiry [OF assms d]
  show ?thesis
  proof (cases "ro_status f = OfferStatus.PENDING")
    case True
    let ?e = "\<lambda>f. f\<lparr>ro_status := OfferStatus.EXPIRED\<rparr>"
    let ?w = "emit (OfferExpired (ro_rideRequestId f) i (u_id d))
      (w\<lparr>rideOffers := update_where (\<lambda>r. ro_id r = i) ?e (rideOffers w)\<rparr>)"
    from first True have run: "process_job (ExpireOffer i) w = (Inr (), ?w)" by simp
    have "ride_inv ?w" using ride_inv_process_job [OF assms(1), of "ExpireOffer i"] run by simp
    moreover have "lookup ro_id i (rideOffers ?w) = Some (?e f)"
      using assms(2) by (auto simp: emit_def lookup_update_where dest: lookup_SomeD)
    moreover have "driver_user_of (?e f) ?w = Inr d" using d
      by (simp add: driver_user_of_def emit_def cong: option.case_cong)
    ultimately have "process_job (ExpireOffer i) ?w = (Inr (), ?w)" by (subst process_expiry) auto
    with run True driver_user_of_Inr [OF d] show ?thesis
      by (intro exI [of _ d] exI [of _ ?w]) (auto simp: emit_def update_where_def)
  next
    case False
    with first driver_user_of_Inr [OF d] show ?thesis
      by (intro exI [of _ d] exI [of _ w]) auto
  qed
qed

lemma expiry_exact_and_idempotent_witness:
  "\<exists>d w'. process_job (ExpireOffer ''o'') open_world = (Inr (), w') \<and>
     map ro_status (rideOffers w') = [OfferStatus.EXPIRED, OfferStatus.PENDING] \<and>
     events w' = [OfferExpired ''q'' ''o'' (u_id (d :: User))] \<and> process_job (ExpireOffer ''o'') w' = (Inr (), w')"
  using expiry_exact_and_idempotent [of open_world "''o''" "new_offer ''o'' 1 ''q'' ''pd'' 12"] ride_inv_open
  by (auto simp: scenario_defs simp del: process_job.simps)

subsection \<open>Viewing and cancelling a request\<close>

lemma load_request_ok:
  assumes "ride_inv w" "lookup rr_id i (rideRequests w) = Some r"
  shows "\<exists>us. load_request i w = Inr \<lparr>rv_request = r, rv_offers = us, rv_trip = trip_of w i\<rparr> \<and>
    map fst us = filter (\<lambda>f. ro_rideRequestId f = i) (rideOffers w) \<and>
    (\<forall>(f, u) \<in> set us. (ro_driverId f, u_id u) \<in> profile_users w)"
  using with_driver_users_ok [OF assms(1), of "filter (\<lambda>f. ro_rideRequestId f = i) (rideOffers w)"] assms(2)
  by (auto simp: load_request_def trip_of_def)

text \<open>The drivers with an offer on a request, and the participants of a ride.\<close>

definition offering :: "world \<Rightarrow> string \<Rightarrow> string \<Rightarrow> bool" where
  "offering w i u \<longleftrightarrow>
     (\<exists>f \<in> set (rideOffers w). ro_rideRequestId f = i \<and> (ro_driverId f, u) \<in> profile_users w)"

definition driving :: "world \<Rightarrow> string \<Rightarrow> string \<Rightarrow> bool" where
  "driving w i u \<longleftrightarrow> map_option t_driverId (trip_of w i) = Some u"

lemma profile_users_functional:
  assumes "ride_inv w" "(p, u) \<in> profile_users w" "(p, v) \<in> profile_users w"
  shows "u = v"
  using assms by (auto simp: profile_users_def ride_inv_def keys_ok_def dest: unique_on_eq)

lemma isOfferingDriver_iff:
  assumes inv: "ride_inv w" and us: "map fst us = filter (\<lambda>f. ro_rideRequestId f = i) (rideOffers w)"
    "\<forall>(f, u) \<in> set us. (ro_driverId f, u_id u) \<in> profile_users w"
  shows "isOfferingDriver \<lparr>rv_request = r, rv_offers = us, rv_trip = t\<rparr> x \<longleftrightarrow> offering w i x"
proof
  assume "isOfferingDriver \<lparr>rv_request = r, rv_offers = us, rv_trip = t\<rparr> x"
  then obtain f u where fu: "(f, u) \<in> set us" "u_id u = x" by (auto simp: isOfferingDriver_def list_ex_iff)
  then have "f \<in> set (map fst us)" by force
  with fu us show "offering w i x" by (auto simp: offering_def)
next
  assume "offering w i x"
  then obtain f where f: "f \<in> set (map fst us)" "(ro_driverId f, x) \<in> profile_users w"
    using us(1) by (auto simp: offering_def)
  then obtain u where "(f, u) \<in> set us" by auto
  moreover from this have "u_id u = x" using us(2) f(2) profile_users_functional [OF inv] by blast
  ultimately show "isOfferingDriver \<lparr>rv_request = r, rv_offers = us, rv_trip = t\<rparr> x"
    by (force simp: isOfferingDriver_def list_ex_iff)
qed

text \<open>
  C29: a ride request is shown exactly to its rider, to the drivers who have an offer on it and to
  the driver of its trip; they see all its offers and its trip, anyone else is refused, and reading
  it changes nothing.
\<close>

theorem findOneForUser_participants_only:
  assumes "ride_inv w" "lookup rr_id i (rideRequests w) = Some r"
  shows "if rr_riderId r = u \<or> offering w i u \<or> driving w i u
    then \<exists>res fs. findOneForUser i u w = (Inr res, w) \<and> rrr_request res = r \<and>
      rrr_trip res = trip_of w i \<and> rrr_offers res = Some fs \<and>
      map ror_id fs = map ro_id (filter (\<lambda>f. ro_rideRequestId f = i) (rideOffers w))
    else findOneForUser i u w = (Inl forbidden, w)"
proof -
  obtain us where us: "load_request i w = Inr \<lparr>rv_request = r, rv_offers = us, rv_trip = trip_of w i\<rparr>"
    "map fst us = filter (\<lambda>f. ro_rideRequestId f = i) (rideOffers w)"
    "\<forall>(f, u :: User) \<in> set us. (ro_driverId f, u_id u) \<in> profile_users w"
    using load_request_ok [OF assms] by blast
  have "map (ror_id \<circ> RideOfferResponse_from) us = map ro_id (map fst us)"
    by (simp add: RideOfferResponse_from_def)
  with us(1,2) isOfferingDriver_iff [OF assms(1) us(2,3)] show ?thesis
    by (auto simp: findOneForUser_def canView_def isOwnerRider_def isMatchedDriver_def driving_def)
qed

lemma findOneForUser_participants_only_witness:
  "findOneForUser ''q'' ''u'' open_world = (Inl forbidden, open_world)"
  using findOneForUser_participants_only [of open_world "''q''" sample_request "''u''"] ride_inv_open
  by (simp add: scenario_defs offering_def driving_def profile_users_def trip_of_def)

lemma cancel_commit_ok:
  assumes inv: "ride_inv w" and load: "load_request i w = Inr v"
  shows "\<exists>w'. cancel_commit i now reason v w = Inr w' \<and>
    w' = w\<lparr>rideRequests := rideRequests w', rideOffers := rideOffers w', trips := trips w'\<rparr>"
proof -
  note keys = ride_invD(1) [OF inv, unfolded keys_ok_def]
  note l = load_request_Inr [OF load]
  let ?e = "\<lambda>f. f\<lparr>ro_status := OfferStatus.EXPIRED\<rparr>"
  let ?w2 = "w\<lparr>rideRequests := update_where (\<lambda>r. rr_id r = i) (cancelled_request now reason) (rideRequests w),
    rideOffers := update_where (pending_of_request i) ?e (rideOffers w)\<rparr>"
  have 1: "rideRequest_update i (cancelled_request now reason) w
    = Inr (w\<lparr>rideRequests := update_where (\<lambda>r. rr_id r = i) (cancelled_request now reason) (rideRequests w)\<rparr>)"
    using keys l(1) by (intro rideRequest_update_ok) (auto simp: cancelled_request_def dest: lookup_SomeD)
  show ?thesis
  proof (cases "rv_trip v")
    case None
    with 1 show ?thesis by (simp add: cancel_commit_def rideOffer_updateMany_def)
  next
    case (Some t)
    then have "lookup t_id (t_id t) (trips ?w2) = Some t"
      using l(2) inv keys by (simp add: trip_of_member lookup_Some_iff)
    then have "trip_update (t_id t) (cancelled_trip reason) ?w2
      = Inr (?w2\<lparr>trips := update_where (\<lambda>r. t_id r = t_id t) (cancelled_trip reason) (trips ?w2)\<rparr>)"
      using keys by (intro trip_update_ok) (auto simp: cancelled_trip_def)
    with 1 Some show ?thesis by (simp add: cancel_commit_def rideOffer_updateMany_def)
  qed
qed

lemma cancelled_views:
  assumes inv: "ride_inv w" and load: "load_request i w = Inr v"
    and commit: "cancel_commit i now reason v w = Inr w'"
  shows "lookup rr_id i (rideRequests w') = Some (cancelled_request now reason (rv_request v))"
    "status_of w' = (status_of w)(i \<mapsto> RideRequestStatus.CANCELLED)"
    "trip_of w' j = (if j = i then map_option (cancelled_trip reason) (trip_of w j) else trip_of w j)"
proof -
  note c = cancel_commit_Inr [OF commit] and l = load_request_Inr [OF load]
  have ids: "rr_id (cancelled_request now reason r) = rr_id r"
    "rr_status (cancelled_request now reason r) = RideRequestStatus.CANCELLED"
    "t_rideRequestId (cancelled_trip reason t) = t_rideRequestId t" for r t
    by (simp_all add: cancelled_request_def cancelled_trip_def)
  show "lookup rr_id i (rideRequests w') = Some (cancelled_request now reason (rv_request v))"
    using l(1) by (auto simp: c(1) lookup_update_where ids dest: lookup_SomeD)
  show "status_of w' = (status_of w)(i \<mapsto> RideRequestStatus.CANCELLED)"
    by (rule status_of_written [OF c(1) ids(1,2)]) (simp add: status_of_def l(1))
  have "map_option t_id (trip_of w i) = Some (t_id t) \<longleftrightarrow> t_rideRequestId t = i" if "t \<in> set (trips w)" for t
    using inv that ride_invD(1) [OF inv]
    by (cases "trip_of w i") (auto simp: trip_of_member keys_ok_def trip_of_def lookup_None_iff
        dest: unique_on_eq lookup_SomeD)
  then show "trip_of w' j = (if j = i then map_option (cancelled_trip reason) (trip_of w j) else trip_of w j)"
    using l(2) by (cases "trip_of w j")
      (auto simp: trip_of_def c(3) lookup_update_where ids dest: lookup_SomeD)
qed

lemma cancel_result:
  assumes "ride_inv w" "lookup rr_id i (rideRequests w) = Some r"
  shows "if rr_riderId r \<noteq> u \<and> \<not> driving w i u then cancelRideRequest i now u reason w = (Inl forbidden, w)
    else if rr_status r \<noteq> RideRequestStatus.PENDING \<and> rr_status r \<noteq> RideRequestStatus.MATCHED
    then cancelRideRequest i now u reason w
      = (Inl (BadRequestException ''Ride request can no longer be cancelled''), w)
    else \<exists>res (notified :: (RideOffer \<times> User) list) w'. cancelRideRequest i now u reason w = (Inr res, w') \<and>
      rrr_request res = cancelled_request now reason r \<and>
      status_of w' = (status_of w)(i \<mapsto> RideRequestStatus.CANCELLED) \<and>
      trip_of w' = (trip_of w)(i := map_option (cancelled_trip reason) (trip_of w i)) \<and>
      rideOffers w' = map (\<lambda>f. if ro_rideRequestId f = i \<and> ro_status f = OfferStatus.PENDING
        then f\<lparr>ro_status := OfferStatus.EXPIRED\<rparr> else f) (rideOffers w) \<and>
      map fst notified = filter (\<lambda>f. ro_rideRequestId f = i \<and> ro_status f = OfferStatus.PENDING) (rideOffers w) \<and>
      (\<forall>(f, d) \<in> set notified. (ro_driverId f, u_id d) \<in> profile_users w) \<and>
      events w' = events w @ [RideRequestCancelled (cancelled_request now reason r) (map (u_id \<circ> snd) notified)] \<and>
      queue w' = queue w"
proof -
  obtain us where us: "load_request i w = Inr \<lparr>rv_request = r, rv_offers = us, rv_trip = trip_of w i\<rparr>" (is "_ = Inr ?v")
    "map fst us = filter (\<lambda>f. ro_rideRequestId f = i) (rideOffers w)"
    "\<forall>(f, u :: User) \<in> set us. (ro_driverId f, u_id u) \<in> profile_users w"
    using load_request_ok [OF assms] by blast
  have can: "canCancel ?v u \<longleftrightarrow> rr_riderId r = u \<or> driving w i u"
    by (simp add: canCancel_def isOwnerRider_def isMatchedDriver_def driving_def)
  let ?n = "filter (\<lambda>fu. ro_status (fst fu) = OfferStatus.PENDING) us"
  have notified: "map fst ?n = filter (\<lambda>f. ro_rideRequestId f = i \<and> ro_status f = OfferStatus.PENDING) (rideOffers w)"
    using filter_map [of "\<lambda>f. ro_status f = OfferStatus.PENDING" fst us] us(2) by (simp add: comp_def)
  show ?thesis
  proof (cases "canCancel ?v u \<and> (rr_status r = RideRequestStatus.PENDING \<or> rr_status r = RideRequestStatus.MATCHED)")
    case True
    obtain w1 where w1: "cancel_commit i now reason ?v w = Inr w1"
      "w1 = w\<lparr>rideRequests := rideRequests w1, rideOffers := rideOffers w1, trips := trips w1\<rparr>"
      using cancel_commit_ok [OF assms(1) us(1)] by blast
    note views = cancelled_views [OF assms(1) us(1) w1(1)] and c = cancel_commit_Inr(2) [OF w1(1)]
    let ?r = "cancelled_request now reason r"
    let ?w' = "emit (RideRequestCancelled ?r (affectedDriverUserIds ?v)) w1"
    have load: "cancel_load i u w = Inr ?v" using True us(1) by (auto simp: cancel_load_def)
    have run: "cancelRideRequest i now u reason w = (Inr \<lparr>rrr_request = ?r,
        rrr_nearbyDriverCount = None, rrr_trip = None, rrr_offers = None\<rparr>, ?w')"
      using load w1(1) views(1) by (simp add: cancelRideRequest_def)
    have "events w1 = events w" "queue w1 = queue w" by (subst w1(2), simp)+
    moreover have "trip_of ?w' = (trip_of w)(i := map_option (cancelled_trip reason) (trip_of w i))"
      using views(3) by (auto simp: fun_eq_iff)
    moreover have "\<not> (rr_riderId r \<noteq> u \<and> \<not> driving w i u)"
      "\<not> (rr_status r \<noteq> RideRequestStatus.PENDING \<and> rr_status r \<noteq> RideRequestStatus.MATCHED)"
      using True can by auto
    ultimately show ?thesis
      by (simp only: if_False)
        (rule exI, rule exI [of _ ?n], rule exI, intro conjI, rule run,
          use views(2) c notified us(3) in \<open>auto simp: emit_def affectedDriverUserIds_def
            update_where_def pending_of_request_def comp_def\<close>)
  next
    case False
    with can us(1) show ?thesis by (auto simp: cancelRideRequest_def cancel_load_def)
  qed
qed

text \<open>
  C8: cancelling. The rider, or the driver of the trip, of a PENDING or MATCHED request always
  succeeds: the request and its trip (if any) are CANCELLED with the reason, every pending offer on
  it is EXPIRED, nothing else changes, and the one event names exactly the drivers whose offers
  were pending. Anyone else is refused, also a driver with an offer, and so is a request that is in
  progress or over.
\<close>

theorem cancelRideRequest_spec:
  assumes "ride_inv w" "lookup rr_id i (rideRequests w) = Some r"
  shows "if rr_riderId r \<noteq> u \<and> \<not> driving w i u then cancelRideRequest i now u reason w = (Inl forbidden, w)
    else if rr_status r \<noteq> RideRequestStatus.PENDING \<and> rr_status r \<noteq> RideRequestStatus.MATCHED
    then cancelRideRequest i now u reason w
      = (Inl (BadRequestException ''Ride request can no longer be cancelled''), w)
    else \<exists>res (notified :: (RideOffer \<times> User) list) w'. cancelRideRequest i now u reason w = (Inr res, w') \<and>
      rrr_request res = cancelled_request now reason r \<and>
      status_of w' = (status_of w)(i \<mapsto> RideRequestStatus.CANCELLED) \<and>
      trip_of w' = (trip_of w)(i := map_option (cancelled_trip reason) (trip_of w i)) \<and>
      rideOffers w' = map (\<lambda>f. if ro_rideRequestId f = i \<and> ro_status f = OfferStatus.PENDING
        then f\<lparr>ro_status := OfferStatus.EXPIRED\<rparr> else f) (rideOffers w) \<and>
      map fst notified = filter (\<lambda>f. ro_rideRequestId f = i \<and> ro_status f = OfferStatus.PENDING) (rideOffers w) \<and>
      (\<forall>(f, d) \<in> set notified. (ro_driverId f, u_id d) \<in> profile_users w) \<and>
      events w' = events w @ [RideRequestCancelled (cancelled_request now reason r) (map (u_id \<circ> snd) notified)] \<and>
      queue w' = queue w"
  by (rule cancel_result [OF assms])

lemma cancelRideRequest_spec_witness:
  "\<exists>res w'. cancelRideRequest ''q'' 5 ''r'' (Some ''late'') open_world = (Inr res, w') \<and>
     status_of w' ''q'' = Some RideRequestStatus.CANCELLED \<and>
     map ro_status (rideOffers w') = [OfferStatus.EXPIRED, OfferStatus.EXPIRED]"
proof -
  have "\<exists>res (notified :: (RideOffer \<times> User) list) w'.
      cancelRideRequest ''q'' 5 ''r'' (Some ''late'') open_world = (Inr res, w') \<and>
      status_of w' = (status_of open_world)(''q'' \<mapsto> RideRequestStatus.CANCELLED) \<and>
      rideOffers w' = map (\<lambda>f. if ro_rideRequestId f = ''q'' \<and> ro_status f = OfferStatus.PENDING
        then f\<lparr>ro_status := OfferStatus.EXPIRED\<rparr> else f) (rideOffers open_world)"
    using cancelRideRequest_spec [of open_world "''q''" sample_request "''r''" 5 "Some ''late''"] ride_inv_open
    by (auto simp: open_world_def sample_request_def)
  then show ?thesis by (auto simp: scenario_defs)
qed

text \<open>
  Cancelling a matched ride names no driver. The event's list of drivers to notify is built
  from pending offers, and a matched request has none: the driver already on the way is told by
  nobody.
\<close>

lemma cancelling_a_match_notifies_no_driver:
  assumes "ride_inv w" "status_of w i = Some RideRequestStatus.MATCHED"
    and "cancelRideRequest i now u reason w = (Inr res, w')"
  shows "trip_of w' i \<noteq> None \<and>
    events w' = events w @ [RideRequestCancelled (rrr_request res) []]"
proof -
  from assms(2) obtain r where r: "lookup rr_id i (rideRequests w) = Some r" "rr_status r = RideRequestStatus.MATCHED"
    by (auto simp: status_of_def)
  have tr: "trip_of w i \<noteq> None" using linked_of [OF assms(1), of i] assms(2) by auto
  have none: "filter (\<lambda>f. ro_rideRequestId f = i \<and> ro_status f = OfferStatus.PENDING) (rideOffers w) = []"
    using no_pending_offers [OF assms(1), of i] assms(2) by (auto simp: filter_empty_conv)
  show ?thesis
    using cancel_result [OF assms(1) r(1), of u now reason] assms(3) tr none
    by (auto split: if_splits)
qed

lemma cancelling_a_match_notifies_no_driver_witness:
  "\<exists>res w'. cancelRideRequest ''q'' 5 ''r'' None matched_world = (Inr res, w') \<and>
     trip_of w' ''q'' \<noteq> None \<and>
     events w' = events matched_world @ [RideRequestCancelled (rrr_request res) []]"
proof -
  have st: "status_of matched_world ''q'' = Some RideRequestStatus.MATCHED"
    by (simp add: status_of_def matched_rows sample_request_def)
  have "lookup rr_id ''q'' (rideRequests matched_world)
      = Some (sample_request\<lparr>rr_status := RideRequestStatus.MATCHED\<rparr>)"
    by (simp add: matched_rows sample_request_def)
  from cancel_result [OF ride_inv_scenario(1) this, of "''r''" 5 None]
  obtain res w' where "cancelRideRequest ''q'' 5 ''r'' None matched_world = (Inr res, w')"
    by (auto simp: sample_request_def)
  with cancelling_a_match_notifies_no_driver [OF ride_inv_scenario(1) st this] show ?thesis by blast
qed

end
