(* ===== verification/Interleaving.thy ===== *)
theory Interleaving
  imports RideSpecs
begin

section \<open>Interleaving: requests whose awaits overlap\<close>

text \<open>
  A handler that awaits gives way to the other handlers of the process, and there may be several
  processes. A request in flight is a \<open>thread\<close>: the call and what it has read so far. \<open>advance\<close> runs
  one phase of it, up to the next await at which another request can change what it read;
  \<open>run_schedule\<close> runs a list of threads in a given order. The phases are the ones the operations of
  Offers and RideRequests are composed of, so a thread that is never interrupted is the operation
  itself (\<open>alone\<close>).
\<close>

datatype call =
    Accept string int string string \<comment> \<open>the new trip's id, the time, the rider, the offer\<close>
  | Cancel string int string "string option" \<comment> \<open>the request, the time, the requester, the reason\<close>
  | Expire string \<comment> \<open>the job of an offer\<close>

datatype outcome =
    Failed error
  | Accepted Trip
  | Cancelled RideRequestResponse
  | Expired

datatype thread =
    Called call
  | AcceptLoaded string int string OfferView
  | AcceptReady string int string OfferView "(RideOffer \<times> User) list"
  | AcceptCommitted Trip OfferView "(RideOffer \<times> User) list"
  | CancelLoaded string int "string option" RideRequestView
  | ExpireLoaded string RideOffer User
  | Returned outcome

fun advance :: "thread \<Rightarrow> world \<Rightarrow> thread \<times> world" where
  "advance (Called (Accept newId now riderId offerId)) w =
     (case acceptOffer_load riderId offerId w of
        Inl e \<Rightarrow> (Returned (Failed e), w)
      | Inr v \<Rightarrow> (AcceptLoaded newId now riderId v, w))"
| "advance (AcceptLoaded newId now riderId v) w =
     (case acceptOffer_others v w of
        Inl e \<Rightarrow> (Returned (Failed e), w)
      | Inr others \<Rightarrow> (AcceptReady newId now riderId v others, w))"
| "advance (AcceptReady newId now riderId v others) w =
     (case acceptOffer_commit newId now riderId v w of
        Inl e \<Rightarrow> (Returned (Failed e), w)
      | Inr w' \<Rightarrow> (AcceptCommitted (new_trip newId now riderId v) v others, w'))"
| "advance (AcceptCommitted trip v others) w =
     (Returned (Accepted trip), acceptOffer_finish v others trip w)"
| "advance (Called (Cancel i now requester reason)) w =
     (case cancel_load i requester w of
        Inl e \<Rightarrow> (Returned (Failed e), w)
      | Inr v \<Rightarrow> (CancelLoaded i now reason v, w))"
| "advance (CancelLoaded i now reason v) w =
     (case cancel_commit i now reason v w of
        Inl e \<Rightarrow> (Returned (Failed e), w)
      | Inr w' \<Rightarrow>
          (case lookup rr_id i (rideRequests w') of
             None \<Rightarrow> (Returned (Failed (PrismaError P2025)), w')
           | Some updated \<Rightarrow>
               (Returned (Cancelled \<lparr>rrr_request = updated, rrr_nearbyDriverCount = None,
                                     rrr_trip = None, rrr_offers = None\<rparr>),
                emit (RideRequestCancelled updated (affectedDriverUserIds v)) w')))"
| "advance (Called (Expire offerId)) w =
     (case expireIfStillPending_load offerId w of
        Inl e \<Rightarrow> (Returned (Failed e), w)
      | Inr None \<Rightarrow> (Returned Expired, w)
      | Inr (Some (f, d)) \<Rightarrow> (ExpireLoaded offerId f d, w))"
| "advance (ExpireLoaded offerId f d) w =
     (case expireOffer_commit offerId w of
        Inl e \<Rightarrow> (Returned (Failed e), w)
      | Inr w' \<Rightarrow> (Returned Expired, emit (OfferExpired (ro_rideRequestId f) offerId (u_id d)) w'))"
| "advance (Returned r) w = (Returned r, w)"

fun schedule_step :: "nat \<Rightarrow> thread list \<times> world \<Rightarrow> thread list \<times> world" where
  "schedule_step k (ts, w) =
     (if k < length ts then (let (t, w') = advance (ts ! k) w in (ts[k := t], w')) else (ts, w))"

definition run_schedule :: "nat list \<Rightarrow> thread list \<times> world \<Rightarrow> thread list \<times> world" where
  "run_schedule ks s = fold schedule_step ks s"

lemma run_schedule_simps [simp]:
  "run_schedule [] s = s"
  "run_schedule (k # ks) s = run_schedule ks (schedule_step k s)"
  "run_schedule (ks @ ls) s = run_schedule ls (run_schedule ks s)"
  by (simp_all add: run_schedule_def)

subsection \<open>A request that is not interrupted\<close>

fun serial :: "call \<Rightarrow> world \<Rightarrow> outcome \<times> world" where
  "serial (Accept newId now riderId offerId) w =
     (case acceptOffer newId now riderId offerId w of
        (Inl e, w') \<Rightarrow> (Failed e, w') | (Inr t, w') \<Rightarrow> (Accepted t, w'))"
| "serial (Cancel i now requester reason) w =
     (case cancelRideRequest i now requester reason w of
        (Inl e, w') \<Rightarrow> (Failed e, w') | (Inr r, w') \<Rightarrow> (Cancelled r, w'))"
| "serial (Expire offerId) w =
     (case process_job (ExpireOffer offerId) w of
        (Inl e, w') \<Rightarrow> (Failed e, w') | (Inr _, w') \<Rightarrow> (Expired, w'))"

fun serial_all :: "call list \<Rightarrow> world \<Rightarrow> outcome list \<times> world" where
  "serial_all [] w = ([], w)"
| "serial_all (c # cs) w =
     (let (r, w1) = serial c w; (rs, w2) = serial_all cs w1 in (r # rs, w2))"

lemma advance_four:
  "(let (t1, w1) = advance (Called c) w; (t2, w2) = advance t1 w1;
        (t3, w3) = advance t2 w2 in advance t3 w3)
    = (case serial c w of (r, w') \<Rightarrow> (Returned r, w'))"
  by (cases c)
    (auto simp: acceptOffer_def cancelRideRequest_def expireIfStillPending_def
      split: sum.splits option.splits prod.splits)

lemma alone:
  assumes "k < length ts" "ts ! k = Called c"
  shows "run_schedule [k, k, k, k] (ts, w) = (case serial c w of (r, w') \<Rightarrow> (ts[k := Returned r], w'))"
  using advance_four [of c w] assms by (auto simp: Let_def split: prod.splits)

definition one_after_another :: "nat \<Rightarrow> nat list" where
  "one_after_another n = concat (map (\<lambda>k. [k, k, k, k]) [0..<n])"

lemma one_after_another_from:
  "run_schedule (concat (map (\<lambda>k. [k, k, k, k]) [length ds ..< length ds + length cs]))
     (map Returned ds @ map Called cs, w)
    = (case serial_all cs w of (rs, w') \<Rightarrow> (map Returned (ds @ rs), w'))"
proof (induction cs arbitrary: ds w)
  case (Cons c cs)
  obtain r w1 where r: "serial c w = (r, w1)" by fastforce
  have "[length ds ..< length ds + length (c # cs)]
      = length ds # [length (ds @ [r]) ..< length (ds @ [r]) + length cs]"
    by (simp add: upt_conv_Cons del: upt_Suc)
  moreover have "run_schedule [length ds, length ds, length ds, length ds] (map Returned ds @ map Called (c # cs), w)
      = (map Returned (ds @ [r]) @ map Called cs, w1)"
    using r alone [of "length ds" "map Returned ds @ map Called (c # cs)" c w]
    by (simp add: nth_append list_update_append)
  ultimately show ?case using Cons [of "ds @ [r]" w1] r
    by (simp del: run_schedule_simps(2) upt_Suc add: run_schedule_def split: prod.splits)
qed simp

text \<open>
  Requests that are not interrupted are the operations: running the phases of each request one
  request after another gives the results and the world of the services' operations called in that
  order. What follows differs from this only by the order of the phases.
\<close>

lemma uninterrupted_requests_are_serial:
  "run_schedule (one_after_another (length cs)) (map Called cs, w)
    = (case serial_all cs w of (rs, w') \<Rightarrow> (map Returned rs, w'))"
  using one_after_another_from [of "[]" cs w] by (simp add: one_after_another_def)

subsection \<open>Two acceptances\<close>

fun accepted_trip :: "thread \<Rightarrow> Trip option" where
  "accepted_trip (AcceptCommitted t v others) = Some t"
| "accepted_trip (Returned (Accepted t)) = Some t"
| "accepted_trip _ = None"

abbreviation trip_ids :: "world \<Rightarrow> (string \<times> string) list" where
  "trip_ids w \<equiv> map (\<lambda>t. (t_id t, t_rideRequestId t)) (trips w)"

text \<open>A phase adds no trip, or it is the commit of an acceptance, whose trip meets no other.\<close>

lemma advance_trips:
  assumes "advance t w = (t', w')"
  shows "accepted_trip t' = accepted_trip t \<and> trip_ids w' = trip_ids w \<or>
    (\<exists>x. accepted_trip t = None \<and> accepted_trip t' = Some x \<and>
       trip_ids w' = trip_ids w @ [(t_id x, t_rideRequestId x)] \<and>
       t_id x \<notin> t_id ` set (trips w) \<and> t_rideRequestId x \<notin> t_rideRequestId ` set (trips w))"
proof -
  have accept: "trip_ids w' = trip_ids w @ [(t_id x, t_rideRequestId x)] \<and> t_id x \<notin> t_id ` set (trips w) \<and>
      t_rideRequestId x \<notin> t_rideRequestId ` set (trips w)"
    if "acceptOffer_commit newId now riderId v w = Inr w'" "x = new_trip newId now riderId v" for newId now riderId v x
    using acceptOffer_commit_Inr [OF that(1)] that(2) by (auto simp: create_row_Inr trip_conflicts_def)
  have cancel: "trip_ids w1 = trip_ids w" if "cancel_commit i now reason v w = Inr w1" for i now reason v w1
    using cancel_commit_Inr(3) [OF that] by (auto simp: cancelled_trip_def intro: map_update_where)
  show ?thesis using assms
    by (cases "(t, w)" rule: advance.cases)
      (auto simp: accept cancel finish_world emit_def expireOffer_commit_def
        split: sum.splits option.splits dest!: rideOffer_update_Inr)
qed

text \<open>
  Every acceptance that committed left its trip in the table, and no two left the same one.
\<close>

definition acceptances_ok :: "thread list \<times> world \<Rightarrow> bool" where
  "acceptances_ok s \<longleftrightarrow>
     unique_on t_id (trips (snd s)) \<and> unique_on t_rideRequestId (trips (snd s)) \<and>
     (\<forall>k < length (fst s). \<forall>t. accepted_trip (fst s ! k) = Some t \<longrightarrow>
        (t_id t, t_rideRequestId t) \<in> set (trip_ids (snd s))) \<and>
     (\<forall>j < length (fst s). \<forall>k < length (fst s). \<forall>t u. j \<noteq> k \<longrightarrow>
        accepted_trip (fst s ! j) = Some t \<longrightarrow> accepted_trip (fst s ! k) = Some u \<longrightarrow> t_id t \<noteq> t_id u)"

lemma unique_on_trip_ids:
  "unique_on t_id (trips w) \<longleftrightarrow> distinct (map fst (trip_ids w))"
  "unique_on t_rideRequestId (trips w) \<longleftrightarrow> distinct (map snd (trip_ids w))"
  "t_id ` set (trips w) = set (map fst (trip_ids w))"
  "t_rideRequestId ` set (trips w) = set (map snd (trip_ids w))"
  by (simp_all add: unique_on_def comp_def image_image)

lemma acceptances_ok_step:
  assumes "acceptances_ok (ts, w)"
  shows "acceptances_ok (schedule_step k (ts, w))"
proof (cases "k < length ts")
  case True
  obtain t w' where step: "advance (ts ! k) w = (t, w')" by fastforce
  from advance_trips [OF step] have "acceptances_ok (ts[k := t], w')"
  proof
    assume "accepted_trip t = accepted_trip (ts ! k) \<and> trip_ids w' = trip_ids w"
    with assms True show ?thesis
      unfolding acceptances_ok_def unique_on_trip_ids by (auto simp: nth_list_update)
  next
    assume "\<exists>x. accepted_trip (ts ! k) = None \<and> accepted_trip t = Some x \<and>
       trip_ids w' = trip_ids w @ [(t_id x, t_rideRequestId x)] \<and>
       t_id x \<notin> t_id ` set (trips w) \<and> t_rideRequestId x \<notin> t_rideRequestId ` set (trips w)"
    then obtain x where x: "accepted_trip t = Some x"
      "trip_ids w' = trip_ids w @ [(t_id x, t_rideRequestId x)]"
      "t_id x \<notin> set (map fst (trip_ids w))" "t_rideRequestId x \<notin> set (map snd (trip_ids w))"
      unfolding unique_on_trip_ids by blast
    have "t_id u \<noteq> t_id x \<and> t_id x \<noteq> t_id u" if "j < length ts" "accepted_trip (ts ! j) = Some u" for j u
      using assms that x(3) unfolding acceptances_ok_def by force
    with assms True x show ?thesis
      unfolding acceptances_ok_def unique_on_trip_ids by (auto simp: nth_list_update)
  qed
  with step True show ?thesis by simp
qed (use assms in simp)

lemma acceptances_ok_run: "acceptances_ok s \<Longrightarrow> acceptances_ok (run_schedule ks s)"
proof (induction ks arbitrary: s)
  case (Cons k ks)
  then show ?case using acceptances_ok_step [of "fst s" "snd s" k] by simp
qed simp

text \<open>
  C20: no double acceptance. Whatever requests are in flight and however their phases interleave, no
  two acceptances for the same ride request both succeed: the unique constraint on a trip's request
  makes the second commit fail.
\<close>

theorem no_double_acceptance:
  assumes "unique_on t_id (trips w)" "unique_on t_rideRequestId (trips w)"
    and "run_schedule ks (map Called cs, w) = (ts, w')"
    and "j < length ts" "k < length ts" "j \<noteq> k"
    and "ts ! j = Returned (Accepted t)" "ts ! k = Returned (Accepted u)"
  shows "t_rideRequestId t \<noteq> t_rideRequestId u"
proof -
  have "accepted_trip (Called c) = None" for c by simp
  then have "acceptances_ok (map Called cs, w)" using assms(1,2) by (auto simp: acceptances_ok_def)
  then have ok: "acceptances_ok (ts, w')" using acceptances_ok_run assms(3) by metis
  have acc: "accepted_trip (ts ! j) = Some t" "accepted_trip (ts ! k) = Some u" using assms(7,8) by simp_all
  have "t_id t \<noteq> t_id u" "unique_on t_rideRequestId (trips w')"
      "(t_id t, t_rideRequestId t) \<in> set (trip_ids w')" "(t_id u, t_rideRequestId u) \<in> set (trip_ids w')"
    using ok acc assms(4-6) unfolding acceptances_ok_def fst_conv snd_conv by blast+
  then obtain x y where "x \<in> set (trips w')" "t_id x = t_id t" "t_rideRequestId x = t_rideRequestId t"
    and "y \<in> set (trips w')" "t_id y = t_id u" "t_rideRequestId y = t_rideRequestId u" by fastforce
  with \<open>t_id t \<noteq> t_id u\<close> \<open>unique_on t_rideRequestId (trips w')\<close> show ?thesis using unique_on_eq by metis
qed

definition busy_world :: world where
  "busy_world = open_world
     \<lparr>rideRequests := [sample_request, sample_request\<lparr>rr_id := ''q2''\<rparr>],
      rideOffers := [new_offer ''o'' 1 ''q'' ''pd'' 12, new_offer ''x'' 2 ''q2'' ''pe'' 15]\<rparr>"

fun accepted_of :: "thread \<Rightarrow> Trip option" where
  "accepted_of (Returned (Accepted t)) = Some t"
| "accepted_of _ = None"

lemma accepted_of_Some: "accepted_of th = Some t \<longleftrightarrow> th = Returned (Accepted t)"
  by (cases th rule: accepted_of.cases) auto

lemma no_double_acceptance_witness:
  "\<exists>t u. map accepted_of (fst (run_schedule [0, 1, 0, 1, 0, 1, 0, 1]
      (map Called [Accept ''t'' 3 ''r'' ''o'', Accept ''t2'' 4 ''r'' ''x''], busy_world))) = [Some t, Some u] \<and>
      t_rideRequestId t \<noteq> t_rideRequestId u"
proof -
  obtain ts w' where run: "run_schedule [0, 1, 0, 1, 0, 1, 0, 1]
      (map Called [Accept ''t'' 3 ''r'' ''o'', Accept ''t2'' 4 ''r'' ''x''], busy_world) = (ts, w')" by fastforce
  have "map (\<lambda>t. map_option t_id (accepted_of t)) (fst (run_schedule [0, 1, 0, 1, 0, 1, 0, 1]
      (map Called [Accept ''t'' 3 ''r'' ''o'', Accept ''t2'' 4 ''r'' ''x''], busy_world))) = [Some ''t'', Some ''t2'']"
    by code_simp
  then have "map (\<lambda>t. map_option t_id (accepted_of t)) ts = [Some ''t'', Some ''t2'']"
    unfolding run fst_conv .
  then obtain t u where ts: "ts = [Returned (Accepted t), Returned (Accepted u)]"
    by (auto simp: accepted_of_Some map_eq_Cons_conv)
  have "trips busy_world = []" by (simp add: busy_world_def open_world_def empty_world_def)
  then have "t_rideRequestId t \<noteq> t_rideRequestId u"
    using no_double_acceptance [OF _ _ run, of 0 1 t u] ts by simp
  with ts show ?thesis unfolding run by simp
qed

subsection \<open>An acceptance and a cancellation\<close>

text \<open>An offer a rider may accept: pending, on a request of that rider.\<close>

definition acceptable :: "world \<Rightarrow> RideOffer \<Rightarrow> RideRequest \<Rightarrow> bool" where
  "acceptable w f r \<longleftrightarrow>
     ride_inv w \<and> lookup ro_id (ro_id f) (rideOffers w) = Some f \<and> ro_status f = OfferStatus.PENDING \<and>
     lookup rr_id (ro_rideRequestId f) (rideRequests w) = Some r"

lemma acceptable_phases:
  assumes "acceptable w f r"
  obtains v others where
    "acceptOffer_load (rr_riderId r) (ro_id f) w = Inr v" "acceptOffer_others v w = Inr others"
    "ov_offer v = f" "ov_request v = r" "rr_id r = ro_rideRequestId f"
    "status_of w (rr_id r) = Some RideRequestStatus.PENDING"
    "rr_riderId r \<in> u_id ` set (users w)" "ov_driverUserId v \<in> u_id ` set (users w)"
proof -
  from assms have inv: "ride_inv w" and f: "lookup ro_id (ro_id f) (rideOffers w) = Some f"
    "ro_status f = OfferStatus.PENDING" and r: "lookup rr_id (ro_rideRequestId f) (rideRequests w) = Some r"
    by (simp_all add: acceptable_def)
  note refs = ride_invD(2) [OF inv, unfolded refs_ok_def]
  obtain u :: User where load: "acceptOffer_load (rr_riderId r) (ro_id f) w
    = Inr \<lparr>ov_offer = f, ov_request = r, ov_driverUserId = u_id u\<rparr>" (is "_ = Inr ?v")
    using acceptOffer_load_ok [OF inv f r refl] by blast
  note l = acceptOffer_load_Inr [OF load]
  obtain others where others: "acceptOffer_others ?v w = Inr others"
    using with_driver_users_ok [OF inv, of "filter (competing f) (rideOffers w)"]
    by (auto simp: acceptOffer_others_def)
  from r have "rr_id r = ro_rideRequestId f" by (auto dest: lookup_SomeD)
  moreover from this have "status_of w (rr_id r) = Some RideRequestStatus.PENDING"
    using r l(5) by (simp add: status_of_def)
  moreover have "rr_riderId r \<in> u_id ` set (users w)" using l(4) refs by (auto dest!: lookup_SomeD)
  moreover have "ov_driverUserId ?v \<in> u_id ` set (users w)" using l(8) refs by (auto simp: profile_users_def)
  ultimately show ?thesis using that [OF load others] by simp
qed

lemma kept_by_finish [simp]:
  "status_of (acceptOffer_finish v others t w) = status_of w"
  "trip_of (acceptOffer_finish v others t w) = trip_of w"
  "rideRequests (acceptOffer_finish v others t w) = rideRequests w"
  "rideOffers (acceptOffer_finish v others t w) = rideOffers w"
  by (simp_all add: finish_world)

text \<open>A rider's cancellation of an open request.\<close>

lemma cancel_open:
  assumes inv: "ride_inv w" and r: "lookup rr_id i (rideRequests w) = Some r"
    and st: "rr_status r = RideRequestStatus.PENDING"
  obtains v w1 where
    "cancel_load i (rr_riderId r) w = Inr v" "cancel_commit i now reason v w = Inr w1"
    "lookup rr_id i (rideRequests w1) = Some (cancelled_request now reason r)"
    "w1 = w\<lparr>rideRequests := rideRequests w1, rideOffers := rideOffers w1\<rparr>"
    "ride_inv w1" "trip_of w1 i = None" "ro_id ` set (rideOffers w1) = ro_id ` set (rideOffers w)"
proof -
  obtain us where us: "load_request i w = Inr \<lparr>rv_request = r, rv_offers = us, rv_trip = trip_of w i\<rparr>" (is "_ = Inr ?v")
    using load_request_ok [OF inv r] by blast
  have i: "status_of w i = Some RideRequestStatus.PENDING" using r st by (simp add: status_of_def)
  then have none: "trip_of w i = None" using linked_of [OF inv, of i] by simp
  have load: "cancel_load i (rr_riderId r) w = Inr ?v"
    using us st by (simp add: cancel_load_def canCancel_def isOwnerRider_def)
  obtain w1 where w1: "cancel_commit i now reason ?v w = Inr w1"
    "w1 = w\<lparr>rideRequests := rideRequests w1, rideOffers := rideOffers w1, trips := trips w1\<rparr>"
    using cancel_commit_ok [OF inv us] by blast
  note c = cancel_commit_Inr [OF w1(1)] and views = cancelled_views [OF inv us w1(1)]
  have "trips w1 = trips w" using c(3) none by (simp add: update_where_none)
  with w1(2) have "w1 = w\<lparr>rideRequests := rideRequests w1, rideOffers := rideOffers w1\<rparr>" by simp
  moreover have "ride_inv w1" by (rule ride_inv_cancel_commit [OF inv _ _ w1(1)]) (use i in simp_all)
  moreover have "ro_id ` set (rideOffers w1) = ro_id ` set (rideOffers w)"
    using c(2) by (simp add: image_update_where)
  ultimately show ?thesis using that [OF load w1(1)] views(1,3) none by simp
qed

lemma serial_accept_cancel:
  assumes "acceptable w f r" "newId \<notin> t_id ` set (trips w)"
  shows "status_of (snd (serial_all [Accept newId now (rr_riderId r) (ro_id f), Cancel (rr_id r) later (rr_riderId r) reason] w))
      (rr_id r) = Some RideRequestStatus.CANCELLED"
    and "status_of (snd (serial_all [Cancel (rr_id r) later (rr_riderId r) reason, Accept newId now (rr_riderId r) (ro_id f)] w))
      (rr_id r) = Some RideRequestStatus.CANCELLED"
proof -
  obtain v others where v: "acceptOffer_load (rr_riderId r) (ro_id f) w = Inr v" "acceptOffer_others v w = Inr others"
    "ov_offer v = f" "ov_request v = r" "rr_id r = ro_rideRequestId f"
    "status_of w (rr_id r) = Some RideRequestStatus.PENDING"
    using acceptable_phases [OF assms(1)] by blast
  from assms(1) v(5) have inv: "ride_inv w" and r: "lookup rr_id (rr_id r) (rideRequests w) = Some r"
    and f: "lookup ro_id (ro_id f) (rideOffers w) = Some f" "ro_status f = OfferStatus.PENDING"
    by (simp_all add: acceptable_def)
  then have st: "rr_status r = RideRequestStatus.PENDING" using v(6) by (simp add: status_of_def)
  let ?m = "\<lambda>x. x\<lparr>rr_status := RideRequestStatus.MATCHED\<rparr>"
  obtain t wa where wa: "acceptOffer newId now (rr_riderId r) (ro_id f) w = (Inr t, wa)"
    "rideRequests wa = update_where (\<lambda>x. rr_id x = rr_id r) ?m (rideRequests w)"
    using acceptOffer_commit_ok [OF inv v(1) assms(2), of now] v by (simp add: acceptOffer_def)
  from wa(1) have "ride_inv wa" using ride_inv_acceptOffer [OF inv] by (metis snd_conv)
  moreover have "lookup rr_id (rr_id r) (rideRequests wa) = Some (?m r)"
    using r by (simp add: wa(2) lookup_update_where)
  ultimately obtain res wc where "cancelRideRequest (rr_id r) later (rr_riderId r) reason wa = (Inr res, wc)"
    "status_of wc = (status_of wa)(rr_id r \<mapsto> RideRequestStatus.CANCELLED)"
    using cancel_result [of wa "rr_id r" "?m r" "rr_riderId r" later reason] by auto
  with wa(1) show "status_of (snd (serial_all [Accept newId now (rr_riderId r) (ro_id f),
      Cancel (rr_id r) later (rr_riderId r) reason] w)) (rr_id r) = Some RideRequestStatus.CANCELLED" by simp
  obtain res2 wc2 where c2: "cancelRideRequest (rr_id r) later (rr_riderId r) reason w = (Inr res2, wc2)"
    "status_of wc2 = (status_of w)(rr_id r \<mapsto> RideRequestStatus.CANCELLED)"
    "rideOffers wc2 = map (\<lambda>f. if ro_rideRequestId f = rr_id r \<and> ro_status f = OfferStatus.PENDING
        then f\<lparr>ro_status := OfferStatus.EXPIRED\<rparr> else f) (rideOffers w)"
    using cancel_result [OF inv r, of "rr_riderId r" later reason] st by auto
  have "lookup ro_id (ro_id f) (rideOffers wc2) = Some (f\<lparr>ro_status := OfferStatus.EXPIRED\<rparr>)"
    using f v(5) by (simp add: c2(3) lookup_update_where flip: update_where_def)
  then have "\<exists>e. acceptOffer_load (rr_riderId r) (ro_id f) wc2 = Inl e"
    by (auto simp: acceptOffer_load_def split: option.splits sum.splits)
  with c2(1,2) show "status_of (snd (serial_all [Cancel (rr_id r) later (rr_riderId r) reason,
      Accept newId now (rr_riderId r) (ro_id f)] w)) (rr_id r) = Some RideRequestStatus.CANCELLED"
    by (auto simp: acceptOffer_def)
qed

text \<open>
  C40: a cancelled ride can come back. When a rider's acceptance and cancellation overlap, the
  acceptance having read the offer before the cancellation commits, both succeed and the request
  that was just reported CANCELLED ends MATCHED, still stamped with the time of its cancellation,
  with a live trip for the driver: the transaction of the acceptance does not look at the rows again.
  Run one after the other, in either order, the same two calls leave the request CANCELLED.
\<close>

theorem cancelled_ride_comes_back:
  assumes "acceptable w f r" "newId \<notin> t_id ` set (trips w)"
  shows "(\<exists>t res w'. run_schedule [0, 0, 1, 1, 0, 0]
      ([Called (Accept newId now (rr_riderId r) (ro_id f)), Called (Cancel (rr_id r) later (rr_riderId r) reason)], w)
      = ([Returned (Accepted t), Returned (Cancelled res)], w') \<and>
      rr_status (rrr_request res) = RideRequestStatus.CANCELLED \<and>
      status_of w' (rr_id r) = Some RideRequestStatus.MATCHED \<and>
      map_option rr_cancelledAt (lookup rr_id (rr_id r) (rideRequests w')) = Some (Some later) \<and>
      trip_of w' (rr_id r) = Some t \<and> t_status t = TripStatus.MATCHED) \<and>
    status_of (snd (serial_all [Accept newId now (rr_riderId r) (ro_id f), Cancel (rr_id r) later (rr_riderId r) reason] w))
      (rr_id r) = Some RideRequestStatus.CANCELLED \<and>
    status_of (snd (serial_all [Cancel (rr_id r) later (rr_riderId r) reason, Accept newId now (rr_riderId r) (ro_id f)] w))
      (rr_id r) = Some RideRequestStatus.CANCELLED"
proof (rule conjI [OF _ conjI [OF serial_accept_cancel [OF assms]]])
  obtain v others where v: "acceptOffer_load (rr_riderId r) (ro_id f) w = Inr v" "acceptOffer_others v w = Inr others"
    "ov_offer v = f" "ov_request v = r" "rr_id r = ro_rideRequestId f"
    "status_of w (rr_id r) = Some RideRequestStatus.PENDING"
    "rr_riderId r \<in> u_id ` set (users w)" "ov_driverUserId v \<in> u_id ` set (users w)"
    using acceptable_phases [OF assms(1)] by blast
  from assms(1) v(5) have inv: "ride_inv w" and f: "f \<in> set (rideOffers w)"
    and r: "lookup rr_id (rr_id r) (rideRequests w) = Some r"
    by (auto simp: acceptable_def dest: lookup_SomeD)
  then have "rr_status r = RideRequestStatus.PENDING" using v(6) by (simp add: status_of_def)
  then obtain cv w1 where c: "cancel_load (rr_id r) (rr_riderId r) w = Inr cv"
    "cancel_commit (rr_id r) later reason cv w = Inr w1"
    "lookup rr_id (rr_id r) (rideRequests w1) = Some (cancelled_request later reason r)"
    "w1 = w\<lparr>rideRequests := rideRequests w1, rideOffers := rideOffers w1\<rparr>"
    "ride_inv w1" "trip_of w1 (rr_id r) = None" "ro_id ` set (rideOffers w1) = ro_id ` set (rideOffers w)"
    using cancel_open [OF inv r] by blast
  let ?c = "cancelled_request later reason r" and ?t = "new_trip newId now (rr_riderId r) v"
  let ?w2 = "emit (RideRequestCancelled ?c (affectedDriverUserIds cv)) w1"
  have tabs: "trips w1 = trips w" "users w1 = users w" by (subst c(4), simp)+
  have ids: "rr_id ?c = rr_id r" "rr_status ?c = RideRequestStatus.CANCELLED" "rr_cancelledAt ?c = Some later"
    by (simp_all add: cancelled_request_def)
  obtain w3 where w3: "acceptOffer_commit newId now (rr_riderId r) v ?w2 = Inr w3"
    "rideRequests w3 = update_where (\<lambda>x. rr_id x = rr_id r)
       (\<lambda>x. x\<lparr>rr_status := RideRequestStatus.MATCHED\<rparr>) (rideRequests w1)" "trips w3 = trips w1 @ [?t]"
  proof (atomize_elim, subst acceptOffer_commit_writes)
    show "keys_ok ?w2" using ride_invD(1) [OF c(5)] by (simp add: keys_ok_def emit_def)
  qed (use v f c assms(2) tabs in \<open>auto simp: emit_def trip_of_def\<close>)
  let ?w4 = "acceptOffer_finish v others ?t w3"
  have run: "run_schedule [0, 0, 1, 1, 0, 0]
      ([Called (Accept newId now (rr_riderId r) (ro_id f)), Called (Cancel (rr_id r) later (rr_riderId r) reason)], w)
      = ([Returned (Accepted ?t), Returned (Cancelled \<lparr>rrr_request = ?c, rrr_nearbyDriverCount = None,
            rrr_trip = None, rrr_offers = None\<rparr>)], ?w4)"
    using v(1,2) c(1-3) w3(1) by simp
  have r4: "lookup rr_id (rr_id r) (rideRequests ?w4) = Some (?c\<lparr>rr_status := RideRequestStatus.MATCHED\<rparr>)"
    using c(3) by (simp add: w3(2) lookup_update_where ids)
  have t4: "trip_of ?w4 (rr_id r) = Some ?t"
    using c(6) v(3,5) by (simp add: trip_of_def w3(3) lookup_append new_trip_def)
  show "\<exists>t res w'. run_schedule [0, 0, 1, 1, 0, 0]
      ([Called (Accept newId now (rr_riderId r) (ro_id f)), Called (Cancel (rr_id r) later (rr_riderId r) reason)], w)
      = ([Returned (Accepted t), Returned (Cancelled res)], w') \<and>
      rr_status (rrr_request res) = RideRequestStatus.CANCELLED \<and>
      status_of w' (rr_id r) = Some RideRequestStatus.MATCHED \<and>
      map_option rr_cancelledAt (lookup rr_id (rr_id r) (rideRequests w')) = Some (Some later) \<and>
      trip_of w' (rr_id r) = Some t \<and> t_status t = TripStatus.MATCHED"
    by (intro exI conjI, rule run)
      (use r4 t4 in \<open>simp_all add: status_of_def ids new_trip_def del: kept_by_finish\<close>)
qed

lemma acceptable_open: "acceptable open_world (new_offer ''o'' 1 ''q'' ''pd'' 12) sample_request"
  using ride_inv_open by (simp add: acceptable_def scenario_defs)

lemma cancelled_ride_comes_back_witness:
  "\<exists>t res w'. run_schedule [0, 0, 1, 1, 0, 0]
      ([Called (Accept ''t'' 3 ''r'' ''o''), Called (Cancel ''q'' 4 ''r'' None)], open_world)
      = ([Returned (Accepted t), Returned (Cancelled res)], w') \<and>
      rr_status (rrr_request res) = RideRequestStatus.CANCELLED \<and>
      status_of w' ''q'' = Some RideRequestStatus.MATCHED"
  using cancelled_ride_comes_back [OF acceptable_open, of "''t''" 3 4 None]
  by (auto simp: scenario_defs simp del: run_schedule_simps)

subsection \<open>An acceptance and the expiry of the same offer\<close>

text \<open>
  An accepted offer can expire. An expiry job that read its offer before the rider's acceptance
  commits still expires it afterwards: the trip exists, the driver is told that the offer expired,
  and no offer on the request is ACCEPTED any more, which no serial order can produce.
\<close>

lemma accepted_offer_expires:
  assumes "acceptable w f r" "newId \<notin> t_id ` set (trips w)"
  shows "\<exists>t d w'. run_schedule [1, 0, 0, 0, 0, 1]
      ([Called (Accept newId now (rr_riderId r) (ro_id f)), Called (Expire (ro_id f))], w)
      = ([Returned (Accepted t), Returned Expired], w') \<and>
      trip_of w' (rr_id r) = Some t \<and>
      map_option ro_status (lookup ro_id (ro_id f) (rideOffers w')) = Some OfferStatus.EXPIRED \<and>
      last (events w') = OfferExpired (rr_id r) (ro_id f) d \<and> \<not> trips_ok w'"
proof -
  obtain v others where v: "acceptOffer_load (rr_riderId r) (ro_id f) w = Inr v" "acceptOffer_others v w = Inr others"
    "ov_offer v = f" "ov_request v = r" "rr_id r = ro_rideRequestId f"
    "status_of w (rr_id r) = Some RideRequestStatus.PENDING"
    using acceptable_phases [OF assms(1)] by blast
  from assms(1) have inv: "ride_inv w" and f: "lookup ro_id (ro_id f) (rideOffers w) = Some f" "ro_status f = OfferStatus.PENDING"
    by (simp_all add: acceptable_def)
  then obtain d where d: "driver_user_of f w = Inr d" using driver_user_of_ok [OF inv] by (blast dest: lookup_SomeD)
  then have load: "expireIfStillPending_load (ro_id f) w = Inr (Some (f, d))"
    using f by (simp add: expireIfStillPending_load_def)
  let ?t = "new_trip newId now (rr_riderId r) v" and ?e = "\<lambda>g. g\<lparr>ro_status := OfferStatus.EXPIRED\<rparr>"
  obtain w1 where w1: "acceptOffer_commit newId now (rr_riderId r) v w = Inr w1"
    "rideOffers w1 = accepted_offers f (rideOffers w)" "trips w1 = trips w @ [?t]"
    using acceptOffer_commit_ok [OF inv v(1) assms(2), of now] v(3) by simp
  let ?w2 = "acceptOffer_finish v others ?t w1"
  have "acceptOffer newId now (rr_riderId r) (ro_id f) w = (Inr ?t, ?w2)"
    using v(1,2) w1(1) by (simp add: acceptOffer_def)
  then have inv2: "ride_inv ?w2" using ride_inv_acceptOffer [OF inv] by (metis snd_conv)
  have f2: "lookup ro_id (ro_id f) (rideOffers ?w2) = Some (f\<lparr>ro_status := OfferStatus.ACCEPTED\<rparr>)"
    using f by (simp add: w1(2) accepted_offers_def lookup_update_where competing_def)
  note expired = expireOffer_commit_ok [OF inv2 f2]
  let ?w3 = "?w2\<lparr>rideOffers := update_where (\<lambda>g. ro_id g = ro_id f) ?e (rideOffers ?w2)\<rparr>"
  let ?w4 = "emit (OfferExpired (ro_rideRequestId f) (ro_id f) (u_id d)) ?w3"
  have run: "run_schedule [1, 0, 0, 0, 0, 1]
      ([Called (Accept newId now (rr_riderId r) (ro_id f)), Called (Expire (ro_id f))], w)
      = ([Returned (Accepted ?t), Returned Expired], ?w4)"
    using load v(1,2) w1(1) expired by simp
  have "trip_of ?w2 (ro_rideRequestId f) = Some ?t"
    using linked_of [OF inv, of "rr_id r"] v(3,5,6) by (simp add: trip_of_def w1(3) lookup_append new_trip_def)
  then have trip: "trip_of ?w4 (rr_id r) = Some ?t" using v(5) by (simp add: trip_of_def)
  have offer: "lookup ro_id (ro_id f) (rideOffers ?w4) = Some (f\<lparr>ro_status := OfferStatus.EXPIRED\<rparr>)"
    using f2 by (simp add: emit_def lookup_update_where del: kept_by_finish)
  have none: "ro_status g \<noteq> OfferStatus.ACCEPTED"
    if "g \<in> set (rideOffers ?w4)" "ro_rideRequestId g = rr_id r" for g
  proof
    assume "ro_status g = OfferStatus.ACCEPTED"
    with that have g: "g \<in> set (rideOffers w)" "ro_id g \<noteq> ro_id f"
      by (auto simp: emit_def w1(2) elim!: in_update_whereE accepted_offers_cases)
    with inv \<open>ro_status g = OfferStatus.ACCEPTED\<close> that(2) have "trip_of w (rr_id r) \<noteq> None"
      by (auto simp: ride_inv_def accepted_ok_def)
    with linked_of [OF inv, of "rr_id r"] v(6) show False by simp
  qed
  have "?t \<in> set (trips ?w4)" using trip unfolding trip_of_def by (rule conjunct1 [OF lookup_SomeD])
  moreover have "t_rideRequestId ?t = rr_id r" using v(3,5) by (simp add: new_trip_def)
  ultimately have bad: "\<not> trips_ok ?w4" using none unfolding trips_ok_def agrees_def by metis
  have "last (events ?w4) = OfferExpired (rr_id r) (ro_id f) (u_id d)" using v(5) by (simp add: emit_def)
  with trip offer bad show ?thesis
    by (intro exI [of _ ?t] exI [of _ "u_id d"] exI [of _ ?w4]) (simp only: run, simp)
qed

lemma accepted_offer_expires_witness:
  "\<exists>t d w'. run_schedule [1, 0, 0, 0, 0, 1]
      ([Called (Accept ''t'' 3 ''r'' ''o''), Called (Expire ''o'')], open_world)
      = ([Returned (Accepted t), Returned Expired], w') \<and>
      trip_of w' ''q'' = Some t \<and> last (events w') = OfferExpired ''q'' ''o'' d"
  using accepted_offer_expires [OF acceptable_open, of "''t''" 3]
  by (auto simp: scenario_defs simp del: run_schedule_simps)

end
