(* ===== verification/TripSpecs.thy ===== *)
theory TripSpecs
  imports RideSpecs
begin

section \<open>Trip specifications: starting, completing, rating\<close>

text \<open>
  The contracts of TripsService and RatingsService, and what the ride operations do when they fail.
\<close>

subsection \<open>Starting and completing\<close>

lemma trip_of_written:
  assumes "unique_on t_rideRequestId (trips w)" "t \<in> set (trips w)" "unique_on t_id (trips w)"
    and "trips w' = update_where (\<lambda>x. t_id x = t_id t) h (trips w)"
    and "\<And>t. t_rideRequestId (h t) = t_rideRequestId t"
  shows "trip_of w' = (trip_of w)(t_rideRequestId t \<mapsto> h t)"
proof
  fix j
  have "t_id x = t_id t \<longleftrightarrow> x = t" if "x \<in> set (trips w)" for x
    using assms(2,3) that by (auto dest: unique_on_eq)
  moreover have "trip_of w (t_rideRequestId t) = Some t"
    using assms(1,2) by (simp add: trip_of_def lookup_Some_iff)
  ultimately show "trip_of w' j = ((trip_of w)(t_rideRequestId t \<mapsto> h t)) j"
    using assms(4,5) by (cases "trip_of w j") (auto simp: trip_of_def lookup_update_where dest: lookup_SomeD)
qed

text \<open>Both operations are one move of the trip and of its request, in one transaction.\<close>

lemma advance_commit:
  assumes inv: "ride_inv w" and t: "lookup t_id i (trips w) = Some t"
    and h: "\<And>t. t_id (h t) = t_id t" "\<And>t. t_rideRequestId (h t) = t_rideRequestId t"
    and f: "\<And>r. rr_id (f r) = rr_id r" "\<And>r. rr_status (f r) = s"
  shows "\<exists>w'. transaction [trip_update i h, rideRequest_update (t_rideRequestId t) f] w = Inr w' \<and>
    lookup t_id i (trips w') = Some (h t) \<and>
    trip_of w' = (trip_of w)(t_rideRequestId t \<mapsto> h t) \<and>
    status_of w' = (status_of w)(t_rideRequestId t \<mapsto> s) \<and>
    w' = w\<lparr>trips := trips w', rideRequests := rideRequests w'\<rparr>"
proof -
  note keys = ride_invD(1) [OF inv, unfolded keys_ok_def]
  from t have ti: "t \<in> set (trips w)" "t_id t = i" by (auto dest: lookup_SomeD)
  then have "trip_of w (t_rideRequestId t) = Some t" using inv by (simp add: trip_of_member)
  with linked_of [OF inv, of "t_rideRequestId t"] obtain r where
    r: "lookup rr_id (t_rideRequestId t) (rideRequests w) = Some r"
    by (cases "status_of w (t_rideRequestId t)") (auto simp: status_of_def)
  let ?w1 = "w\<lparr>trips := update_where (\<lambda>r. t_id r = i) h (trips w)\<rparr>"
  let ?w2 = "?w1\<lparr>rideRequests := update_where (\<lambda>r. rr_id r = t_rideRequestId t) f (rideRequests w)\<rparr>"
  have 1: "trip_update i h w = Inr ?w1"
    using keys t h ti by (intro trip_update_ok) auto
  have 2: "rideRequest_update (t_rideRequestId t) f ?w1 = Inr ?w2"
    using keys r f rideRequest_update_ok [of ?w1 "t_rideRequestId t" r f] by (auto dest: lookup_SomeD)
  have "lookup t_id i (trips ?w2) = Some (h t)" using t ti h(1) by (simp add: lookup_update_where)
  moreover have "trip_of ?w2 = (trip_of w)(t_rideRequestId t \<mapsto> h t)"
    using keys ti h(2) by (intro trip_of_written) auto
  moreover have "status_of ?w2 = (status_of w)(t_rideRequestId t \<mapsto> s)"
    using f r by (intro status_of_written [where f = f]) (simp_all add: status_of_def)
  ultimately show ?thesis by (simp add: 1 2)
qed

lemma start_result:
  fixes now :: int
  assumes "ride_inv w" "lookup t_id i (trips w) = Some t" "t_driverId t = u"
    and "t_status t = TripStatus.MATCHED"
  defines "t' \<equiv> t\<lparr>t_status := TripStatus.STARTED, t_startedAt := Some now\<rparr>"
  shows "\<exists>w'. startTrip i now u w = (Inr t', w') \<and> trip_of w' = (trip_of w)(t_rideRequestId t \<mapsto> t') \<and>
    status_of w' = (status_of w)(t_rideRequestId t \<mapsto> RideRequestStatus.IN_PROGRESS) \<and>
    rideOffers w' = rideOffers w \<and> queue w' = queue w \<and> events w' = events w @ [TripStarted t']"
proof -
  obtain w1 where w1: "start_commit i now t w = Inr w1" "lookup t_id i (trips w1) = Some t'"
    "trip_of w1 = (trip_of w)(t_rideRequestId t \<mapsto> t')"
    "status_of w1 = (status_of w)(t_rideRequestId t \<mapsto> RideRequestStatus.IN_PROGRESS)"
    "w1 = w\<lparr>trips := trips w1, rideRequests := rideRequests w1\<rparr>"
    using advance_commit [OF assms(1,2), of "\<lambda>t. t\<lparr>t_status := TripStatus.STARTED, t_startedAt := Some now\<rparr>"
        "\<lambda>r. r\<lparr>rr_status := RideRequestStatus.IN_PROGRESS\<rparr>" RideRequestStatus.IN_PROGRESS]
    by (auto simp: start_commit_def t'_def)
  have "startTrip i now u w = (Inr t', emit (TripStarted t') w1)"
    using assms(2-4) w1(1,2) by (simp add: startTrip_def start_load_def findOwnedByDriver_def trip_result_def)
  moreover have "events w1 = events w" "queue w1 = queue w" "rideOffers w1 = rideOffers w"
    by (subst w1(5), simp)+
  ultimately show ?thesis using w1(3,4) by (intro exI [of _ "emit (TripStarted t') w1"]) (simp add: emit_def)
qed

lemma complete_result:
  fixes now :: int
  assumes "ride_inv w" "lookup t_id i (trips w) = Some t" "t_driverId t = u"
    and "t_status t = TripStatus.STARTED"
  defines "t' \<equiv> t\<lparr>t_status := TripStatus.COMPLETED, t_endedAt := Some now\<rparr>"
  shows "\<exists>w'. completeTrip i now u w = (Inr t', w') \<and> trip_of w' = (trip_of w)(t_rideRequestId t \<mapsto> t') \<and>
    status_of w' = (status_of w)(t_rideRequestId t \<mapsto> RideRequestStatus.COMPLETED) \<and>
    rideOffers w' = rideOffers w \<and> queue w' = queue w \<and> events w' = events w @ [TripCompleted t']"
proof -
  obtain w1 where w1: "complete_commit i now t w = Inr w1" "lookup t_id i (trips w1) = Some t'"
    "trip_of w1 = (trip_of w)(t_rideRequestId t \<mapsto> t')"
    "status_of w1 = (status_of w)(t_rideRequestId t \<mapsto> RideRequestStatus.COMPLETED)"
    "w1 = w\<lparr>trips := trips w1, rideRequests := rideRequests w1\<rparr>"
    using advance_commit [OF assms(1,2), of "\<lambda>t. t\<lparr>t_status := TripStatus.COMPLETED, t_endedAt := Some now\<rparr>"
        "\<lambda>r. r\<lparr>rr_status := RideRequestStatus.COMPLETED\<rparr>" RideRequestStatus.COMPLETED]
    by (auto simp: complete_commit_def t'_def)
  have "completeTrip i now u w = (Inr t', emit (TripCompleted t') w1)"
    using assms(2-4) w1(1,2)
    by (simp add: completeTrip_def complete_load_def findOwnedByDriver_def trip_result_def)
  moreover have "events w1 = events w" "queue w1 = queue w" "rideOffers w1 = rideOffers w"
    by (subst w1(5), simp)+
  ultimately show ?thesis using w1(3,4) by (intro exI [of _ "emit (TripCompleted t') w1"]) (simp add: emit_def)
qed

text \<open>
  C9: a trip and its ride request move together, and only its driver moves them. Starting a
  MATCHED trip stamps it STARTED and puts the request IN_PROGRESS; completing a STARTED one stamps
  it COMPLETED and the request too; each emits its one event. Another user is refused, a trip in
  any other state is refused, and a refusal writes nothing.
\<close>

theorem trip_moves_with_its_request:
  assumes "ride_inv w" "lookup t_id i (trips w) = Some t"
  shows "(if t_driverId t \<noteq> u then startTrip i now u w = (Inl forbidden, w)
    else if t_status t \<noteq> TripStatus.MATCHED
    then startTrip i now u w = (Inl (BadRequestException ''Trip cannot be started from its current status''), w)
    else \<exists>t' w'. startTrip i now u w = (Inr t', w') \<and>
      t' = t\<lparr>t_status := TripStatus.STARTED, t_startedAt := Some now\<rparr> \<and>
      trip_of w' = (trip_of w)(t_rideRequestId t \<mapsto> t') \<and>
      status_of w' = (status_of w)(t_rideRequestId t \<mapsto> RideRequestStatus.IN_PROGRESS) \<and>
      rideOffers w' = rideOffers w \<and> events w' = events w @ [TripStarted t']) \<and>
   (if t_driverId t \<noteq> u then completeTrip i now u w = (Inl forbidden, w)
    else if t_status t \<noteq> TripStatus.STARTED
    then completeTrip i now u w = (Inl (BadRequestException ''Trip cannot be completed from its current status''), w)
    else \<exists>t' w'. completeTrip i now u w = (Inr t', w') \<and>
      t' = t\<lparr>t_status := TripStatus.COMPLETED, t_endedAt := Some now\<rparr> \<and>
      trip_of w' = (trip_of w)(t_rideRequestId t \<mapsto> t') \<and>
      status_of w' = (status_of w)(t_rideRequestId t \<mapsto> RideRequestStatus.COMPLETED) \<and>
      rideOffers w' = rideOffers w \<and> events w' = events w @ [TripCompleted t'])"
  using assms start_result [OF assms, of u now] complete_result [OF assms, of u now]
  by (auto simp: startTrip_def start_load_def completeTrip_def complete_load_def findOwnedByDriver_def)

lemma matched_trip:
  "lookup t_id ''t'' (trips matched_world) = Some \<lparr>t_id = ''t'', t_rideRequestId = ''q'', t_driverId = ''d'',
     t_riderId = ''r'', t_agreedFare = 12, t_status = TripStatus.MATCHED, t_routePolyline = None,
     t_startedAt = None, t_endedAt = None, t_cancelReason = None, t_createdAt = 3\<rparr>"
  by (simp add: matched_world_def scenario_defs scenario_ops emit_def enqueue_def
      cancelScheduledExpiry_def lookup_def)

lemma trip_moves_with_its_request_witness:
  "startTrip ''t'' 4 ''r'' matched_world = (Inl forbidden, matched_world) \<and>
   (\<exists>t' w'. startTrip ''t'' 4 ''d'' matched_world = (Inr t', w') \<and>
     status_of w' ''q'' = Some RideRequestStatus.IN_PROGRESS \<and> t_startedAt t' = Some 4)"
  using trip_moves_with_its_request [OF ride_inv_scenario(1) matched_trip, of "''r''" 4]
    trip_moves_with_its_request [OF ride_inv_scenario(1) matched_trip, of "''d''" 4]
  by auto

subsection \<open>Failures\<close>

text \<open>
  A ride operation that fails has done nothing: whatever the error (a refusal, a constraint of
  the database, a missing row), the world, its log of events and its queue are as before.
\<close>

lemma failed_ride_operations_change_nothing:
  assumes "ride_inv w"
  shows "(fst (createRideRequest g km newId now u dto w) = Inl e \<longrightarrow> snd (createRideRequest g km newId now u dto w) = w) \<and>
    (fst (submitOffer secs newId now u i fare w) = Inl e \<longrightarrow> snd (submitOffer secs newId now u i fare w) = w) \<and>
    (fst (acceptOffer newId now u i w) = Inl e \<longrightarrow> snd (acceptOffer newId now u i w) = w) \<and>
    (fst (cancelRideRequest i now u reason w) = Inl e \<longrightarrow> snd (cancelRideRequest i now u reason w) = w) \<and>
    (fst (startTrip i now u w) = Inl e \<longrightarrow> snd (startTrip i now u w) = w) \<and>
    (fst (completeTrip i now u w) = Inl e \<longrightarrow> snd (completeTrip i now u w) = w) \<and>
    (fst (process_job (ExpireOffer i) w) = Inl e \<longrightarrow> snd (process_job (ExpireOffer i) w) = w)"
proof (intro conjI impI)
  show "snd (createRideRequest g km newId now u dto w) = w" if "fst (createRideRequest g km newId now u dto w) = Inl e"
    using that by (auto simp: createRideRequest_def Let_def split: sum.splits)
  show "snd (submitOffer secs newId now u i fare w) = w" if "fst (submitOffer secs newId now u i fare w) = Inl e"
    using that by (auto simp: submitOffer_def split: sum.splits)
  show "snd (acceptOffer newId now u i w) = w" if "fst (acceptOffer newId now u i w) = Inl e"
    using that by (auto simp: acceptOffer_def split: sum.splits)
  show "snd (process_job (ExpireOffer i) w) = w" if "fst (process_job (ExpireOffer i) w) = Inl e"
    using that by (auto simp: expireIfStillPending_def split: sum.splits option.splits)
  show "snd (cancelRideRequest i now u reason w) = w" if "fst (cancelRideRequest i now u reason w) = Inl e"
  proof (cases "lookup rr_id i (rideRequests w)")
    case None
    then show ?thesis by (simp add: cancelRideRequest_def cancel_load_def load_request_def)
  next
    case (Some r)
    show ?thesis using cancel_result [OF assms Some, of u now reason] that by (auto split: if_splits)
  qed
  show "snd (startTrip i now u w) = w" if "fst (startTrip i now u w) = Inl e"
    using that start_result [OF assms, of i _ u now]
    by (cases "start_load i u w") (force simp: startTrip_def start_load_def findOwnedByDriver_def
        split: option.splits if_splits)+
  show "snd (completeTrip i now u w) = w" if "fst (completeTrip i now u w) = Inl e"
    using that complete_result [OF assms, of i _ u now]
    by (cases "complete_load i u w") (force simp: completeTrip_def complete_load_def findOwnedByDriver_def
        split: option.splits if_splits)+
qed

end
