(* ===== verification/Relay.thy ===== *)
theory Relay
  imports Logs TripSpecs Realtime
begin

section \<open>Relay: what the events say of the rides\<close>

text \<open>
  The gateway learns of the rides from the domain events alone. Every event a service emits agrees
  with the database it leaves (\<open>event_ok\<close>), the identities it names are never lost (\<open>facts_kept\<close>),
  and the table of drivers under way that the events build (\<open>active_event\<close>) only ever names trips
  that are not completed (\<open>relay_ok\<close>).
\<close>

definition trip_links :: "world \<Rightarrow> (string \<times> string \<times> string \<times> string) set" where
  "trip_links w = (\<lambda>t. (t_id t, t_rideRequestId t, t_driverId t, t_riderId t)) ` set (trips w)"

definition offer_links :: "world \<Rightarrow> (string \<times> string \<times> string) set" where
  "offer_links w = (\<lambda>f. (ro_id f, ro_rideRequestId f, ro_driverId f)) ` set (rideOffers w)"

definition facts_kept :: "world \<Rightarrow> world \<Rightarrow> bool" where
  "facts_kept w w' \<longleftrightarrow>
     trip_links w \<subseteq> trip_links w' \<and> offer_links w \<subseteq> offer_links w' \<and>
     request_riders w \<subseteq> request_riders w'"

lemmas link_defs = trip_links_def offer_links_def request_riders_def

text \<open>Updates that keep the columns the links are made of.\<close>

lemma trip_links_update:
  assumes "\<And>t. same_terms t (h t)"
  shows "(\<lambda>t. (t_id t, t_rideRequestId t, t_driverId t, t_riderId t)) ` set (update_where p h ts)
    = (\<lambda>t. (t_id t, t_rideRequestId t, t_driverId t, t_riderId t)) ` set ts"
  using assms by (intro image_update_where) (simp add: same_terms_def)

lemma offer_links_update:
  assumes "\<And>f. ro_id (h f) = ro_id f" "\<And>f. ro_key (h f) = ro_key f"
  shows "(\<lambda>f. (ro_id f, ro_rideRequestId f, ro_driverId f)) ` set (update_where p h fs)
    = (\<lambda>f. (ro_id f, ro_rideRequestId f, ro_driverId f)) ` set fs"
  using assms by (intro image_update_where) (simp add: ro_key_def)

lemma request_links_update:
  assumes "\<And>r. rr_id (h r) = rr_id r" "\<And>r. rr_riderId (h r) = rr_riderId r"
  shows "(\<lambda>r. (rr_id r, rr_riderId r)) ` set (update_where p h rs) = (\<lambda>r. (rr_id r, rr_riderId r)) ` set rs"
  using assms by (intro image_update_where) simp

lemmas links_update = trip_links_update offer_links_update request_links_update

text \<open>The identities an event names.\<close>

fun event_ok :: "world \<Rightarrow> DomainEvent \<Rightarrow> bool" where
  "event_ok w (RideRequestCreated r us) \<longleftrightarrow> set us \<subseteq> snd ` profile_users w"
| "event_ok w (OfferSubmitted f riderId) \<longleftrightarrow> (ro_rideRequestId f, riderId) \<in> request_riders w"
| "event_ok w (OfferAccepted r t f us) \<longleftrightarrow>
     (t_id t, t_rideRequestId t, t_driverId t, t_riderId t) \<in> trip_links w"
| "event_ok w (TripStarted t) \<longleftrightarrow> (t_id t, t_rideRequestId t, t_driverId t, t_riderId t) \<in> trip_links w"
| "event_ok w (TripCompleted t) \<longleftrightarrow> (t_id t, t_rideRequestId t, t_driverId t, t_riderId t) \<in> trip_links w"
| "event_ok w (RideRequestCancelled r us) \<longleftrightarrow>
     (rr_id r, rr_riderId r) \<in> request_riders w \<and> (\<forall>u \<in> set us. offering w (rr_id r) u)"
| "event_ok w (OfferExpired i offerId u) \<longleftrightarrow>
     (\<exists>p. (offerId, i, p) \<in> offer_links w \<and> (p, u) \<in> profile_users w)"
| "event_ok w _ \<longleftrightarrow> True"

text \<open>\<open>activeTripRiderByDriver\<close> as a fold over the events.\<close>

fun active_event :: "DomainEvent \<Rightarrow> (string \<rightharpoonup> string) \<Rightarrow> (string \<rightharpoonup> string)" where
  "active_event (OfferAccepted r t f us) m = m(t_driverId t \<mapsto> t_riderId t)"
| "active_event (TripCompleted t) m = m(t_driverId t := None)"
| "active_event _ m = m"

definition relay_ok :: "world \<Rightarrow> (string \<rightharpoonup> string) \<Rightarrow> bool" where
  "relay_ok w m \<longleftrightarrow>
     (\<forall>d r. m d = Some r \<longrightarrow>
        (\<exists>t \<in> set (trips w). t_driverId t = d \<and> t_riderId t = r \<and> t_status t \<noteq> TripStatus.COMPLETED))"

text \<open>What an operation adds to the log, against the world it leaves.\<close>

definition effect_ok :: "world \<Rightarrow> world \<Rightarrow> bool" where
  "effect_ok w w' \<longleftrightarrow>
     facts_kept w w' \<and>
     (\<exists>es. events w' = events w @ es \<and> list_all (event_ok w') es \<and>
        (\<forall>m. relay_ok w m \<longrightarrow> relay_ok w' (fold active_event es m)))"

lemma effect_okI:
  assumes "facts_kept w w'" "events w' = events w @ es" "\<And>e. e \<in> set es \<Longrightarrow> event_ok w' e"
    and "\<And>m. relay_ok w m \<Longrightarrow> relay_ok w' (fold active_event es m)"
  shows "effect_ok w w'"
  using assms by (auto simp: effect_ok_def list_all_iff)

lemma effect_ok_refl [simp]: "effect_ok w w"
  by (rule effect_okI [where es = "[]"]) (simp_all add: facts_kept_def)

lemma driver_events:
  "driver_event e \<Longrightarrow> event_ok w e \<and> active_event e m = m"
  by (cases e rule: driver_event.cases) simp_all

lemma effect_ok_bystander:
  assumes "bystander w w'"
  shows "effect_ok w w'"
proof -
  from assms obtain es where es: "events w' = events w @ es" "list_all driver_event es"
    and tabs: "rideRequests w' = rideRequests w" "rideOffers w' = rideOffers w" "trips w' = trips w"
    by (auto simp: bystander_def)
  from es(2) have "fold active_event es m = m" for m
    by (induction es arbitrary: m) (auto simp: driver_events)
  moreover have "event_ok w' e" if "e \<in> set es" for e
    using es(2) that driver_events by (auto simp: list_all_iff)
  ultimately show ?thesis using tabs
    by (intro effect_okI [OF _ es(1)])
      (simp_all add: facts_kept_def trip_links_def offer_links_def request_riders_def relay_ok_def)
qed

subsection \<open>The ride operations\<close>

lemma nearby_drivers_have_profiles:
  "nd_userId ` set (findNearbyDrivers g km lat lng r w) \<subseteq> snd ` profile_users w"
  by (force simp: findNearbyDrivers_def profile_users_def dest: nearby_rows_subset)

lemma effect_ok_createRideRequest: "effect_ok w (snd (createRideRequest g km newId now u dto w))"
proof -
  have "effect_ok w (emit (RideRequestCreated r (map nd_userId (findNearbyDrivers g km lat lng x w'))) w')"
    if "rideRequest_create r w = Inr w'" for r lat lng x w'
    using that nearby_drivers_have_profiles [of g km lat lng x w']
    by (intro effect_okI [where es = "[RideRequestCreated r (map nd_userId (findNearbyDrivers g km lat lng x w'))]"])
      (auto simp: rideRequest_create_Inr emit_def relay_ok_def facts_kept_def link_defs profile_users_def)
  then show ?thesis by (auto simp: createRideRequest_def Let_def split: sum.splits)
qed

lemma effect_ok_submitOffer:
  assumes "ride_inv w"
  shows "effect_ok w (snd (submitOffer secs newId now u i fare w))"
proof -
  have "effect_ok w (submitOffer_finish secs f r w')"
    if load: "submitOffer_load u i w = Inr (p, r)"
      and ups: "rideOffer_upsert newId now i (dp_id p) fare w = Inr (f, w')" for p f r w'
  proof (rule effect_okI [where es = "[OfferSubmitted f (rr_riderId r)]"])
    note frame = rideOffer_upsert_frame [OF ups]
    have same: "trips w' = trips w" "rideRequests w' = rideRequests w" "events w' = events w" by (subst frame, simp)+
    have r: "(i, rr_riderId r) \<in> request_riders w"
      using load by (force simp: submitOffer_load_def request_riders_def split: option.splits if_splits dest: lookup_SomeD)
    have f: "ro_rideRequestId f = i"
      using ups by (auto simp: rideOffer_upsert_def new_offer_def resubmit_def ro_key_def
          split: option.splits sum.splits dest!: lookup_SomeD)
    show "events (submitOffer_finish secs f r w') = events w @ [OfferSubmitted f (rr_riderId r)]"
      using same by (simp add: submitOffer_finish_def scheduleExpiry_def cancelScheduledExpiry_def enqueue_def emit_def)
    show "event_ok (submitOffer_finish secs f r w') e" if "e \<in> set [OfferSubmitted f (rr_riderId r)]" for e
      using that r f same
      by (simp add: request_riders_def submitOffer_finish_def scheduleExpiry_def cancelScheduledExpiry_def enqueue_def emit_def)
    have "offer_links w \<subseteq> offer_links w'"
      using ups by (auto simp: rideOffer_upsert_def rideOffer_create_Inr offer_links_def resubmit_def ro_key_def
          offer_links_update split: option.splits sum.splits dest!: rideOffer_update_Inr)
    then show "facts_kept w (submitOffer_finish secs f r w')"
      using same by (simp add: facts_kept_def link_defs submitOffer_finish_def scheduleExpiry_def
          cancelScheduledExpiry_def enqueue_def emit_def)
    show "relay_ok (submitOffer_finish secs f r w') (fold active_event [OfferSubmitted f (rr_riderId r)] m)"
      if "relay_ok w m" for m
      using that same by (simp add: relay_ok_def submitOffer_finish_def scheduleExpiry_def
          cancelScheduledExpiry_def enqueue_def emit_def)
  qed
  then show ?thesis by (auto simp: submitOffer_def split: sum.splits)
qed

lemma effect_ok_acceptOffer: "effect_ok w (snd (acceptOffer newId now u i w))"
proof -
  have "effect_ok w (acceptOffer_finish v others (new_trip newId now u v) w')"
    if commit: "acceptOffer_commit newId now u v w = Inr w'" for v others w'
  proof (rule effect_okI)
    note c = acceptOffer_commit_Inr(1) [OF commit]
    let ?t = "new_trip newId now u v"
    let ?e = "OfferAccepted ((ov_request v)\<lparr>rr_status := RideRequestStatus.MATCHED\<rparr>) ?t
         ((ov_offer v)\<lparr>ro_status := OfferStatus.ACCEPTED\<rparr>) (map (u_id \<circ> snd) others)"
    show "events (acceptOffer_finish v others ?t w') = events w @ [?e]" by (simp add: finish_world c)
    show "event_ok (acceptOffer_finish v others ?t w') e" if "e \<in> set [?e]" for e
      using that by (simp add: finish_world c trip_links_def)
    show "facts_kept w (acceptOffer_finish v others ?t w')"
      by (auto simp: facts_kept_def link_defs finish_world c accepted_offers_def links_update ro_key_def)
    show "relay_ok (acceptOffer_finish v others ?t w') (fold active_event [?e] m)" if "relay_ok w m" for m
      using that by (auto simp: relay_ok_def finish_world c new_trip_def)
  qed
  then show ?thesis by (auto simp: acceptOffer_def split: sum.splits)
qed

lemma offering_links:
  "offering w i u \<longleftrightarrow> (\<exists>k p. (k, i, p) \<in> offer_links w \<and> (p, u) \<in> profile_users w)"
  by (auto simp: offering_def offer_links_def)

lemma offering_mono:
  "offering w i u \<Longrightarrow> offer_links w \<subseteq> offer_links w' \<Longrightarrow> profile_users w \<subseteq> profile_users w' \<Longrightarrow> offering w' i u"
  unfolding offering_links by blast

lemma relay_ok_update:
  assumes "relay_ok w m" "trips w' = update_where p h (trips w)" "\<And>t. same_terms t (h t)"
    and "\<And>t. t \<in> set (trips w) \<Longrightarrow> p t \<Longrightarrow> m (t_driverId t) \<noteq> None \<Longrightarrow> t_status (h t) \<noteq> TripStatus.COMPLETED"
  shows "relay_ok w' m"
  unfolding relay_ok_def
proof (intro allI impI)
  fix d r assume d: "m d = Some r"
  then obtain t where t: "t \<in> set (trips w)" "t_driverId t = d" "t_riderId t = r" "t_status t \<noteq> TripStatus.COMPLETED"
    using assms(1) by (auto simp: relay_ok_def)
  let ?t = "if p t then h t else t"
  have "?t \<in> set (trips w')" unfolding assms(2) set_update_where using t(1) by (rule imageI)
  moreover have "t_driverId ?t = d" "t_riderId ?t = r" using t assms(3) by (simp_all add: same_terms_def)
  moreover have "t_status ?t \<noteq> TripStatus.COMPLETED" using t d assms(4) by auto
  ultimately show "\<exists>t \<in> set (trips w'). t_driverId t = d \<and> t_riderId t = r \<and> t_status t \<noteq> TripStatus.COMPLETED"
    by blast
qed

lemma effect_ok_cancelRideRequest:
  assumes inv: "ride_inv w"
  shows "effect_ok w (snd (cancelRideRequest i now u reason w))"
proof -
  have "effect_ok w (emit (RideRequestCancelled r (affectedDriverUserIds v)) w')"
    if load: "load_request i w = Inr v" and commit: "cancel_commit i now reason v w = Inr w'"
      and r: "lookup rr_id i (rideRequests w') = Some r" for v w' r
  proof (rule effect_okI)
    note c = cancel_commit_Inr [OF commit]
    let ?e = "RideRequestCancelled r (affectedDriverUserIds v)"
    have logs: "events w' = events w" "driverProfiles w' = driverProfiles w"
      using commit by (auto simp: cancel_commit_def rideOffer_updateMany_def split: sum.splits option.splits
          dest!: rideRequest_update_Inr trip_update_Inr)
    have kept: "trip_links w' = trip_links w" "offer_links w' = offer_links w" "request_riders w' = request_riders w"
      unfolding link_defs c using same_terms_cancelled_trip
      by (simp_all add: links_update ro_key_def cancelled_request_def)
    show "events (emit ?e w') = events w @ [?e]" using logs by (simp add: emit_def)
    show "facts_kept w (emit ?e w')" using kept by (simp add: facts_kept_def link_defs emit_def)
    show "event_ok (emit ?e w') e" if "e \<in> set [?e]" for e
    proof -
      have "(rr_id r, rr_riderId r) \<in> request_riders w'" and i: "rr_id r = i"
        using r by (auto simp: request_riders_def dest: lookup_SomeD)
      moreover have "offering w' i d" if d: "d \<in> set (affectedDriverUserIds v)" for d
      proof -
        obtain us where us: "load_request i w = Inr \<lparr>rv_request = rv_request v, rv_offers = us, rv_trip = trip_of w i\<rparr>"
          "map fst us = filter (\<lambda>f. ro_rideRequestId f = i) (rideOffers w)"
          "\<forall>(f, u :: User) \<in> set us. (ro_driverId f, u_id u) \<in> profile_users w"
          using load_request_ok [OF inv load_request_Inr(1) [OF load]] by blast
        then have "rv_offers v = us" using load by (metis Inr_inject RideRequestView.select_convs(2))
        with d obtain f x where fx: "(f, x) \<in> set us" "d = u_id x" by (auto simp: affectedDriverUserIds_def)
        then have "f \<in> set (map fst us)" by force
        with us fx have "offering w i d" unfolding offering_def by auto
        then show ?thesis by (rule offering_mono) (simp_all add: kept profile_users_def logs)
      qed
      ultimately show ?thesis using that
        by (simp add: request_riders_def offering_def profile_users_def emit_def)
    qed
    show "relay_ok (emit ?e w') (fold active_event [?e] m)" if "relay_ok w m" for m
      using relay_ok_update [OF that c(3) same_terms_cancelled_trip] by (simp add: relay_ok_def emit_def cancelled_trip_def)
  qed
  note emitted = this
  show ?thesis
  proof (cases "cancel_load i u w")
    case load: (Inr v)
    then have v: "load_request i w = Inr v" by (auto simp: cancel_load_def split: sum.splits if_splits)
    show ?thesis
    proof (cases "cancel_commit i now reason v w")
      case (Inr w')
      note r = cancelled_views(1) [OF inv v Inr]
      show ?thesis using emitted [OF v Inr r] load Inr r by (simp add: cancelRideRequest_def)
    qed (simp add: cancelRideRequest_def load)
  qed (simp add: cancelRideRequest_def)
qed

lemma effect_ok_trip_move:
  assumes inv: "ride_inv w" and t: "lookup t_id i (trips w) = Some t"
    and h: "\<And>x. same_terms x (h x)"
    and w': "trips w' = update_where (\<lambda>x. t_id x = i) h (trips w)" "rideOffers w' = rideOffers w"
      "request_riders w' = request_riders w" "events w' = events w @ [e]"
    and e: "e = TripStarted (h t) \<or> e = TripCompleted (h t)"
    and st: "t_status (h t) = TripStatus.COMPLETED \<longrightarrow> e = TripCompleted (h t)"
  shows "effect_ok w w'"
proof (rule effect_okI [OF _ w'(4)])
  note keys = ride_invD(1) [OF inv, unfolded keys_ok_def]
  have t_in: "t \<in> set (trips w)" "t_id t = i" using t by (auto dest: lookup_SomeD)
  have links: "trip_links w' = trip_links w" unfolding trip_links_def w'(1) by (rule trip_links_update [OF h])
  then show "facts_kept w w'" by (simp add: facts_kept_def w'(2,3) offer_links_def)
  have "h t \<in> set (trips w')" unfolding w'(1) by (rule in_update_where_changed) (use t_in in simp_all)
  then show "event_ok w' x" if "x \<in> set [e]" for x using that e by (auto simp: trip_links_def)
  show "relay_ok w' (fold active_event [e] m)" if m: "relay_ok w m" for m
  proof (rule relay_ok_update [OF _ w'(1) h])
    show "relay_ok w (fold active_event [e] m)" using m e by (auto simp: relay_ok_def split: if_splits)
    fix x assume "x \<in> set (trips w)" "t_id x = i" "fold active_event [e] m (t_driverId x) \<noteq> None"
    moreover from this have "x = t" using keys t_in by (auto dest: unique_on_eq)
    ultimately show "t_status (h x) \<noteq> TripStatus.COMPLETED"
      using st h [of t] by (auto simp: same_terms_def)
  qed
qed

lemma effect_ok_trip_result:
  assumes inv: "ride_inv w" and t: "lookup t_id i (trips w) = Some t" and h: "\<And>x. same_terms x (h x)"
    and c: "\<And>w'. c = Inr w' \<Longrightarrow> trips w' = update_where (\<lambda>x. t_id x = i) h (trips w) \<and>
      rideOffers w' = rideOffers w \<and> request_riders w' = request_riders w \<and> events w' = events w"
    and ev: "ev = TripStarted \<and> t_status (h t) \<noteq> TripStatus.COMPLETED \<or> ev = TripCompleted"
  shows "effect_ok w (snd (trip_result i ev w c))"
proof (cases c)
  case (Inr w')
  note w' = c [OF Inr]
  then have "lookup t_id i (trips w') = Some (h t)"
    using t h by (auto simp: lookup_update_where same_terms_def dest: lookup_SomeD)
  moreover have "effect_ok w (emit (ev (h t)) w')"
    by (rule effect_ok_trip_move [OF inv t h]) (use w' ev in \<open>auto simp: emit_def request_riders_def\<close>)
  ultimately show ?thesis using Inr by (simp add: trip_result_def)
qed (simp add: trip_result_def)

lemma effect_ok_trip_ops:
  assumes "ride_inv w"
  shows "effect_ok w (snd (startTrip i now u w))" "effect_ok w (snd (completeTrip i now u w))"
proof -
  have frame: "trips w' = update_where (\<lambda>x. t_id x = i) h (trips w) \<and> rideOffers w' = rideOffers w \<and>
      request_riders w' = request_riders w \<and> events w' = events w"
    if "transaction [trip_update i h, rideRequest_update j (\<lambda>r. r\<lparr>rr_status := s\<rparr>)] w = Inr w'" for h j s w'
    using that by (auto simp: request_links_update request_riders_def split: sum.splits
        dest!: trip_update_Inr rideRequest_update_Inr del: equalityI)
  show "effect_ok w (snd (startTrip i now u w))"
  proof (cases "start_load i u w")
    case (Inr t)
    then have "lookup t_id i (trips w) = Some t"
      by (auto simp: start_load_def findOwnedByDriver_Inr split: sum.splits if_splits)
    then have "effect_ok w (snd (trip_result i TripStarted w (start_commit i now t w)))"
      by (rule effect_ok_trip_result [where h = "\<lambda>t. t\<lparr>t_status := TripStatus.STARTED, t_startedAt := Some now\<rparr>",
            OF assms _ _ frame]) (simp_all add: same_terms_def start_commit_def)
    with Inr show ?thesis by (simp add: startTrip_def)
  qed (simp add: startTrip_def)
  show "effect_ok w (snd (completeTrip i now u w))"
  proof (cases "complete_load i u w")
    case (Inr t)
    then have "lookup t_id i (trips w) = Some t"
      by (auto simp: complete_load_def findOwnedByDriver_Inr split: sum.splits if_splits)
    then have "effect_ok w (snd (trip_result i TripCompleted w (complete_commit i now t w)))"
      by (rule effect_ok_trip_result [where h = "\<lambda>t. t\<lparr>t_status := TripStatus.COMPLETED, t_endedAt := Some now\<rparr>",
            OF assms _ _ frame]) (simp_all add: same_terms_def complete_commit_def)
    with Inr show ?thesis by (simp add: completeTrip_def)
  qed (simp add: completeTrip_def)
qed

lemma effect_ok_process_job:
  assumes inv: "ride_inv w"
  shows "effect_ok w (snd (process_job j w))"
proof (cases j)
  case (ExpireOffer i)
  show ?thesis
  proof (cases "lookup ro_id i (rideOffers w)")
    case (Some f)
    then have f: "f \<in> set (rideOffers w)" "ro_id f = i" by (auto dest: lookup_SomeD)
    then obtain d where d: "driver_user_of f w = Inr d" using driver_user_of_ok [OF inv] by blast
    let ?w = "w\<lparr>rideOffers := update_where (\<lambda>r. ro_id r = i) (\<lambda>f. f\<lparr>ro_status := OfferStatus.EXPIRED\<rparr>) (rideOffers w)\<rparr>"
    let ?e = "OfferExpired (ro_rideRequestId f) i (u_id d)"
    have links: "offer_links ?w = offer_links w" by (simp add: offer_links_def offer_links_update ro_key_def)
    have "(i, ro_rideRequestId f, ro_driverId f) \<in> offer_links w" using f by (force simp: offer_links_def)
    then have "event_ok (emit ?e ?w) ?e"
      using links driver_user_of_Inr [OF d] by (auto simp: offer_links_def profile_users_def emit_def)
    then have "effect_ok w (emit ?e ?w)"
      using links by (intro effect_okI [where es = "[?e]"])
        (simp_all add: facts_kept_def link_defs relay_ok_def emit_def)
    then show ?thesis using process_expiry [OF inv Some d] ExpireOffer by simp
  qed (simp add: ExpireOffer expireIfStillPending_def expireIfStillPending_load_def)
next
  case (ExpireDriverPendingOffers p)
  have "effect_ok w (w\<lparr>rideOffers := update_where q (\<lambda>f. f\<lparr>ro_status := OfferStatus.EXPIRED\<rparr>) (rideOffers w)\<rparr>)" for q
    by (rule effect_okI [where es = "[]"])
      (simp_all add: facts_kept_def link_defs relay_ok_def offer_links_update ro_key_def)
  with ExpireDriverPendingOffers show ?thesis
    by (simp add: expireAllPendingOffersForDriver_def rideOffer_updateMany_def split: option.split)
qed

lemma effect_ok_classified:
  assumes "classified env w w'" "ride_inv w"
  shows "effect_ok w w'"
  using assms(1) unfolding classified_def
proof
  assume "ride_op env w w'"
  then show ?thesis using assms(2)
    by cases (simp_all add: effect_ok_createRideRequest effect_ok_submitOffer effect_ok_acceptOffer
        effect_ok_cancelRideRequest effect_ok_trip_ops effect_ok_process_job)
qed (rule effect_ok_bystander)

end
