(* ===== verification/Live.thy ===== *)
theory Live
  imports Relay Journey
begin

section \<open>Live: the backend and its gateway together\<close>

text \<open>
  The state is the world and the gateway. A step is an operation of the API with its events delivered
  to the gateway, or a handler of the gateway run for a connected socket; a new connection has a
  socket id of its own (socket.io draws it). The gateway and the services read one configuration, so the handlers run with the expiry time of \<open>env\<close>.
\<close>

definition empty_gateway :: gateway where
  "empty_gateway =
     \<lparr>gw_sockets = [], gw_activeTripRiderByDriver = Map.empty, gw_riderTrackSubscriptions = [],
      gw_offerSubmit = Map.empty, gw_offerAccept = Map.empty, gw_locationUpdate = Map.empty,
      gw_trackSubscribe = Map.empty, gw_sent = []\<rparr>"

definition ws_config :: "api_env \<Rightarrow> ws_env \<Rightarrow> ws_env" where
  "ws_config env ws = ws\<lparr>env_expirySeconds := api_expirySeconds env\<rparr>"

inductive live_step :: "api_env \<Rightarrow> ws_env \<Rightarrow> world \<times> gateway \<Rightarrow> world \<times> gateway \<Rightarrow> bool"
  for env :: api_env and ws :: ws_env where
  operation: "api_op env f \<Longrightarrow> live_step env ws (w, g) (f w, deliver w (f w) g)"
| connect: "socket \<notin> fst ` set (gw_sockets g) \<Longrightarrow>
    live_step env ws (w, g) (w, handleConnection (ws_config env ws) socket token header g)"
| disconnect: "live_step env ws s (handleDisconnect (ws_config env ws) now socket s)"
| offer: "(socket, u) \<in> set (gw_sockets (snd s)) \<Longrightarrow>
    live_step env ws s (snd (onOfferSubmit (ws_config env ws) newId now socket u body s))"
| accept: "(socket, u) \<in> set (gw_sockets (snd s)) \<Longrightarrow>
    live_step env ws s (snd (onOfferAccept (ws_config env ws) newId now socket u offerId s))"
| location: "(socket, u) \<in> set (gw_sockets (snd s)) \<Longrightarrow>
    live_step env ws s (onLocationUpdate (ws_config env ws) now socket u place s)"
| subscribe: "(socket, u) \<in> set (gw_sockets g) \<Longrightarrow>
    live_step env ws (w, g) (w, onTrackSubscribe (ws_config env ws) now socket u area g)"
| unsubscribe: "(socket, u) \<in> set (gw_sockets g) \<Longrightarrow>
    live_step env ws (w, g) (w, onTrackUnsubscribe u g)"

subsection \<open>Who may receive what\<close>

text \<open>
  The addressees a message can have, by the database: a driver's position during a trip goes to the
  rider of a trip of that driver, an offer to the rider of its request, news of a trip to its two
  participants, a cancellation to the rider and to drivers with an offer on the request, an expiry to
  the driver of the offer, a new request to users with a driver profile.
\<close>

fun entitled :: "world \<Rightarrow> recipient \<Rightarrow> server_message \<Rightarrow> bool" where
  "entitled w c (DriverLocationRelay d lat lng) \<longleftrightarrow> (\<exists>k i r. c = ToUser r \<and> (k, i, d, r) \<in> trip_links w)"
| "entitled w c (RideOfferNew f) \<longleftrightarrow> (\<exists>r. c = ToUser r \<and> (ro_rideRequestId f, r) \<in> request_riders w)"
| "entitled w c (RideMatched r t) \<longleftrightarrow> c \<in> {ToUser (t_riderId t), ToUser (t_driverId t)} \<and>
     (t_id t, t_rideRequestId t, t_driverId t, t_riderId t) \<in> trip_links w"
| "entitled w c (TripStartedMessage t) \<longleftrightarrow> c \<in> {ToUser (t_riderId t), ToUser (t_driverId t)} \<and>
     (t_id t, t_rideRequestId t, t_driverId t, t_riderId t) \<in> trip_links w"
| "entitled w c (TripCompletedMessage t) \<longleftrightarrow> c \<in> {ToUser (t_riderId t), ToUser (t_driverId t)} \<and>
     (t_id t, t_rideRequestId t, t_driverId t, t_riderId t) \<in> trip_links w"
| "entitled w c (RideRequestCancelledMessage i) \<longleftrightarrow>
     (\<exists>u. c = ToUser u \<and> ((i, u) \<in> request_riders w \<or> offering w i u))"
| "entitled w c (RideOfferExpired i offerId) \<longleftrightarrow>
     (\<exists>u p. c = ToUser u \<and> (offerId, i, p) \<in> offer_links w \<and> (p, u) \<in> profile_users w)"
| "entitled w c (RideRequestNew i lat lng lat' lng' fare) \<longleftrightarrow> (\<exists>u. c = ToUser u \<and> u \<in> snd ` profile_users w)"
| "entitled w c _ \<longleftrightarrow> True"

lemma entitled_mono:
  assumes "entitled w c m" "facts_kept w w'" "profiles_kept w w'"
  shows "entitled w' c m"
  using assms(1)
proof (cases m)
  case (RideRequestCancelledMessage i)
  then show ?thesis using assms unfolding facts_kept_def profiles_kept_def by (auto dest: offering_mono)
next
  case (RideOfferExpired i offerId)
  then show ?thesis using assms unfolding facts_kept_def profiles_kept_def by simp blast
next
  case (DriverLocationRelay d lat lng)
  then show ?thesis using assms unfolding facts_kept_def by simp blast
qed (use assms in \<open>auto simp: facts_kept_def profiles_kept_def\<close>)

definition sent_ok :: "world \<Rightarrow> gateway \<Rightarrow> bool" where
  "sent_ok w g \<longleftrightarrow> (\<forall>(c, m) \<in> set (gw_sent g). entitled w c m)"

text \<open>Delivering an event that agrees with the database.\<close>

lemma handle_event_fields:
  "gw_activeTripRiderByDriver (handle_event e g) = active_event e (gw_activeTripRiderByDriver g)"
  "gw_sockets (handle_event e g) = gw_sockets g"
  "gw_riderTrackSubscriptions (handle_event e g) = gw_riderTrackSubscriptions g"
  by (cases e; simp add: send_to_def send_all_def split: option.split bool.split)+

lemma sent_ok_event:
  assumes "event_ok w e" "sent_ok w g"
  shows "sent_ok w (handle_event e g)"
  using assms
  by (cases e) (auto simp: sent_ok_def send_to_def send_all_def split: option.split bool.split)

subsection \<open>What every step keeps\<close>

text \<open>
  A step of the whole: at most one operation of the API, whose events reach the gateway in order, and
  messages that are errors or, after the events, a position relayed to the rider of the table.
\<close>

lemma sent_ok_fold: "list_all (event_ok w) es \<Longrightarrow> sent_ok w g \<Longrightarrow> sent_ok w (fold handle_event es g)"
  by (induction es arbitrary: g) (auto simp: sent_ok_event)

lemma fold_handle_event_fields:
  "gw_activeTripRiderByDriver (fold handle_event es g) = fold active_event es (gw_activeTripRiderByDriver g)"
  "gw_sockets (fold handle_event es g) = gw_sockets g"
  "gw_riderTrackSubscriptions (fold handle_event es g) = gw_riderTrackSubscriptions g"
  by (induction es arbitrary: g) (simp_all add: handle_event_fields)

text \<open>The table of drivers under way is the one the log of events gives.\<close>

definition in_step :: "world \<Rightarrow> gateway \<Rightarrow> bool" where
  "in_step w g \<longleftrightarrow> gw_activeTripRiderByDriver g = fold active_event (events w) Map.empty"

lemma in_step_cong: "gw_activeTripRiderByDriver g' = gw_activeTripRiderByDriver g \<Longrightarrow> in_step w g' = in_step w g"
  by (simp add: in_step_def)

lemma in_step_fields [simp]:
  "in_step w (send_to c m g) = in_step w g"
  "in_step w (g\<lparr>gw_offerSubmit := h\<rparr>) = in_step w g"
  "in_step w (g\<lparr>gw_offerAccept := h\<rparr>) = in_step w g"
  "in_step w (g\<lparr>gw_locationUpdate := h\<rparr>) = in_step w g"
  "in_step w (g\<lparr>gw_trackSubscribe := h\<rparr>) = in_step w g"
  "in_step w (g\<lparr>gw_riderTrackSubscriptions := subs\<rparr>) = in_step w g"
  "in_step w (g\<lparr>gw_sockets := ss\<rparr>) = in_step w g"
  by (rule in_step_cong, simp add: send_to_def)+

definition live_inv :: "world \<times> gateway \<Rightarrow> bool" where
  "live_inv s \<longleftrightarrow>
     world_inv (fst s) \<and> sent_ok (fst s) (snd s) \<and>
     relay_ok (fst s) (gw_activeTripRiderByDriver (snd s)) \<and>
     in_step (fst s) (snd s) \<and>
     fst ` set (gw_riderTrackSubscriptions (snd s)) \<subseteq> snd ` set (gw_sockets (snd s)) \<and>
     distinct (map fst (gw_sockets (snd s)))"

text \<open>The part that an operation and the delivery of its events keep.\<close>

lemma live_inv_operation:
  assumes "live_inv (w, g)" "api_op env f"
  shows "live_inv (f w, deliver w (f w) g)"
proof -
  from assms(1) have inv: "world_inv w" and sent: "sent_ok w g"
    and relay: "relay_ok w (gw_activeTripRiderByDriver g)"
      "in_step w g"
    and subs: "fst ` set (gw_riderTrackSubscriptions g) \<subseteq> snd ` set (gw_sockets g)"
      "distinct (map fst (gw_sockets g))"
    by (simp_all add: live_inv_def)
  have "effect_ok w (f w)"
    by (rule effect_ok_classified [OF api_op_classified [OF assms(2)] world_invD(1) [OF inv]])
  then obtain es where es: "facts_kept w (f w)" "events (f w) = events w @ es" "list_all (event_ok (f w)) es"
    "relay_ok (f w) (fold active_event es (gw_activeTripRiderByDriver g))"
    using relay(1) by (auto simp: effect_ok_def)
  have "sent_ok (f w) g"
    using sent entitled_mono [OF _ es(1) api_op_profiles_kept [OF assms(2)]] by (auto simp: sent_ok_def)
  then have "sent_ok (f w) (deliver w (f w) g)" using es(2,3) by (simp add: deliver_def sent_ok_fold)
  then show ?thesis using api_op_world_inv [OF assms(2) inv] es(2,4) subs relay(2)
    by (simp add: live_inv_def in_step_def deliver_def fold_handle_event_fields)
qed

lemma live_inv_service:
  assumes "live_inv (w, g)" "api_op env (\<lambda>w. snd (run w))" "run w = (r, w')"
  shows "live_inv (w', deliver w w' g)"
  using live_inv_operation [OF assms(1,2)] assms(3) by simp

lemma send_to_fields [simp]:
  "gw_activeTripRiderByDriver (send_to c m g) = gw_activeTripRiderByDriver g"
  "gw_sockets (send_to c m g) = gw_sockets g"
  "gw_riderTrackSubscriptions (send_to c m g) = gw_riderTrackSubscriptions g"
  "gw_sent (send_to c m g) = gw_sent g @ [(c, m)]"
  by (simp_all add: send_to_def)

lemma live_inv_error: "live_inv (w, g) \<Longrightarrow> live_inv (w, send_to c (WsError msg) g)"
  by (simp add: live_inv_def sent_ok_def)

lemma live_inv_limiters:
  "live_inv (w, g\<lparr>gw_offerSubmit := h\<rparr>) = live_inv (w, g)"
  "live_inv (w, g\<lparr>gw_offerAccept := h\<rparr>) = live_inv (w, g)"
  "live_inv (w, g\<lparr>gw_locationUpdate := h\<rparr>) = live_inv (w, g)"
  "live_inv (w, g\<lparr>gw_trackSubscribe := h\<rparr>) = live_inv (w, g)"
  by (simp_all add: live_inv_def sent_ok_def)

text \<open>The handlers.\<close>

lemma live_inv_offer:
  assumes "live_inv (w, g)"
  shows "live_inv (snd (onOfferSubmit (ws_config env ws) newId now socket u body (w, g)))"
proof (cases "valid_SubmitOfferPayload (ws_config env ws) body")
  case True
  obtain ok h where h: "consume 5 5000 now u (gw_offerSubmit g) = (ok, h)" by fastforce
  obtain r w' where run: "submitOffer (api_expirySeconds env) newId now u (sop_rideRequestId body) (sop_offeredFare body) w
    = (r, w')" by fastforce
  have "live_inv (w', deliver w w' (g\<lparr>gw_offerSubmit := h\<rparr>))"
    by (rule live_inv_service [OF _ api_op.submit_offer run])
      (use True in \<open>simp_all add: assms live_inv_limiters valid_SubmitOfferPayload_def\<close>)
  with assms True h run show ?thesis
    by (cases ok; cases r)
      (simp_all add: onOfferSubmit_def ws_config_def live_inv_error live_inv_limiters Let_def)
qed (use assms in \<open>simp add: onOfferSubmit_def\<close>)

lemma live_inv_accept:
  assumes "live_inv (w, g)"
  shows "live_inv (snd (onOfferAccept (ws_config env ws) newId now socket u offerId (w, g)))"
proof (cases "valid_AcceptOfferPayload (ws_config env ws) offerId")
  case True
  obtain ok h where h: "consume 5 5000 now u (gw_offerAccept g) = (ok, h)" by fastforce
  obtain r w' where run: "acceptOffer newId now u offerId w = (r, w')" by fastforce
  have "live_inv (w', deliver w w' (g\<lparr>gw_offerAccept := h\<rparr>))"
    by (rule live_inv_service [OF _ api_op.accept_offer run]) (simp add: assms live_inv_limiters)
  with assms True h run show ?thesis
    by (cases ok; cases r) (simp_all add: onOfferAccept_def live_inv_error live_inv_limiters Let_def)
qed (use assms in \<open>simp add: onOfferAccept_def\<close>)

lemma live_inv_relay:
  assumes "live_inv (w, g)"
  shows "live_inv (w, relay_location u lat lng g)"
proof (cases "gw_activeTripRiderByDriver g u")
  case (Some r)
  with assms obtain t where "t \<in> set (trips w)" "t_driverId t = u" "t_riderId t = r"
    by (auto simp: live_inv_def relay_ok_def)
  then have "(t_id t, t_rideRequestId t, u, r) \<in> trip_links w" by (auto simp: trip_links_def)
  then have "entitled w (ToUser r) (DriverLocationRelay u lat lng)" by auto
  with Some show ?thesis using assms by (simp add: relay_location_def live_inv_def sent_ok_def)
qed (use assms in \<open>simp add: relay_location_def\<close>)

lemma live_inv_location:
  assumes "live_inv (w, g)"
  shows "live_inv (onLocationUpdate (ws_config env ws) now socket u place (w, g))"
proof (cases "valid_LocationUpdatePayload place")
  case True
  obtain ok h where h: "consume 3 1000 now u (gw_locationUpdate g) = (ok, h)" by fastforce
  obtain r w' where run: "updateLocation now u (lup_lat place) (lup_lng place) w = (r, w')" by fastforce
  have "live_inv (w', deliver w w' (g\<lparr>gw_locationUpdate := h\<rparr>))"
    by (rule live_inv_service [OF _ api_op.ws_location run])
      (use True in \<open>simp_all add: assms live_inv_limiters valid_LocationUpdatePayload_def\<close>)
  with assms True h run show ?thesis
    by (cases ok; cases r)
      (simp_all add: onLocationUpdate_def live_inv_error live_inv_limiters live_inv_relay Let_def)
qed (use assms in \<open>simp add: onLocationUpdate_def\<close>)

lemma live_inv_disconnect:
  assumes "live_inv (w, g)"
  shows "live_inv (handleDisconnect (ws_config env ws) now socket (w, g))"
proof (cases "map_of (gw_sockets g) socket")
  case None
  then have "filter (\<lambda>(s, u). s \<noteq> socket) (gw_sockets g) = gw_sockets g"
    by (auto simp: map_of_eq_None_iff filter_id_conv rev_image_eqI)
  with assms None show ?thesis by (simp add: handleDisconnect_def Let_def)
next
  case (Some u)
  let ?g = "g\<lparr>gw_sockets := filter (\<lambda>(s, u). s \<noteq> socket) (gw_sockets g),
    gw_offerSubmit := clear u (gw_offerSubmit g), gw_offerAccept := clear u (gw_offerAccept g),
    gw_locationUpdate := clear u (gw_locationUpdate g), gw_trackSubscribe := clear u (gw_trackSubscribe g),
    gw_riderTrackSubscriptions := AList.delete u (gw_riderTrackSubscriptions g)\<rparr>"
  from assms have d: "distinct (map fst (gw_sockets g))"
    and subs: "fst ` set (gw_riderTrackSubscriptions g) \<subseteq> snd ` set (gw_sockets g)" by (simp_all add: live_inv_def)
  have "fst ` set (gw_riderTrackSubscriptions ?g) \<subseteq> snd ` set (gw_sockets ?g)"
  proof
    fix x assume "x \<in> fst ` set (gw_riderTrackSubscriptions ?g)"
    then have "x \<noteq> u" "x \<in> fst ` set (gw_riderTrackSubscriptions g)"
      by (auto simp: AList.delete_eq)
    then obtain s where "(s, x) \<in> set (gw_sockets g)" using subs by auto
    moreover from this \<open>x \<noteq> u\<close> Some have "s \<noteq> socket" using map_of_is_SomeI [OF d] by fastforce
    ultimately show "x \<in> snd ` set (gw_sockets ?g)" by force
  qed
  then have g: "live_inv (w, ?g)"
    using assms by (simp add: live_inv_def sent_ok_def distinct_map_filter)
  obtain r w' where run: "goOffline (api_expirySeconds env) now u w = (r, w')" by fastforce
  have "live_inv (w', deliver w w' ?g)"
    by (rule live_inv_service [OF g api_op.ws_disconnect run])
  with g run Some show ?thesis by (simp add: handleDisconnect_def Let_def ws_config_def)
qed

lemma live_inv_connect:
  assumes "live_inv (w, g)" "socket \<notin> fst ` set (gw_sockets g)"
  shows "live_inv (w, handleConnection (ws_config env ws) socket token header g)"
  using assms
  by (auto simp: handleConnection_def live_inv_error split: option.split)
    (auto simp: live_inv_def sent_ok_def)

lemma live_inv_subscribed:
  assumes "live_inv (w, g)" "fst ` set subs \<subseteq> snd ` set (gw_sockets g)"
  shows "live_inv (w, g\<lparr>gw_riderTrackSubscriptions := subs\<rparr>)"
  using assms by (simp add: live_inv_def sent_ok_def)

lemma live_inv_subscriptions:
  assumes inv: "live_inv (w, g)" and u: "(socket, u) \<in> set (gw_sockets g)"
  shows "live_inv (w, onTrackSubscribe (ws_config env ws) now socket u area g)"
    and "live_inv (w, onTrackUnsubscribe u g)"
proof -
  have subs: "fst ` set (gw_riderTrackSubscriptions g) \<subseteq> snd ` set (gw_sockets g)"
    using inv by (simp add: live_inv_def)
  have "fst ` set (AList.update u x ys) \<subseteq> insert u (fst ` set ys)" for x :: TrackSubscription and ys
    by (induction ys) auto
  moreover have "u \<in> snd ` set (gw_sockets g)" using u by force
  ultimately have "fst ` set (AList.update u x (gw_riderTrackSubscriptions g)) \<subseteq> snd ` set (gw_sockets g)" for x
    using subs by (meson insert_subset subset_trans)
  then have upd: "live_inv (w, g\<lparr>gw_trackSubscribe := h,
      gw_riderTrackSubscriptions := AList.update u x (gw_riderTrackSubscriptions g)\<rparr>)" for h x
    by (intro live_inv_subscribed) (simp_all add: live_inv_limiters inv)
  obtain ok h where h: "consume 5 5000 now u (gw_trackSubscribe g) = (ok, h)" by fastforce
  show "live_inv (w, onTrackSubscribe (ws_config env ws) now socket u area g)"
    using inv upd h by (cases ok) (simp_all add: onTrackSubscribe_def Let_def live_inv_error live_inv_limiters)
  have "fst ` set (AList.delete u (gw_riderTrackSubscriptions g)) \<subseteq> snd ` set (gw_sockets g)"
    using subs by (auto simp: AList.delete_eq)
  then show "live_inv (w, onTrackUnsubscribe u g)"
    unfolding onTrackUnsubscribe_def by (rule live_inv_subscribed [OF inv])
qed

lemma live_inv_step:
  assumes "live_step env ws s s'" "live_inv s"
  shows "live_inv s'"
  using assms
proof cases
  case operation
  with assms(2) show ?thesis by (simp add: live_inv_operation)
qed (use assms(2) in \<open>cases s; simp add: live_inv_offer live_inv_accept live_inv_location live_inv_disconnect
    live_inv_connect live_inv_subscriptions\<close>)+

interpretation live: invariant_system "\<lambda>s. s = (empty_world, empty_gateway)" "live_step env ws" live_inv for env ws
proof
  fix s assume "s = (empty_world, empty_gateway)"
  then show "live_inv s"
    by (simp add: live_inv_def world_inv_empty) (simp add: sent_ok_def relay_ok_def in_step_def empty_gateway_def empty_world_def)
qed (rule live_inv_step)

text \<open>The gateway runs the services and nothing else on the world.\<close>

lemma live_step_world:
  assumes "live_step env ws s s'"
  shows "fst s' = fst s \<or> system_step env (fst s) (fst s')"
proof -
  have op: "w' = w \<or> system_step env w w'" if "api_op env (\<lambda>w. snd (run w))" "run w = (r, w')" for run r w w'
    using that unfolding system_step_def by (metis snd_conv)
  from assms show ?thesis
  proof cases
    case (operation f w g)
    then show ?thesis by (auto simp: system_step_def)
  next
    case (disconnect now socket)
    show ?thesis
      using op [OF api_op.ws_disconnect] unfolding disconnect(1) handleDisconnect_def ws_config_def
      by (cases s) (auto simp: Let_def split: option.splits prod.splits if_splits)
  next
    case (offer socket u newId now body)
    show ?thesis
      unfolding offer(1) valid_SubmitOfferPayload_def onOfferSubmit_def ws_config_def
      by (cases s) (auto simp: Let_def split: option.splits prod.splits if_splits sum.splits bool.splits
          dest: op [OF api_op.submit_offer, rotated])
  next
    case (accept socket u newId now offerId)
    show ?thesis
      using op [OF api_op.accept_offer] unfolding accept(1) onOfferAccept_def
      by (cases s) (auto simp: Let_def split: option.splits prod.splits if_splits sum.splits bool.splits)
  next
    case (location socket u now place)
    show ?thesis
      unfolding location(1) valid_LocationUpdatePayload_def onLocationUpdate_def
      by (cases s) (auto simp: Let_def split: option.splits prod.splits if_splits sum.splits bool.splits
          dest: op [OF api_op.ws_location, rotated 2])
  qed simp_all
qed

lemma live_run_world:
  assumes "(live_step env ws)\<^sup>*\<^sup>* s s'"
  shows "(system_step env)\<^sup>*\<^sup>* (fst s) (fst s')"
  using assms
proof (induction rule: rtranclp_induct)
  case (step s' s'')
  then show ?case using live_step_world [OF step(2)] by (metis rtranclp.rtrancl_into_rtrancl)
qed simp

end
