(* ===== verification/GatewaySpecs.thy ===== *)
theory GatewaySpecs
  imports Live
begin

section \<open>Gateway specifications: who hears what\<close>

text \<open>
  The properties of the WebSocket gateway over runs of the whole backend, its limits, and what a
  position update reaches. The witnesses apply them to a run in which a matched driver connects and
  reports a position.
\<close>

subsection \<open>A run\<close>

definition sample_ws :: ws_env where
  "sample_ws =
     \<lparr>env_verify = Some, env_isUUID = (\<lambda>s. True), env_message = (\<lambda>e. ''Error''),
      env_expirySeconds = 300, env_matchRadiusKm = 5\<rparr>"

definition live_ops :: "(world \<Rightarrow> world) list \<Rightarrow> world \<times> gateway \<Rightarrow> world \<times> gateway" where
  "live_ops fs s = fold (\<lambda>f (w, g). (f w, deliver w (f w) g)) fs s"

definition matched_live :: "world \<times> gateway" where
  "matched_live = live_ops (sample_people @ sample_onboarding @ take 3 sample_ride) (empty_world, empty_gateway)"

definition connected_live :: "world \<times> gateway" where
  "connected_live =
     (fst matched_live, handleConnection (ws_config sample_env sample_ws) ''s1'' (Some ''d'') None (snd matched_live))"

definition relaying_live :: "world \<times> gateway" where
  "relaying_live = onLocationUpdate (ws_config sample_env sample_ws) 20 ''s1'' ''d'' \<lparr>lup_lat = 6, lup_lng = 4\<rparr> connected_live"

lemma live_ops_steps:
  "(\<And>f. f \<in> set fs \<Longrightarrow> api_op env f) \<Longrightarrow> (live_step env ws)\<^sup>*\<^sup>* s (live_ops fs s)"
proof (induction fs arbitrary: s)
  case (Cons f fs)
  obtain w g where s: "s = (w, g)" by fastforce
  have "live_step env ws s (f w, deliver w (f w) g)" unfolding s by (rule live_step.operation) (use Cons in simp)
  also have "(live_step env ws)\<^sup>*\<^sup>* (f w, deliver w (f w) g) (live_ops (f # fs) s)"
    using Cons by (simp add: live_ops_def s)
  finally show ?case .
qed (simp add: live_ops_def)

lemma live_matched: "(live_step sample_env sample_ws)\<^sup>*\<^sup>* (empty_world, empty_gateway) matched_live"
  unfolding matched_live_def sample_people_def sample_onboarding_def sample_ride_def
  by (rule live_ops_steps) (auto intro: api_op.intros)

text \<open>
  The gateway's part of these states comes from the log of events: distances need real analysis and
  are not evaluated.
\<close>

lemma handle_event_locationUpdate: "gw_locationUpdate (handle_event e g) = gw_locationUpdate g"
  by (cases e) (simp_all add: send_to_def send_all_def split: option.split bool.split)

lemma live_ops_fields:
  "fst (live_ops fs s) = run_ops fs (fst s)" "gw_sockets (snd (live_ops fs s)) = gw_sockets (snd s)"
  "gw_locationUpdate (snd (live_ops fs s)) = gw_locationUpdate (snd s)"
proof -
  have "gw_locationUpdate (fold handle_event es g) = gw_locationUpdate g" for es g
    by (induction es arbitrary: g) (simp_all add: handle_event_locationUpdate)
  then have "fst (live_ops fs s) = run_ops fs (fst s) \<and> gw_sockets (snd (live_ops fs s)) = gw_sockets (snd s) \<and>
      gw_locationUpdate (snd (live_ops fs s)) = gw_locationUpdate (snd s)"
    by (induction fs arbitrary: s) (auto simp: live_ops_def run_ops_def deliver_def fold_handle_event_fields)
  then show "fst (live_ops fs s) = run_ops fs (fst s)" "gw_sockets (snd (live_ops fs s)) = gw_sockets (snd s)"
    "gw_locationUpdate (snd (live_ops fs s)) = gw_locationUpdate (snd s)" by simp_all
qed

lemma connected_sockets: "gw_sockets (snd connected_live) = [(''s1'', ''d'')]" "gw_sockets (snd matched_live) = []"
  by (simp_all add: connected_live_def matched_live_def handleConnection_def extractToken_def ws_config_def
      sample_ws_def live_ops_fields empty_gateway_def)

lemma live_connected: "(live_step sample_env sample_ws)\<^sup>*\<^sup>* (empty_world, empty_gateway) connected_live"
proof -
  have "live_step sample_env sample_ws (fst matched_live, snd matched_live) connected_live"
    unfolding connected_live_def by (rule live_step.connect) (simp add: connected_sockets)
  then show ?thesis using live_matched by (simp add: rtranclp.rtrancl_into_rtrancl)
qed

lemma live_relaying: "(live_step sample_env sample_ws)\<^sup>*\<^sup>* (empty_world, empty_gateway) relaying_live"
proof -
  have "live_step sample_env sample_ws connected_live relaying_live"
    unfolding relaying_live_def by (rule live_step.location) (simp add: connected_sockets)
  then show ?thesis using live_connected by (simp add: rtranclp.rtrancl_into_rtrancl)
qed

lemma relaying_active: "gw_activeTripRiderByDriver (snd connected_live) ''d'' = Some ''r''"
proof -
  have "in_step (fst matched_live) (snd matched_live)"
    using live.reachable_inv [OF refl live_matched] by (simp add: live_inv_def)
  moreover have "fold active_event (events (run_ops (sample_people @ sample_onboarding @ take 3 sample_ride) empty_world))
      Map.empty ''d'' = Some ''r''" by code_simp
  ultimately show ?thesis
    by (simp add: in_step_def matched_live_def live_ops_fields connected_live_def handleConnection_def
        ws_config_def sample_ws_def extractToken_def)
qed

text \<open>A position the gateway takes: its events, then the rider of the table.\<close>

lemma onLocationUpdate_ok:
  assumes "valid_LocationUpdatePayload p" "consume 3 1000 now u (gw_locationUpdate g) = (True, h)"
    and "updateLocation now u (lup_lat p) (lup_lng p) w = (Inr x, w')"
  shows "onLocationUpdate ws now socket u p (w, g)
    = (w', relay_location u (lup_lat p) (lup_lng p) (deliver w w' (g\<lparr>gw_locationUpdate := h\<rparr>)))"
  using assms by (simp add: onLocationUpdate_def Let_def)

lemma relay_sent:
  "gw_sent (relay_location u lat lng g) = gw_sent g @
     (case gw_activeTripRiderByDriver g u of None \<Rightarrow> [] | Some r \<Rightarrow> [(ToUser r, DriverLocationRelay u lat lng)])"
  by (simp add: relay_location_def split: option.split)


subsection \<open>Messages\<close>



text \<open>
  Positions are shared during a trip only. Whenever the gateway's table relays a driver's
  positions to a rider, the database has a trip of that driver for that rider that is not completed.
\<close>

lemma positions_shared_during_trips:
  assumes "(live_step env ws)\<^sup>*\<^sup>* (empty_world, empty_gateway) (w, g)"
    and "gw_activeTripRiderByDriver g d = Some r"
  shows "\<exists>t \<in> set (trips w). t_driverId t = d \<and> t_riderId t = r \<and> t_status t \<noteq> TripStatus.COMPLETED"
  using live.reachable_inv [OF refl assms(1)] assms(2) by (auto simp: live_inv_def relay_ok_def)

lemma positions_shared_during_trips_witness:
  "\<exists>t \<in> set (trips (fst connected_live)). t_driverId t = ''d'' \<and> t_riderId t = ''r'' \<and>
     t_status t \<noteq> TripStatus.COMPLETED"
  using positions_shared_during_trips [OF _ relaying_active, of sample_env sample_ws "fst connected_live"] live_connected
  by simp

text \<open>
  The gateway adds nothing to the services. Every run of the whole backend, whatever its clients
  send over their sockets, is on the database a run of the operations of the API, and the table of
  drivers under way is the one its log of events gives.
\<close>

lemma gateway_refines_the_services:
  assumes "(live_step env ws)\<^sup>*\<^sup>* (empty_world, empty_gateway) (w, g)"
  shows "(system_step env)\<^sup>*\<^sup>* empty_world w \<and>
    gw_activeTripRiderByDriver g = fold active_event (events w) Map.empty"
  using live_run_world [OF assms] live.reachable_inv [OF refl assms] by (auto simp: live_inv_def in_step_def)

lemma gateway_refines_the_services_witness:
  "(system_step sample_env)\<^sup>*\<^sup>* empty_world (fst relaying_live)"
  using gateway_refines_the_services [of sample_env sample_ws "fst relaying_live" "snd relaying_live"] live_relaying
  by simp

subsection \<open>Positions\<close>

lemma updateLocation_event:
  assumes "updateLocation now u lat lng w = (Inr x, w')"
  shows "events w' = events w @ [DriverLocationUpdated u lat lng]"
  using assms
  by (auto simp: updateLocation_def emit_def split: prod.splits sum.splits option.splits
      dest!: findIdentity_world update_profile_writes)

text \<open>
  C39: what a position does. A position the limiter admits and the drivers service accepts reaches
  exactly the subscribers whose circle it lies in, in the order they subscribed, and then the rider
  of the driver's current trip, if there is one; the gateway's tables stay as they were. A position
  over the limit is dropped without a message and writes nothing.
\<close>

theorem position_reaches_subscribers_and_rider:
  assumes "valid_LocationUpdatePayload p"
  shows "(\<forall>h. consume 3 1000 now u (gw_locationUpdate g) = (False, h) \<longrightarrow>
      onLocationUpdate ws now socket u p (w, g) = (w, g\<lparr>gw_locationUpdate := h\<rparr>)) \<and>
    (\<forall>h x w'. consume 3 1000 now u (gw_locationUpdate g) = (True, h) \<longrightarrow>
      updateLocation now u (lup_lat p) (lup_lng p) w = (Inr x, w') \<longrightarrow>
      (\<exists>g'. onLocationUpdate ws now socket u p (w, g) = (w', g') \<and>
        gw_sent g' = gw_sent g
          @ map (\<lambda>(rider, area). (ToUser rider, DriverLocationPin u (lup_lat p) (lup_lng p)))
              (filter (\<lambda>(rider, area). haversineMeters (ts_lat area) (ts_lng area) (lup_lat p) (lup_lng p)
                 \<le> ts_radiusMeters area) (gw_riderTrackSubscriptions g))
          @ (case gw_activeTripRiderByDriver g u of
               None \<Rightarrow> [] | Some r \<Rightarrow> [(ToUser r, DriverLocationRelay u (lup_lat p) (lup_lng p))]) \<and>
        gw_activeTripRiderByDriver g' = gw_activeTripRiderByDriver g \<and>
        gw_riderTrackSubscriptions g' = gw_riderTrackSubscriptions g \<and> gw_sockets g' = gw_sockets g))"
proof (intro conjI allI impI)
  fix h assume "consume 3 1000 now u (gw_locationUpdate g) = (False, h)"
  then show "onLocationUpdate ws now socket u p (w, g) = (w, g\<lparr>gw_locationUpdate := h\<rparr>)"
    using assms by (simp add: onLocationUpdate_def)
next
  fix h x w' assume run: "consume 3 1000 now u (gw_locationUpdate g) = (True, h)"
    "updateLocation now u (lup_lat p) (lup_lng p) w = (Inr x, w')"
  let ?g = "handle_event (DriverLocationUpdated u (lup_lat p) (lup_lng p)) (g\<lparr>gw_locationUpdate := h\<rparr>)"
  have "deliver w w' (g\<lparr>gw_locationUpdate := h\<rparr>) = ?g"
    using updateLocation_event [OF run(2)] by (simp add: deliver_def)
  note ok = onLocationUpdate_ok [OF assms run, of ws socket, unfolded this]
  show "\<exists>g'. onLocationUpdate ws now socket u p (w, g) = (w', g') \<and>
        gw_sent g' = gw_sent g
          @ map (\<lambda>(rider, area). (ToUser rider, DriverLocationPin u (lup_lat p) (lup_lng p)))
              (filter (\<lambda>(rider, area). haversineMeters (ts_lat area) (ts_lng area) (lup_lat p) (lup_lng p)
                 \<le> ts_radiusMeters area) (gw_riderTrackSubscriptions g))
          @ (case gw_activeTripRiderByDriver g u of
               None \<Rightarrow> [] | Some r \<Rightarrow> [(ToUser r, DriverLocationRelay u (lup_lat p) (lup_lng p))]) \<and>
        gw_activeTripRiderByDriver g' = gw_activeTripRiderByDriver g \<and>
        gw_riderTrackSubscriptions g' = gw_riderTrackSubscriptions g \<and> gw_sockets g' = gw_sockets g"
    by (intro exI conjI, rule ok)
      (simp_all add: relay_sent send_all_def subscribers_near_def comp_def case_prod_beta relay_location_def
        split: option.split)
qed

lemma position_reaches_subscribers_and_rider_witness:
  "onLocationUpdate sample_ws 20 ''s1'' ''d'' \<lparr>lup_lat = 6, lup_lng = 4\<rparr>
     (empty_world, empty_gateway\<lparr>gw_locationUpdate := [''d'' \<mapsto> [18, 19, 19]]\<rparr>)
   = (empty_world, empty_gateway\<lparr>gw_locationUpdate := [''d'' \<mapsto> [18, 19, 19]]\<rparr>)"
proof -
  let ?g = "empty_gateway\<lparr>gw_locationUpdate := [''d'' \<mapsto> [18, 19, 19]]\<rparr>"
  have "consume 3 1000 20 ''d'' (gw_locationUpdate ?g) = (False, [''d'' \<mapsto> [18, 19, 19]])"
    by (simp add: consume_def window_of_def)
  with position_reaches_subscribers_and_rider [of "\<lparr>lup_lat = 6, lup_lng = 4\<rparr>" 20 "''d''" ?g] show ?thesis
    by (simp add: valid_LocationUpdatePayload_def isLatitude_def isLongitude_def)
qed

text \<open>
  A cancelled ride keeps sharing the driver's position. After a matched ride is cancelled its trip
  is CANCELLED, but the gateway's table still has the driver under way, so the next position of the
  driver is still sent to the rider.
\<close>

lemma cancelled_ride_is_still_relayed:
  assumes "ride_inv w" "status_of w i = Some RideRequestStatus.MATCHED" "trip_of w i = Some t"
    and "gw_activeTripRiderByDriver g (t_driverId t) = Some (t_riderId t)"
    and "cancelRideRequest i now u reason w = (Inr res, w')"
  shows "map_option t_status (trip_of w' i) = Some TripStatus.CANCELLED \<and>
    (ToUser (t_riderId t), DriverLocationRelay (t_driverId t) lat lng)
      \<in> set (gw_sent (relay_location (t_driverId t) lat lng (deliver w w' g)))"
proof -
  obtain r where r: "lookup rr_id i (rideRequests w) = Some r" "rr_status r = RideRequestStatus.MATCHED"
    using assms(2) by (auto simp: status_of_def)
  obtain us where w': "trip_of w' = (trip_of w)(i := map_option (cancelled_trip reason) (trip_of w i))"
    "events w' = events w @ [RideRequestCancelled (cancelled_request now reason r) us]"
    using cancel_result [OF assms(1) r(1), of u now reason] assms(5) r(2) by (auto split: if_splits)
  have "gw_activeTripRiderByDriver (deliver w w' g) (t_driverId t) = Some (t_riderId t)"
    by (simp add: deliver_def fold_handle_event_fields w'(2) assms(4) send_all_def)
  then show ?thesis using w'(1) assms(3) by (simp add: relay_sent cancelled_trip_def)
qed

lemma cancelled_ride_is_still_relayed_witness:
  "\<exists>res w'. cancelRideRequest ''q'' 5 ''r'' None matched_world = (Inr res, w') \<and>
     (ToUser ''r'', DriverLocationRelay ''d'' 6 4) \<in> set (gw_sent (relay_location ''d'' 6 4
        (deliver matched_world w' (empty_gateway\<lparr>gw_activeTripRiderByDriver := [''d'' \<mapsto> ''r'']\<rparr>))))"
proof -
  have st: "status_of matched_world ''q'' = Some RideRequestStatus.MATCHED"
    by (simp add: status_of_def matched_rows sample_request_def)
  have "map_option (\<lambda>t. (t_driverId t, t_riderId t)) (trip_of matched_world ''q'') = Some (''d'', ''r'')"
    by code_simp
  then obtain t where t: "trip_of matched_world ''q'' = Some t" "t_driverId t = ''d''" "t_riderId t = ''r''" by auto
  have "lookup rr_id ''q'' (rideRequests matched_world)
      = Some (sample_request\<lparr>rr_status := RideRequestStatus.MATCHED\<rparr>)"
    by (simp add: matched_rows sample_request_def)
  from cancel_result [OF ride_inv_scenario(1) this, of "''r''" 5 None]
  obtain res w' where run: "cancelRideRequest ''q'' 5 ''r'' None matched_world = (Inr res, w')"
    by (auto simp: sample_request_def)
  have "gw_activeTripRiderByDriver (empty_gateway\<lparr>gw_activeTripRiderByDriver := [''d'' \<mapsto> ''r'']\<rparr>)
      (t_driverId t) = Some (t_riderId t)" by (simp add: t)
  from cancelled_ride_is_still_relayed [OF ride_inv_scenario(1) st t(1) this run] run show ?thesis
    unfolding t by blast
qed

subsection \<open>Connections\<close>

text \<open>
  The subscriptions of the live map are of connected users, and no socket is listed twice: what the
  gateway keeps in memory for a user goes when they leave.
\<close>

lemma subscribers_are_connected:
  assumes "(live_step env ws)\<^sup>*\<^sup>* (empty_world, empty_gateway) (w, g)"
  shows "fst ` set (gw_riderTrackSubscriptions g) \<subseteq> snd ` set (gw_sockets g) \<and>
    distinct (map fst (gw_sockets g))"
  using live.reachable_inv [OF refl assms] by (simp add: live_inv_def)

text \<open>
  The limits are per user and any disconnect resets them. When one of a user's sockets
  disconnects while another stays connected, the database is untouched and the user stays online,
  but their limiters are empty again and their live-map subscription is gone.
\<close>

lemma any_disconnect_resets_limits:
  assumes "map_of (gw_sockets g) socket = Some u" "(other, u) \<in> set (gw_sockets g)" "other \<noteq> socket"
    and "0 < limit"
  shows "\<exists>g'. handleDisconnect ws now socket (w, g) = (w, g') \<and> (other, u) \<in> set (gw_sockets g') \<and>
    map_of (gw_riderTrackSubscriptions g') u = None \<and>
    fst (consume limit windowMs now u (gw_offerSubmit g')) \<and>
    fst (consume limit windowMs now u (gw_offerAccept g')) \<and>
    fst (consume limit windowMs now u (gw_locationUpdate g')) \<and>
    fst (consume limit windowMs now u (gw_trackSubscribe g'))"
proof -
  have "u \<in> snd ` set (filter (\<lambda>(s, u). s \<noteq> socket) (gw_sockets g))" using assms(2,3) by force
  with assms show ?thesis
    by (auto simp: handleDisconnect_def Let_def consume_def window_of_def clear_def AList.delete_eq
        map_of_eq_None_iff)
qed

lemma any_disconnect_resets_limits_witness:
  "\<exists>g'. handleDisconnect sample_ws 20 ''s1'' (empty_world, empty_gateway
       \<lparr>gw_sockets := [(''s1'', ''d''), (''s2'', ''d'')], gw_offerSubmit := [''d'' \<mapsto> [19, 19, 19, 19, 19]]\<rparr>)
       = (empty_world, g') \<and>
     fst (consume 5 5000 20 ''d'' (gw_offerSubmit g'))"
  using any_disconnect_resets_limits [of "empty_gateway\<lparr>gw_sockets := [(''s1'', ''d''), (''s2'', ''d'')],
      gw_offerSubmit := [''d'' \<mapsto> [19, 19, 19, 19, 19]]\<rparr>" "''s1''" "''d''" "''s2''" 5 sample_ws 20 empty_world 5000]
  by auto

end
