(* ===== verification/Scheduling.thy ===== *)
theory Scheduling
  imports Logs RideSpecs Journey
begin

section \<open>Scheduling: every pending offer has its expiry job\<close>

text \<open>
  The jobs the queue holds for the services, from the log of their commands: BullMQ ignores an added
  job whose id it already has, and a removed job is gone. The job of an offer is under its own id,
  and no disconnect job has such an id.
\<close>

fun queue_command_step :: "queue_command \<Rightarrow> (string \<rightharpoonup> OfferExpiryJob \<times> real) \<Rightarrow> (string \<rightharpoonup> OfferExpiryJob \<times> real)" where
  "queue_command_step (AddJob k j delay attempts backoff) m = (if m k = None then m(k \<mapsto> (j, delay)) else m)"
| "queue_command_step (RemoveJob k) m = m(k := None)"

definition waiting :: "queue_command list \<Rightarrow> (string \<rightharpoonup> OfferExpiryJob \<times> real)" where
  "waiting cs = fold queue_command_step cs Map.empty"

lemma waiting_append: "waiting (cs @ ds) = fold queue_command_step ds (waiting cs)"
  by (simp add: waiting_def)

lemma job_ids [simp]:
  "offer_job_id i = offer_job_id j \<longleftrightarrow> i = j" "offer_job_id i \<noteq> disconnect_job_id p"
  by (simp_all add: offer_job_id_def disconnect_job_id_def)

lemma waiting_disconnect:
  assumes "list_all disconnect_job qs"
  shows "waiting (cs @ qs) (offer_job_id i) = waiting cs (offer_job_id i)"
proof -
  have "fold queue_command_step qs m (offer_job_id i) = m (offer_job_id i)" for m
    using assms
  proof (induction qs arbitrary: m)
    case (Cons c qs)
    then show ?case by (cases c rule: disconnect_job.cases) auto
  qed simp
  then show ?thesis by (simp add: waiting_append)
qed

lemma waiting_removed:
  "j \<notin> set is \<Longrightarrow> waiting (cs @ map (RemoveJob \<circ> offer_job_id) is) (offer_job_id j) = waiting cs (offer_job_id j)"
proof -
  assume "j \<notin> set is"
  then have "fold queue_command_step (map (RemoveJob \<circ> offer_job_id) is) m (offer_job_id j) = m (offer_job_id j)" for m
    by (induction "is" arbitrary: m) auto
  then show ?thesis by (simp add: waiting_append)
qed

definition scheduled_ok :: "api_env \<Rightarrow> world \<Rightarrow> bool" where
  "scheduled_ok env w \<longleftrightarrow>
     (\<forall>f \<in> set (rideOffers w). ro_status f = OfferStatus.PENDING \<longrightarrow>
        waiting (queue w) (offer_job_id (ro_id f)) = Some (ExpireOffer (ro_id f), api_expirySeconds env * 1000))"

text \<open>An operation that makes no offer pending and leaves the jobs of the pending ones.\<close>

lemma scheduled_ok_fewer:
  assumes "scheduled_ok env w"
    and "\<And>g. g \<in> set (rideOffers w') \<Longrightarrow> ro_status g = OfferStatus.PENDING \<Longrightarrow> g \<in> set (rideOffers w) \<and>
      waiting (queue w') (offer_job_id (ro_id g)) = waiting (queue w) (offer_job_id (ro_id g))"
  shows "scheduled_ok env w'"
  using assms unfolding scheduled_ok_def by metis

lemma scheduled_ok_bystander: "scheduled_ok env w \<Longrightarrow> bystander w w' \<Longrightarrow> scheduled_ok env w'"
  by (erule scheduled_ok_fewer) (auto simp: bystander_def waiting_disconnect)

lemma scheduled_ok_same:
  "scheduled_ok env w \<Longrightarrow> queue w' = queue w \<Longrightarrow>
     (\<And>g. g \<in> set (rideOffers w') \<Longrightarrow> ro_status g = OfferStatus.PENDING \<Longrightarrow> g \<in> set (rideOffers w)) \<Longrightarrow>
     scheduled_ok env w'"
  by (rule scheduled_ok_fewer) auto

lemma waiting_rescheduled:
  "waiting (queue (scheduleExpiry secs i w)) (offer_job_id j)
     = (if j = i then Some (ExpireOffer i, secs * 1000) else waiting (queue w) (offer_job_id j))"
  by (simp add: scheduleExpiry_def cancelScheduledExpiry_def enqueue_def waiting_append)

lemma scheduled_ok_submitOffer:
  assumes "scheduled_ok env w"
  shows "scheduled_ok env (snd (submitOffer (api_expirySeconds env) newId now u i fare w))"
proof -
  have "scheduled_ok env (submitOffer_finish (api_expirySeconds env) f r w')"
    if ups: "rideOffer_upsert newId now i d fare w = Inr (f, w')" for d f r w'
  proof -
    have "queue w' = queue w" "\<And>g. g \<in> set (rideOffers w') \<Longrightarrow> g \<in> set (rideOffers w) \<or> ro_id g = ro_id f"
      using ups by (auto simp: rideOffer_upsert_def rideOffer_create_Inr resubmit_def
          split: option.splits sum.splits dest!: rideOffer_update_Inr elim!: in_update_whereE)
    with assms show ?thesis
      by (fastforce simp: scheduled_ok_def submitOffer_finish_def emit_def waiting_rescheduled
          scheduleExpiry_def cancelScheduledExpiry_def enqueue_def waiting_append)
  qed
  with assms show ?thesis by (auto simp: submitOffer_def split: sum.splits)
qed

lemma scheduled_ok_acceptOffer:
  assumes inv: "ride_inv w" and ok: "scheduled_ok env w"
  shows "scheduled_ok env (snd (acceptOffer newId now u i w))"
proof -
  have "scheduled_ok env (acceptOffer_finish v others t w')"
    if load: "acceptOffer_load u i w = Inr v" and others: "acceptOffer_others v w = Inr others"
      and commit: "acceptOffer_commit newId now u v w = Inr w'" for v others t w'
  proof (rule scheduled_ok_fewer [OF ok])
    note c = acceptOffer_commit_Inr(1) [OF commit]
    have fst: "map fst others = filter (competing (ov_offer v)) (rideOffers w)"
      using with_driver_users_ok [OF inv, of "filter (competing (ov_offer v)) (rideOffers w)"] others
      by (auto simp: acceptOffer_others_def)
    have removed: "queue (acceptOffer_finish v others t w')
      = queue w @ map (RemoveJob \<circ> offer_job_id) (ro_id (ov_offer v) # map ro_id (map fst others))"
      by (simp add: finish_world c)
    have offers: "rideOffers (acceptOffer_finish v others t w') = accepted_offers (ov_offer v) (rideOffers w)"
      by (simp add: finish_world c)
    fix g assume "g \<in> set (rideOffers (acceptOffer_finish v others t w'))" "ro_status g = OfferStatus.PENDING"
    then have g: "g \<in> set (rideOffers w)" "ro_id g \<noteq> ro_id (ov_offer v)" "\<not> competing (ov_offer v) g"
      unfolding offers by (auto elim: accepted_offers_cases)
    have "ro_id g \<notin> set (map ro_id (map fst others))"
    proof
      assume "ro_id g \<in> set (map ro_id (map fst others))"
      then obtain h where "h \<in> set (rideOffers w)" "competing (ov_offer v) h" "ro_id h = ro_id g"
        unfolding fst by auto
      with g ride_invD(1) [OF inv] show False by (auto simp: keys_ok_def dest: unique_on_eq)
    qed
    with g show "g \<in> set (rideOffers w) \<and> waiting (queue (acceptOffer_finish v others t w')) (offer_job_id (ro_id g))
        = waiting (queue w) (offer_job_id (ro_id g))"
      unfolding removed by (subst waiting_removed) auto
  qed
  with ok show ?thesis by (auto simp: acceptOffer_def split: sum.splits)
qed

lemma cancel_commit_queue:
  "cancel_commit i now reason v w = Inr w' \<Longrightarrow> queue w' = queue w"
  by (auto simp: cancel_commit_def rideOffer_updateMany_def split: sum.splits option.splits
      dest!: rideRequest_update_Inr trip_update_Inr)

lemma scheduled_ok_other_rides:
  assumes "scheduled_ok env w"
  shows "scheduled_ok env (snd (createRideRequest g km newId now u dto w))"
    "scheduled_ok env (snd (cancelRideRequest i now u reason w))"
    "scheduled_ok env (snd (startTrip i now u w))"
    "scheduled_ok env (snd (completeTrip i now u w))"
proof -
  show "scheduled_ok env (snd (createRideRequest g km newId now u dto w))"
    by (rule scheduled_ok_same [OF assms])
      (auto simp: createRideRequest_def Let_def rideRequest_create_Inr emit_def split: sum.splits)
  have "queue w' = queue w \<and> (\<forall>g \<in> set (rideOffers w'). ro_status g = OfferStatus.PENDING \<longrightarrow> g \<in> set (rideOffers w))"
    if "cancel_commit i now reason v w = Inr w'" for v w'
    using cancel_commit_queue [OF that] cancel_commit_Inr(2) [OF that]
    by (auto simp: pending_of_request_def elim!: in_update_whereE)
  then show "scheduled_ok env (snd (cancelRideRequest i now u reason w))"
    by (intro scheduled_ok_same [OF assms])
      (auto simp: cancelRideRequest_def emit_def split: sum.splits option.splits)
  have result: "scheduled_ok env (snd (trip_result i e w c))"
    if "\<And>w'. c = Inr w' \<Longrightarrow> queue w' = queue w \<and> rideOffers w' = rideOffers w" for e c
    by (rule scheduled_ok_same [OF assms])
      (use that in \<open>auto simp: trip_result_def emit_def split: sum.splits option.splits\<close>)
  show "scheduled_ok env (snd (startTrip i now u w))" "scheduled_ok env (snd (completeTrip i now u w))"
    using assms by (auto simp: startTrip_def start_commit_def completeTrip_def complete_commit_def
        split: sum.splits dest!: trip_update_Inr rideRequest_update_Inr intro!: result)
qed

lemma scheduled_ok_process_job:
  assumes "scheduled_ok env w"
  shows "scheduled_ok env (snd (process_job j w))"
  by (rule scheduled_ok_same [OF assms]; cases j)
    (auto simp: expireIfStillPending_def expireOffer_commit_def expireAllPendingOffersForDriver_def
      rideOffer_updateMany_def emit_def pending_of_driver_def split: sum.splits option.splits prod.splits if_splits
      dest!: rideOffer_update_Inr elim!: in_update_whereE)

lemma scheduled_ok_ride_op:
  assumes "ride_op env w w'" "ride_inv w" "scheduled_ok env w"
  shows "scheduled_ok env w'"
  using assms
  by cases (simp_all add: scheduled_ok_submitOffer scheduled_ok_acceptOffer scheduled_ok_other_rides
      scheduled_ok_process_job)

interpretation scheduler: invariant_system "\<lambda>w. w = empty_world" "system_step env"
  "\<lambda>w. world_inv w \<and> scheduled_ok env w" for env
proof
  fix w w' assume "system_step env w w'" "world_inv w \<and> scheduled_ok env w"
  moreover from this have "classified env w w'"
    by (auto simp: system_step_def intro: api_op_classified)
  ultimately show "world_inv w' \<and> scheduled_ok env w'"
    by (auto simp: classified_def intro: backend.step_inv scheduled_ok_bystander scheduled_ok_ride_op world_invD(1))
next
  fix w assume "w = empty_world"
  then show "world_inv w \<and> scheduled_ok env w"
    by (simp add: world_inv_empty) (simp add: scheduled_ok_def empty_world_def)
qed

text \<open>
  C19: a pending offer will expire. In every reachable database each pending offer has its expiry job
  in the queue, due after the configured time: no operation removed it without settling the offer.
  And that job does its work: run in that state, it succeeds and leaves the offer EXPIRED.
\<close>

theorem pending_offers_expire:
  assumes "(system_step env)\<^sup>*\<^sup>* empty_world w" "f \<in> set (rideOffers w)" "ro_status f = OfferStatus.PENDING"
  shows "waiting (queue w) (offer_job_id (ro_id f)) = Some (ExpireOffer (ro_id f), api_expirySeconds env * 1000) \<and>
    (\<exists>w'. process_job (ExpireOffer (ro_id f)) w = (Inr (), w') \<and>
       lookup ro_id (ro_id f) (rideOffers w') = Some (f\<lparr>ro_status := OfferStatus.EXPIRED\<rparr>))"
proof
  have inv: "world_inv w" and ok: "scheduled_ok env w" using scheduler.reachable_inv [OF refl assms(1)] by blast+
  show "waiting (queue w) (offer_job_id (ro_id f)) = Some (ExpireOffer (ro_id f), api_expirySeconds env * 1000)"
    using ok assms(2,3) by (auto simp: scheduled_ok_def)
  note ride = world_invD(1) [OF inv]
  obtain d where d: "driver_user_of f w = Inr d" using driver_user_of_ok [OF ride assms(2)] by blast
  have f: "lookup ro_id (ro_id f) (rideOffers w) = Some f"
    using ride_invD(1) [OF ride] assms(2) by (simp add: keys_ok_def lookup_Some_iff)
  show "\<exists>w'. process_job (ExpireOffer (ro_id f)) w = (Inr (), w') \<and>
       lookup ro_id (ro_id f) (rideOffers w') = Some (f\<lparr>ro_status := OfferStatus.EXPIRED\<rparr>)"
    using process_expiry [OF ride f d] f assms(3) by (auto simp: emit_def lookup_update_where)
qed

lemma pending_offers_expire_witness:
  "waiting (queue offered_world) ''offer-o'' = Some (ExpireOffer ''o'', 300 * 1000)"
proof -
  have "map (\<lambda>f. (ro_id f, ro_status f)) (rideOffers offered_world) = [(''o'', OfferStatus.PENDING)]" by code_simp
  then obtain f where "f \<in> set (rideOffers offered_world)" "ro_id f = ''o''" "ro_status f = OfferStatus.PENDING"
    by (auto simp: map_eq_Cons_conv)
  with pending_offers_expire [OF reachable(1), of f] show ?thesis
    by (simp add: offer_job_id_def sample_env_def)
qed

end
