(* ===== verification/Guarantees.thy ===== *)
theory Guarantees
  imports TripSpecs Journey
begin

section \<open>Guarantees: what holds of every database the backend can reach\<close>

text \<open>
  The consequences of the invariant and of the progress relation over runs of any length, from the
  empty database, of all the operations of \<open>api_op\<close>.
\<close>

subsection \<open>Every operation is a move of the rides\<close>

lemma moves_profiles: "profile_changed u f w w' \<Longrightarrow> moves w w'"
  by (rule moves_frame) (simp_all add: profile_changed_def frame_profiles_def)

lemma moves_onboarding: "frame_onboarding w w' \<Longrightarrow> moves w w'"
  by (rule moves_frame) (simp_all add: frame_onboarding_def)

lemma moves_tokens: "tokens_only w w' \<Longrightarrow> moves w w'"
  by (rule moves_frame) (auto simp: tokens_only_def)

lemma moves_setActiveProfile: "moves w (snd (setActiveProfile secs now u prf w))"
proof -
  have "moves w (snd (goOffline secs now u w1))" if "user_update u f w = Inr w1" for f w1
  proof (rule moves_frame)
    show "rideRequests (snd (goOffline secs now u w1)) = rideRequests w"
      "trips (snd (goOffline secs now u w1)) = trips w"
      using goOffline_changed [of u w1 secs now] user_update_Inr [OF that]
      by (simp_all add: profile_changed_def frame_profiles_def)
  qed
  moreover have "moves w w1" if "user_update u f w = Inr w1" for f w1
    by (rule moves_frame) (use user_update_Inr [OF that] in simp_all)
  ultimately show ?thesis
    by (auto simp: setActiveProfile_def split: sum.splits option.splits prod.splits) (metis snd_conv)+
qed

lemma moves_register: "moves w (snd (register c ttl salt ui i tok now dto w))"
proof (rule moves_frame)
  have issue: "rideRequests (snd (issueTokenPair c ttl i tok now u role w1)) = rideRequests w1"
    "trips (snd (issueTokenPair c ttl i tok now u role w1)) = trips w1" for u role w1
    using issue_world [OF prod.collapse [symmetric], of c ttl i tok now u role w1] by auto
  show "rideRequests (snd (register c ttl salt ui i tok now dto w)) = rideRequests w"
    "trips (snd (register c ttl salt ui i tok now dto w)) = trips w"
    by (auto simp: register_def Let_def user_create_Inr issue split: option.splits sum.splits)
qed

lemma moves_resetPassword: "moves w (snd (resetPassword c salt now dto w))"
proof (rule moves_frame)
  show "rideRequests (snd (resetPassword c salt now dto w)) = rideRequests w"
    "trips (snd (resetPassword c salt now dto w)) = trips w"
    by (auto simp: resetPassword_def simp del: transaction.simps
        split: option.splits sum.splits dest!: resetPassword_commit)
qed

lemma moves_others:
  "moves w (snd (findOneForUser i u w))"
  "moves w (snd (updateLocation now u lat lng w))"
  "moves w (snd (goOffline secs now u w))"
  "moves w (snd (setOnlineStatus now u b w))"
  "moves w (snd (startApplication newId now u w))"
  "moves w (snd (submitPersonalInfo now u pdto w))"
  "moves w (snd (submitLicense io base newId uuid now u ldto fl w))"
  "moves w (snd (submitVehicle io base now u vdto fls w))"
  "moves w (snd (uploadOptionalDocument io base newId uuid now u ty fl w))"
  "moves w (snd (reviewApplication newId now i adto w))"
  "moves w (snd (login c ttl i tok now odto w))"
  "moves w (snd (refresh c ttl i new now tok w))"
  "moves w (snd (logout c now tok w))"
  "moves w (snd (forgotPassword c cttl ex i code now phone w))"
  "moves w (removeExpiredRefreshTokens now w)"
  by (rule moves_frame; simp add: findOneForUser_def split: sum.split)
    (simp_all add: moves_profiles [OF updateLocation_changed] moves_profiles [OF goOffline_changed]
      moves_profiles [OF setOnlineStatus_changed] moves_onboarding onboarding_op_frames review_frames
      moves_tokens tokens_only_login tokens_only_refresh_op tokens_only_forgotPassword
      logout_def refreshToken_updateMany_def removeExpiredRefreshTokens_def moves_frame)

interpretation moves: handler_relation moves
  by unfold_locales simp

lemmas moves_ops = moves_others moves.guards moves_register moves_resetPassword moves_setActiveProfile
  moves_createRideRequest moves_submitOffer moves_acceptOffer moves_cancelRideRequest
  moves_rateTrip moves_process_job moves_startTrip moves_completeTrip

lemma api_op_moves:
  assumes "api_op env f" "world_inv w"
  shows "moves w (f w)"
  using assms(1) world_invD(1) [OF assms(2)]
  by cases (simp_all add: endpoint_defs moves_ops split: option.split)


subsection \<open>Rides\<close>

text \<open>
  C1: every database the backend can reach, by any sequence of the operations of its clients, its
  queue and its scheduler, satisfies the whole invariant: keys and references, the ties between
  requests, offers and trips, the ratings, the onboarding, the accounts, the identity cache, and
  that only drivers in driver mode are online.
\<close>

theorem reachable_databases_are_consistent:
  "(system_step env)\<^sup>*\<^sup>* empty_world w \<Longrightarrow> world_inv w"
  by (rule backend.reachable_inv [OF refl])

lemma reachable_databases_are_consistent_witness:
  "world_inv rated_world \<and> map t_status (trips rated_world) = [TripStatus.COMPLETED]"
proof
  show "world_inv rated_world" by (rule reachable_databases_are_consistent [OF reachable(2)])
  show "map t_status (trips rated_world) = [TripStatus.COMPLETED]" by code_simp
qed

lemma reachable_world_inv: "(system_step env)\<^sup>*\<^sup>* empty_world w \<Longrightarrow> world_inv w"
  by (rule backend.reachable_inv [OF refl])



subsection \<open>A ride settles\<close>

text \<open>A measure of how far a ride has come; every change of status increases it.\<close>

fun stage :: "RideRequestStatus option \<Rightarrow> nat" where
  "stage None = 0"
| "stage (Some RideRequestStatus.PENDING) = 1"
| "stage (Some RideRequestStatus.MATCHED) = 2"
| "stage (Some RideRequestStatus.IN_PROGRESS) = 3"
| "stage (Some RideRequestStatus.COMPLETED) = 4"
| "stage (Some RideRequestStatus.CANCELLED) = 4"

lemma stage_bound: "stage s \<le> 4"
  by (cases s rule: stage.cases) simp_all

lemma ride_edge_stage: "ride_edge s s' \<Longrightarrow> stage s < stage s'"
  by (erule ride_edgeE) auto

lemma length_remdups_adj_stages:
  "successively (\<lambda>s s'. s = s' \<or> stage s < stage s') (s # ss) \<Longrightarrow> length (remdups_adj (s # ss)) + stage s \<le> 5"
proof (induction ss arbitrary: s)
  case Nil
  then show ?case using stage_bound [of s] by simp
next
  case (Cons s' ss)
  then have "length (remdups_adj (s' # ss)) + stage s' \<le> 5" "s = s' \<or> stage s < stage s'" by auto
  then show ?case by auto
qed

lemma run_stages:
  assumes "world_inv w" "successively (system_step env) (w # ws)"
  shows "successively (\<lambda>s s'. s = s' \<or> stage s < stage s') (map (\<lambda>w. status_of w i) (w # ws))"
  using assms
proof (induction ws arbitrary: w)
  case (Cons w' ws)
  then obtain f where f: "api_op env f" "w' = f w" by (auto simp: system_step_def)
  have "moves w w'" using api_op_moves [OF f(1) Cons.prems(1)] f(2) by simp
  then have "status_of w i = status_of w' i \<or> stage (status_of w i) < stage (status_of w' i)"
    unfolding moves_def by (metis fun_upd_apply ride_edge_stage)
  moreover have "world_inv w'" using api_op_world_inv [OF f(1) Cons.prems(1)] f(2) by simp
  ultimately show ?case using Cons by simp
qed simp

text \<open>
  C24: every ride settles. Along any run, however long, the status of a ride request changes at most
  four times: no sequence of operations, jobs and clean-ups keeps a ride going back and forth.
\<close>

theorem rides_settle:
  assumes "(system_step env)\<^sup>*\<^sup>* empty_world w" "successively (system_step env) (w # ws)"
  shows "length (remdups_adj (map (\<lambda>w. status_of w i) (w # ws))) \<le> 5"
  using length_remdups_adj_stages [OF run_stages [OF reachable_world_inv [OF assms(1)] assms(2), of i, unfolded list.map]]
  by simp

lemma rides_settle_witness:
  "length (remdups_adj (map (\<lambda>w. status_of w ''q'')
     [online_world, run_ops (take 1 sample_ride) online_world, offered_world])) \<le> 5"
proof -
  have ops: "api_op sample_env (sample_ride ! 0)" "api_op sample_env (sample_ride ! 1)"
    by (simp_all add: sample_ride_def api_op.intros)
  have "system_step sample_env online_world (run_ops (take 1 sample_ride) online_world)"
    unfolding system_step_def by (rule exI [of _ "sample_ride ! 0"]) (use ops in \<open>simp add: sample_ride_def run_ops_def\<close>)
  moreover have "system_step sample_env (run_ops (take 1 sample_ride) online_world) offered_world"
    unfolding system_step_def by (rule exI [of _ "sample_ride ! 1"])
      (use ops in \<open>simp add: sample_ride_def run_ops_def offered_world_def\<close>)
  ultimately show ?thesis using rides_settle [OF reachable_online] by auto
qed

lemma agrees_functional:
  assumes inv: "ride_inv w" and fg: "f \<in> set (rideOffers w)" "g \<in> set (rideOffers w)"
    and agr: "agrees w f t" "agrees w g t"
  shows "f = g"
proof -
  have "ro_driverId f = ro_driverId g"
    using agr ride_invD(1) [OF inv] by (auto simp: agrees_def profile_users_def keys_ok_def dest: unique_on_eq)
  moreover have "ro_rideRequestId f = ro_rideRequestId g" using agr by (simp add: agrees_def)
  ultimately have "ro_key f = ro_key g" by (simp add: ro_key_def)
  with fg ride_invD(1) [OF inv] show ?thesis by (auto simp: keys_ok_def dest: unique_on_eq)
qed

text \<open>
  C6: one match per ride. In any reachable database the accepted offers and the trips correspond
  one to one, through the ride request: each accepted offer has exactly one trip, with its
  request, its fare, the user behind its driver profile and the rider of the request; each trip
  comes from exactly one accepted offer; no request has two of either.
\<close>

theorem one_trip_per_accepted_offer:
  assumes "(system_step env)\<^sup>*\<^sup>* empty_world w"
  shows "(\<forall>f \<in> set (rideOffers w). ro_status f = OfferStatus.ACCEPTED \<longrightarrow> (\<exists>!t. t \<in> set (trips w) \<and> agrees w f t)) \<and>
    (\<forall>t \<in> set (trips w). \<exists>!f. f \<in> set (rideOffers w) \<and> ro_status f = OfferStatus.ACCEPTED \<and> agrees w f t) \<and>
    inj_on t_rideRequestId (set (trips w)) \<and>
    inj_on ro_rideRequestId {f \<in> set (rideOffers w). ro_status f = OfferStatus.ACCEPTED}"
proof -
  have inv: "ride_inv w" using reachable_world_inv [OF assms] by (rule world_invD)
  have req: "t = t'" if "t \<in> set (trips w)" "t' \<in> set (trips w)" "t_rideRequestId t = t_rideRequestId t'" for t t'
    using that ride_invD(1) [OF inv] by (auto simp: keys_ok_def dest: unique_on_eq)
  have trip: "\<exists>t. t \<in> set (trips w) \<and> agrees w f t" if "f \<in> set (rideOffers w)" "ro_status f = OfferStatus.ACCEPTED" for f
    using that ride_invD(5) [OF inv] by (auto simp: accepted_ok_def trip_of_member [OF inv])
  have 1: "\<exists>!t. t \<in> set (trips w) \<and> agrees w f t" if "f \<in> set (rideOffers w)" "ro_status f = OfferStatus.ACCEPTED" for f
    using trip [OF that] req by (auto simp: agrees_def)
  have 2: "\<exists>!f. f \<in> set (rideOffers w) \<and> ro_status f = OfferStatus.ACCEPTED \<and> agrees w f t" if "t \<in> set (trips w)" for t
    using that ride_invD(6) [OF inv] agrees_functional [OF inv] unfolding trips_ok_def by blast
  have 3: "inj_on ro_rideRequestId {f \<in> set (rideOffers w). ro_status f = OfferStatus.ACCEPTED}"
  proof (rule inj_onI)
    fix f g assume fg: "f \<in> {f \<in> set (rideOffers w). ro_status f = OfferStatus.ACCEPTED}"
      "g \<in> {f \<in> set (rideOffers w). ro_status f = OfferStatus.ACCEPTED}" "ro_rideRequestId f = ro_rideRequestId g"
    then obtain t t' where "t \<in> set (trips w)" "agrees w f t" "t' \<in> set (trips w)" "agrees w g t'"
      using trip [of f] trip [of g] by auto
    moreover from this have "t = t'" using fg(3) req by (simp add: agrees_def)
    ultimately show "f = g" using fg agrees_functional [OF inv, of f g t] by simp
  qed
  show ?thesis using 1 2 3 req by (auto intro: inj_onI)
qed

lemma one_trip_per_accepted_offer_witness:
  "inj_on t_rideRequestId (set (trips rated_world)) \<and> map t_agreedFare (trips rated_world) = [12] \<and>
   map ro_status (rideOffers rated_world) = [OfferStatus.ACCEPTED]"
proof (intro conjI)
  show "inj_on t_rideRequestId (set (trips rated_world))"
    using one_trip_per_accepted_offer [OF reachable(2)] by blast
  show "map t_agreedFare (trips rated_world) = [12]" "map ro_status (rideOffers rated_world) = [OfferStatus.ACCEPTED]"
    by code_simp+
qed

text \<open>
  A request and its trip are always in the same phase (no trip while PENDING, a MATCHED trip while
  MATCHED, and so on to COMPLETED and CANCELLED), and an offer is pending only while its request is.
\<close>

lemma request_and_trip_in_step:
  assumes "(system_step env)\<^sup>*\<^sup>* empty_world w"
  shows "linked (status_of w i) (map_option t_status (trip_of w i)) \<and>
    (\<forall>f \<in> set (rideOffers w). ro_rideRequestId f = i \<and> ro_status f = OfferStatus.PENDING \<longrightarrow>
       status_of w i = Some RideRequestStatus.PENDING)"
  using reachable_world_inv [OF assms] unfolding world_inv_def world_core_def ride_inv_def links_ok_def pending_ok_def
  by blast

subsection \<open>Ratings\<close>

text \<open>
  C17: a user's rating is always the average of the scores they have received (5 before the first),
  and lies between 1 and 5; every rating is from one participant of a completed trip to the other,
  and no one has rated a trip twice.
\<close>

theorem ratings_are_averages:
  assumes "(system_step env)\<^sup>*\<^sup>* empty_world w"
  shows "(\<forall>u \<in> set (users w). u_rating u = recalculated (u_id u) w \<and> 1 \<le> u_rating u \<and> u_rating u \<le> 5) \<and>
    (\<forall>r \<in> set (ratings w). \<exists>t \<in> set (trips w). t_id t = rt_tripId r \<and> t_status t = TripStatus.COMPLETED \<and>
       (rt_fromUserId r, rt_toUserId r) \<in> participants t) \<and>
    inj_on rt_key (set (ratings w))"
proof -
  have inv: "ratings_inv w" using reachable_world_inv [OF assms] by (rule world_invD)
  then have scores: "1 \<le> rt_score r \<and> rt_score r \<le> 5" if "r \<in> set (ratings w)" for r
    using that by (auto simp: ratings_inv_def rating_ok_def)
  with inv show ?thesis using recalculated_bounds [of w]
    unfolding ratings_inv_def rating_ok_def unique_on_def distinct_map by metis
qed

lemma ratings_are_averages_witness:
  "map (\<lambda>u. recalculated (u_id u) rated_world) (users rated_world) = [5, 4]"
proof -
  have "map u_rating (users rated_world) = map (\<lambda>u. recalculated (u_id u) rated_world) (users rated_world)"
    using ratings_are_averages [OF reachable(2)] by (intro map_cong) blast+
  moreover have "map u_rating (users rated_world) = [5, 4]" by code_simp
  ultimately show ?thesis by simp
qed

subsection \<open>Drivers\<close>

text \<open>
  C16: only a verified driver in driver mode is ever online, so ride requests are broadcast to no
  one else: an online profile belongs to a user in driver mode whose application is VERIFIED and
  has every required document, a plate number and a submission date.
\<close>

theorem online_drivers_are_verified:
  assumes "(system_step env)\<^sup>*\<^sup>* empty_world w" "p \<in> set (driverProfiles w)" "dp_isOnline p"
  shows "map_option u_activeProfile (lookup u_id (dp_userId p) (users w)) = Some DRIVER \<and>
    (\<exists>a \<in> set (driverApplications w). da_id a = dp_driverApplicationId p \<and> da_userId a = dp_userId p \<and>
       da_status a = VERIFIED \<and> submission_complete w a)"
proof -
  note d = world_invD [OF reachable_world_inv [OF assms(1)]]
  have "(dp_driverApplicationId p, dp_userId p) \<in> verified_links w"
    using assms(2) onboarding_invD(6) [OF d(3)] by (auto simp: profile_links_def)
  then obtain a where "a \<in> set (driverApplications w)" "da_status a = VERIFIED"
    "da_id a = dp_driverApplicationId p" "da_userId a = dp_userId p"
    by (auto simp: verified_links_def)
  with onboarding_invD(5) [OF d(3)] d(7) assms(2,3) show ?thesis by (auto simp: online_ok_def)
qed

lemma online_drivers_are_verified_witness:
  "\<exists>p. driverProfiles online_world = [p] \<and> dp_isOnline p \<and>
     (\<exists>a \<in> set (driverApplications online_world). da_id a = dp_driverApplicationId p \<and> da_status a = VERIFIED)"
proof -
  have "list_all dp_isOnline (driverProfiles online_world) \<and> length (driverProfiles online_world) = 1" by code_simp
  then obtain p where "driverProfiles online_world = [p]" "dp_isOnline p"
    by (auto simp: length_Suc_conv)
  with online_drivers_are_verified [OF reachable_online, of p] show ?thesis by auto
qed

text \<open>
  A driver profile is a verified application, one for one: the links from profiles to
  applications and users are exactly those of the VERIFIED applications, an application under
  review or verified always has its three required documents, and no two applications share a
  plate.
\<close>

lemma profiles_are_verified_applications:
  assumes "(system_step env)\<^sup>*\<^sup>* empty_world w"
  shows "(\<lambda>p. (dp_driverApplicationId p, dp_userId p)) ` set (driverProfiles w)
      = (\<lambda>a. (da_id a, da_userId a)) ` {a \<in> set (driverApplications w). da_status a = VERIFIED} \<and>
    (\<forall>a \<in> set (driverApplications w). da_status a = UNDER_REVIEW \<or> da_status a = VERIFIED \<longrightarrow>
       set REQUIRED_DOCUMENT_TYPES \<subseteq> uploadedTypes (da_id a) w) \<and>
    (\<forall>a \<in> set (driverApplications w). \<forall>b \<in> set (driverApplications w).
       da_plateNumber a \<noteq> None \<and> da_plateNumber a = da_plateNumber b \<longrightarrow> a = b)"
proof -
  note d = onboarding_invD [OF world_invD(3) [OF reachable_world_inv [OF assms]]]
  show ?thesis
    using d(6) d(5) d(3) unfolding profile_links_def verified_links_def submission_complete_def plates_ok_def
    by blast
qed

lemma profiles_are_verified_applications_witness:
  "(\<lambda>p. (dp_driverApplicationId p, dp_userId p)) ` set (driverProfiles online_world) = {(''ap'', ''d'')}"
proof -
  have "(\<lambda>a. (da_id a, da_userId a)) ` {a \<in> set (driverApplications online_world). da_status a = VERIFIED}
    = {(''ap'', ''d'')}"
    by code_simp
  with profiles_are_verified_applications [OF reachable_online] show ?thesis by simp
qed

text \<open>
  C28: the cached driver identity is never stale. In any reachable database the cache-aside lookup
  answers what the table answers, whenever it is asked, and it changes the cache only.
\<close>

theorem identity_cache_is_transparent:
  assumes "(system_step env)\<^sup>*\<^sup>* empty_world w"
  shows "fst (findIdentityByUserId now u w)
      = Inr (map_option (\<lambda>p. \<lparr>di_id = dp_id p, di_userId = dp_userId p\<rparr>) (lookup dp_userId u (driverProfiles w))) \<and>
    (\<exists>r. snd (findIdentityByUserId now u w) = w\<lparr>redis := r\<rparr>)"
  using findIdentityByUserId_fresh [OF world_invD(6) [OF reachable_world_inv [OF assms]], of now u]
  unfolding identity_of_def by auto

lemma identity_cache_is_transparent_witness:
  "fst (findIdentityByUserId 11 ''d'' online_world) = Inr (Some \<lparr>di_id = ''pd'', di_userId = ''d''\<rparr>) \<and>
   redis online_world ''driver-identity:d'' \<noteq> None"
proof
  have "map_option (\<lambda>p. \<lparr>di_id = dp_id p, di_userId = dp_userId p\<rparr>) (lookup dp_userId ''d'' (driverProfiles online_world))
    = Some \<lparr>di_id = ''pd'', di_userId = ''d''\<rparr>" by code_simp
  then show "fst (findIdentityByUserId 11 ''d'' online_world) = Inr (Some \<lparr>di_id = ''pd'', di_userId = ''d''\<rparr>)"
    using identity_cache_is_transparent [OF reachable_online, of 11 "''d''"] by metis
  show "redis online_world ''driver-identity:d'' \<noteq> None" by code_simp
qed

end
