(* ===== verification/ComponentSpecs.thy ===== *)
theory ComponentSpecs
  imports Guarantees Logs
begin

section \<open>Component specifications: limits, matching, storage, review\<close>

text \<open>
  Properties of the smaller components: the bound of the rate limiter, what the ride broadcast and
  the live map return, the round trip of an uploaded document and where its file may lie, the two
  decisions of a review, how often a ride can change, and what the validated columns hold.
\<close>

subsection \<open>The rate limiter\<close>

text \<open>
  C33: the limiter keeps its bound. However a client times its calls, no interval of the window's
  length, wherever it ends, contains more admitted calls than the limit; and it refuses a call only
  when the window before it is full.
\<close>

theorem rate_limit_holds:
  assumes "sorted nows" "0 < windowMs" "h key = None"
  shows "length (filter (in_window windowMs t) (fst (consume_all limit windowMs key nows h))) \<le> limit \<and>
    (fst (consume limit windowMs now key h') \<longleftrightarrow> length (window_of windowMs now h' key) < limit)"
proof
  have "length (filter (in_window windowMs t) (fst (consume_all limit windowMs key nows h))) \<le> limit"
  proof (cases nows)
    case (Cons n ns)
    have "sorted (n # nows)" using assms(1) Cons by auto
    from consume_all_inv [OF limiter_inv_empty [of h key limit windowMs n, OF assms(3)] this assms(2)
        prod.collapse [symmetric]] show ?thesis by simp
  qed simp
  then show "length (filter (in_window windowMs t) (fst (consume_all limit windowMs key nows h))) \<le> limit" .
qed (rule consume_allowed)

lemma rate_limit_holds_witness:
  "length (filter (in_window 1000 30) (fst (consume_all 3 1000 ''d'' [0, 10, 20, 30] Map.empty))) \<le> 3 \<and>
   fst (consume_all 3 1000 ''d'' [0, 10, 20, 30] Map.empty) = [0, 10, 20]"
  using rate_limit_holds [of "[0, 10, 20, 30]" 1000 Map.empty "''d''" 30 3]
  by (simp add: consume_def window_of_def)

subsection \<open>Matching\<close>

text \<open>
  C34: the broadcast goes to the nearest drivers. It reaches at most fifty drivers, all of them online
  and with a known position within the radius, the nearest first; a driver in reach who is left out
  is no nearer than any who is not, and none is left out when there are fewer than fifty.
\<close>

theorem nearest_drivers_are_told:
  fixes g :: geography and lat lng defaultKm :: real and r :: "real option" and w :: world
  defines "reach \<equiv> in_radius g (lng, lat) (radius_meters defaultKm r)"
    and "rows \<equiv> nearby_rows g (lng, lat) (radius_meters defaultKm r) w"
  shows "map nd_userId (findNearbyDrivers g defaultKm lat lng r w) = map dp_userId rows \<and>
    length rows \<le> 50 \<and> sorted (map (knn_of g (lng, lat)) rows) \<and>
    set rows \<subseteq> {p \<in> set (driverProfiles w). dp_isOnline p \<and> dp_location p \<noteq> None \<and> reach p} \<and>
    (\<forall>p \<in> set (driverProfiles w). reach p \<and> p \<notin> set rows \<longrightarrow>
       length rows = 50 \<and> (\<forall>q \<in> set rows. knn_of g (lng, lat) q \<le> knn_of g (lng, lat) p))"
proof (intro conjI ballI impI)
  show "map nd_userId (findNearbyDrivers g defaultKm lat lng r w) = map dp_userId rows"
    by (simp add: findNearbyDrivers_def rows_def)
  show "set rows \<subseteq> {p \<in> set (driverProfiles w). dp_isOnline p \<and> dp_location p \<noteq> None \<and> reach p}"
    using nearby_rows_subset unfolding rows_def reach_def in_radius_def by (fastforce split: option.splits)
  fix p assume p: "p \<in> set (driverProfiles w)" "reach p \<and> p \<notin> set rows"
  show "length rows = 50"
  proof (rule ccontr)
    assume "length rows \<noteq> 50"
    then have "rows = sort_key (knn_of g (lng, lat)) (filter reach (driverProfiles w))"
      unfolding rows_def nearby_rows_def reach_def by (simp add: min_def split: if_splits)
    with p show False by simp
  qed
  show "knn_of g (lng, lat) q \<le> knn_of g (lng, lat) p" if "q \<in> set rows" for q
    using nearby_rows_nearest p that unfolding rows_def reach_def by blast
qed (simp_all add: rows_def nearby_rows_length nearby_rows_sorted)

lemma nearest_drivers_are_told_witness:
  "length (nearby_rows sample_geography (3, 6) (radius_meters 5 None) open_world) \<le> 50 \<and>
   map nd_userId (findNearbyDrivers sample_geography 5 6 3 None open_world) = [''d'', ''e'']"
proof -
  have "map dp_userId (nearby_rows sample_geography (3, 6) (radius_meters 5 None) open_world) = [''d'', ''e'']"
    by code_simp
  with nearest_drivers_are_told [of sample_geography 5 6 3 None open_world] show ?thesis by simp
qed

text \<open>
  The live map never works. Its query names two columns that the last migration of
  \<open>driver_profiles\<close> dropped, so Postgres refuses it whatever the table holds, and every rider who
  asks gets the status 500.
\<close>

lemma live_map_always_fails:
  "findNearbyDriverLocations driver_profiles_columns g defaultKm lat lng r w = Inl (RawQueryError ''42703'') \<and>
   (\<exists>e. fst (MatchingController_nearbyDrivers env user lat lng r w) = Inl e \<and>
     snd (MatchingController_nearbyDrivers env user lat lng r w) = w \<and> http_status e \<in> {400, 403, 500})"
proof -
  have fails: "findNearbyDriverLocations driver_profiles_columns g defaultKm lat lng r w = Inl (RawQueryError ''42703'')" for g defaultKm
    by (simp add: findNearbyDriverLocations_def live_map_select_def driver_profiles_columns_def
        driver_profiles_dual_def driver_profiles_init_def)
  then show ?thesis
    by (auto simp: MatchingController_nearbyDrivers_def with_profile_def validated_def reads_def
        activeProfile_canActivate_def split: sum.split option.split)
qed

subsection \<open>Documents and their files\<close>

text \<open>
  C35: what a driver uploads is what the reviewer downloads. Where every document has its file, an upload
  that succeeds answers with a document whose download gives the same bytes, type and name; it
  changes the download of no other document and leaves every document with its file, although the
  file it replaces is removed.
\<close>

theorem upload_download_roundtrip:
  assumes ok: "documents_ok bs w" and bs: "list_all plain_segment bs" "bs \<noteq> []"
    and ids: "plain_segment a" "plain_segment uuid"
    and fresh: "storage_key a t uuid (uf_originalname file) \<notin> dd_storageKey ` set (driverDocuments w)"
    and up: "upload_document io (path_of bs) newId uuid now a t file w = (Inr resp, w')"
  shows "getFileBuffer (path_of bs) (ddr_id resp) w' = Inr (uf_buffer file, uf_mimetype file, uf_originalname file) \<and>
    (\<forall>d \<in> set (driverDocuments w). dd_key d \<noteq> (a, t) \<longrightarrow>
       getFileBuffer (path_of bs) (dd_id d) w' = getFileBuffer (path_of bs) (dd_id d) w) \<and>
    documents_ok bs w'"
proof (intro conjI ballI impI)
  show ok': "documents_ok bs w'" by (rule documents_ok_upload [OF ok bs ids fresh up])
  note files = upload_files [OF ok bs ids fresh up]
  obtain d where d: "d \<in> set (driverDocuments w')" "resp = DriverDocumentResponse_from d"
      "dd_storageKey d = storage_key a t uuid (uf_originalname file)" "dd_mimeType d = uf_mimetype file"
      "dd_originalFilename d = uf_originalname file"
    using upload_response [OF up] by blast
  show "getFileBuffer (path_of bs) (ddr_id resp) w' = Inr (uf_buffer file, uf_mimetype file, uf_originalname file)"
    using getFileBuffer_present [OF ok' bs d(1)] files(1) d by (auto simp: DriverDocumentResponse_from_def)
  fix e assume e: "e \<in> set (driverDocuments w)" "dd_key e \<noteq> (a, t)"
  have "e \<in> set (driverDocuments w')"
  proof (cases rule: upload_success [OF up])
    case (1 path ds)
    then show ?thesis using e by (auto intro: in_update_where_same)
  qed
  from getFileBuffer_present [OF ok' bs this] getFileBuffer_present [OF ok bs e(1)] files(2) [OF e]
  show "getFileBuffer (path_of bs) (dd_id e) w' = getFileBuffer (path_of bs) (dd_id e) w" by auto
qed

lemma upload_download_roundtrip_witness:
  "\<exists>resp w'. upload_document (\<lambda>p. True) ''/up'' ''d9'' ''u9'' 20 ''ap'' VEHICLE_PHOTO sample_file online_world = (Inr resp, w') \<and>
     getFileBuffer ''/up'' (ddr_id resp) w' = Inr (''PNG'', ''image/png'', ''a.png'') \<and> documents_ok [''up''] w'"
proof -
  let ?run = "upload_document (\<lambda>p. True) (path_of [''up'']) ''d9'' ''u9'' 20 ''ap'' VEHICLE_PHOTO sample_file online_world"
  have base: "path_of [''up''] = ''/up''" by (simp add: path_of_def)
  have "fst ?run = Inr \<lparr>ddr_id = ''d2'', ddr_type = VEHICLE_PHOTO, ddr_originalFilename = ''a.png'',
      ddr_mimeType = ''image/png'', ddr_sizeBytes = 3, ddr_uploadedAt = 20\<rparr>" by code_simp
  then obtain resp w' where run: "?run = (Inr resp, w')" by (metis prod.collapse)
  have keys: "map dd_storageKey (driverDocuments online_world)
      = [''driver-documents/ap/DRIVERS_LICENSE-u1.png'', ''driver-documents/ap/VEHICLE_PHOTO-u2.png'',
         ''driver-documents/ap/VEHICLE_REGISTRATION-u3.png'']" by code_simp
  have "list_all (\<lambda>d. list_all plain_segment (segments (dd_storageKey d)) \<and>
      disk online_world (path_of [''up''] @ ''/'' @ dd_storageKey d) \<noteq> None) (driverDocuments online_world) \<and>
    unique_on dd_id (driverDocuments online_world) \<and> unique_on dd_key (driverDocuments online_world) \<and>
    unique_on dd_storageKey (driverDocuments online_world)" by code_simp
  then have ok: "documents_ok [''up''] online_world" by (auto simp: documents_ok_def list_all_iff)
  have "storage_key ''ap'' VEHICLE_PHOTO ''u9'' (uf_originalname sample_file) = ''driver-documents/ap/VEHICLE_PHOTO-u9.png''"
    by code_simp
  then have "storage_key ''ap'' VEHICLE_PHOTO ''u9'' (uf_originalname sample_file) \<notin> dd_storageKey ` set (driverDocuments online_world)"
    using arg_cong [OF keys, of set] by auto
  from upload_download_roundtrip [OF ok _ _ _ _ this run] run show ?thesis
    by (auto simp: plain_segment_def sample_file_def base intro: exI [of _ resp] exI [of _ w'])
qed

text \<open>
  C38: wherever its name comes from, an uploaded file lies under the upload directory, in the directory
  of its application: a client's file name contributes an extension at most. It is the shape of the
  key that ensures it. The check in \<open>resolveKey\<close> compares prefixes of text, so a key may lead to a
  sibling directory whose name starts like the upload directory's.
\<close>

theorem keys_stay_inside:
  assumes "plain_segment a" "plain_segment uuid" "list_all plain_segment bs" "bs \<noteq> []"
  shows "resolveKey (path_of bs) (storage_key a t uuid name)
      = Inr (path_of (bs @ [''driver-documents'', a, document_type_name t @ ''-'' @ uuid @ extname name])) \<and>
    resolveKey (path_of bs) (''../'' @ last bs @ ''-old/f'') = Inr (path_of (butlast bs @ [last bs @ ''-old'', ''f'']))"
proof
  note key = storage_key_segments [OF assms(1,2), of t name]
  have join: "concat (map (\<lambda>s. CHR ''/'' # s) (segments k)) = CHR ''/'' # k" for k
    by (induction k) (auto split: list.split simp: segments_not_Nil [symmetric])
  have "path_of (bs @ segments (storage_key a t uuid name)) = path_of bs @ ''/'' @ storage_key a t uuid name"
    using assms(4) by (simp add: path_of_append join)
  then show "resolveKey (path_of bs) (storage_key a t uuid name)
      = Inr (path_of (bs @ [''driver-documents'', a, document_type_name t @ ''-'' @ uuid @ extname name]))"
    using storage_key_path [OF assms(1-4), of t name] by (simp add: key(1))
  obtain cs c where bs: "bs = cs @ [c]" using assms(4) by (metis append_butlast_last_id)
  with assms(3) have c: "CHR ''/'' \<notin> set c" "c \<noteq> []" by (auto simp: plain_segment_def)
  have segs: "segments (''../'' @ c @ ''-old/f'') = [''..'', c @ ''-old'', ''f'']"
    using c segments_slash [of "''..''" "c @ ''-old/f''"] segments_slash [of "c @ ''-old''" "''f''"]
    by (simp add: segments_noslash)
  have plain: "list_all plain_segment cs" using assms(3) by (simp add: bs)
  have all: "segments (path_of bs @ ''/'' @ ''../'' @ c @ ''-old/f'') = ([] # bs) @ [''..'', c @ ''-old'', ''f'']"
    using segments_slash [of "path_of bs" "''../'' @ c @ ''-old/f''"] segs segments_path_of [OF assms(3,4)] by simp
  have "normalize_segments [] (segments (path_of bs @ ''/'' @ ''../'' @ c @ ''-old/f'')) = cs @ [c @ ''-old'', ''f'']"
    unfolding all normalize_append using normalize_plain [OF assms(3), of "[]"] c plain
    by (simp add: bs)
  then have "resolve_absolute (path_of bs @ ''/'' @ ''../'' @ c @ ''-old/f'') = path_of (cs @ [c @ ''-old'', ''f''])"
    by (simp add: resolve_absolute_def)
  moreover have "starts_with (path_of bs) (path_of (cs @ [c @ ''-old'', ''f'']))"
    by (simp add: bs path_of_def starts_with_def)
  ultimately show "resolveKey (path_of bs) (''../'' @ last bs @ ''-old/f'')
      = Inr (path_of (butlast bs @ [last bs @ ''-old'', ''f'']))"
    by (simp add: resolveKey_def bs)
qed

lemma keys_stay_inside_witness:
  "resolveKey ''/srv/uploads'' (storage_key ''ap'' VEHICLE_PHOTO ''u'' ''../../etc/x.png'')
     = Inr ''/srv/uploads/driver-documents/ap/VEHICLE_PHOTO-u.png''"
  using keys_stay_inside [of "''ap''" "''u''" "[''srv'', ''uploads'']" VEHICLE_PHOTO "''../../etc/x.png''"]
  by (simp add: plain_segment_def path_of_def extname_def Let_def)

subsection \<open>Applications: the review and the age check\<close>

lemma review_writes:
  assumes inv: "onboarding_inv w" and a: "lookup da_id i (driverApplications w) = Some a"
    and f: "da_id (f a) = i" "da_userId (f a) = da_userId a" "da_plateNumber (f a) = da_plateNumber a"
  shows "driverApplication_update i f w
    = Inr (w\<lparr>driverApplications := update_where (\<lambda>x. da_id x = i) f (driverApplications w)\<rparr>)"
proof -
  note d = onboarding_invD [OF inv]
  from a have mem: "a \<in> set (driverApplications w)" "da_id a = i" by (auto dest: lookup_SomeD)
  have "x = a" if "x \<in> set (driverApplications w)" "driverApplication_conflicts (f a) x" for x
    using that f mem unique_on_eq [OF d(1), of x a] unique_on_eq [OF d(2), of x a] d(3)
    unfolding driverApplication_conflicts_def plates_ok_def by metis
  with a have "update_row driverApplication_conflicts (\<lambda>x. da_id x = i) f (driverApplications w)
    = Inr (update_where (\<lambda>x. da_id x = i) f (driverApplications w))" by (rule update_row_ok)
  then show ?thesis by (simp add: driverApplication_update_def on_table_def)
qed

lemma approval_writes:
  assumes inv: "onboarding_inv w" and a: "lookup da_id i (driverApplications w) = Some a"
    and st: "da_status a = UNDER_REVIEW" and user: "user_exists (da_userId a) w"
    and fresh: "newId \<notin> dp_id ` set (driverProfiles w)"
  shows "approve_commit newId now a w
    = Inr (w\<lparr>driverApplications := update_where (\<lambda>x. da_id x = i) (verified_application now) (driverApplications w),
             driverProfiles := driverProfiles w @ [new_profile newId a]\<rparr>)"
proof -
  note d = onboarding_invD [OF inv]
  from a have mem: "a \<in> set (driverApplications w)" "da_id a = i" by (auto dest: lookup_SomeD)
  have upd: "driverApplication_update i (verified_application now) w
    = Inr (w\<lparr>driverApplications := update_where (\<lambda>x. da_id x = i) (verified_application now) (driverApplications w)\<rparr>)"
    by (rule review_writes [OF inv a]) (simp_all add: verified_application_def mem)
  have "\<not> driverProfile_conflicts (new_profile newId a) p" if p: "p \<in> set (driverProfiles w)" for p
  proof
    assume "driverProfile_conflicts (new_profile newId a) p"
    with fresh p mem have "dp_userId p = da_userId a \<or> dp_driverApplicationId p = da_id a"
      by (auto simp: driverProfile_conflicts_def new_profile_def)
    moreover have "(dp_driverApplicationId p, dp_userId p) \<in> verified_links w"
      using p d(6) by (auto simp: profile_links_def)
    then obtain b where "b \<in> set (driverApplications w)" "da_status b = VERIFIED"
      "dp_driverApplicationId p = da_id b" "dp_userId p = da_userId b" by (auto simp: verified_links_def)
    ultimately have "b = a" using mem(1) unique_on_eq [OF d(1), of b a] unique_on_eq [OF d(2), of b a] by auto
    with \<open>da_status b = VERIFIED\<close> st show False by simp
  qed
  moreover have "lookup da_id i (update_where (\<lambda>x. da_id x = i) (verified_application now) (driverApplications w)) \<noteq> None"
    using a by (simp add: lookup_update_where verified_application_def)
  ultimately show ?thesis using upd user mem(2)
    by (auto simp: approve_commit_def driverProfile_create_def on_table_def create_row_def list_ex_iff
        split: sum.splits) (auto simp: new_profile_def)
qed

text \<open>
  C36: the review decides once. Only an application under review can be reviewed. A rejection records
  its reason and nothing else; an approval verifies the application and creates the driver's profile,
  offline, in one transaction that cannot fail; and whichever it was, the next review is refused as a
  conflict.
\<close>

theorem review_decides:
  assumes "(system_step env)\<^sup>*\<^sup>* empty_world w" "lookup da_id i (driverApplications w) = Some a"
    and user: "user_exists (da_userId a) w" and fresh: "newId \<notin> dp_id ` set (driverProfiles w)"
  shows "reviewApplication newId now i dto w =
     (let write = \<lambda>f. update_where (\<lambda>x. da_id x = i) f (driverApplications w)
      in if da_status a \<noteq> UNDER_REVIEW
         then (Inl (ConflictException (''Only applications under review can be reviewed (this one is '' @
                 application_status_name (da_status a) @ '')'')), w)
         else if rad_decision dto = DriverApplicationStatus.REJECTED
         then (Inr (rejected_application now (rad_rejectionReason dto) a),
               w\<lparr>driverApplications := write (rejected_application now (rad_rejectionReason dto))\<rparr>)
         else (Inr (verified_application now a),
               w\<lparr>driverApplications := write (verified_application now),
                 driverProfiles := driverProfiles w @ [new_profile newId a]\<rparr>)) \<and>
    (\<exists>m. fst (reviewApplication newId' now' i dto' (snd (reviewApplication newId now i dto w))) = Inl (ConflictException m) \<or>
       da_status a \<noteq> UNDER_REVIEW)" (is "?run = ?result \<and> _")
proof -
  have inv: "onboarding_inv w" using reachable_world_inv [OF assms(1)] by (rule world_invD)
  note a = assms(2)
  from a have i: "da_id a = i" by (auto dest: lookup_SomeD)
  have rej: "driverApplication_update i (rejected_application now r) w
    = Inr (w\<lparr>driverApplications := update_where (\<lambda>x. da_id x = i) (rejected_application now r) (driverApplications w)\<rparr>)" for r
    by (rule review_writes [OF inv a]) (simp_all add: rejected_application_def i)
  have found: "lookup da_id i (update_where (\<lambda>x. da_id x = i) f (driverApplications w)) = Some (f a)"
    if "\<And>x. da_id (f x) = da_id x" for f
    using that a i by (simp add: lookup_update_where)
  have ids: "da_id (rejected_application now r x) = da_id x" "da_id (verified_application now x) = da_id x" for r x
    by (simp_all add: rejected_application_def verified_application_def)
  note appr = approval_writes [OF inv a _ user fresh]
  have run: "?run = ?result"
    using a by (auto simp: reviewApplication_def application_findById_def update_application_def rej appr i found ids Let_def)
  moreover have "da_status (rejected_application now r a) \<noteq> UNDER_REVIEW" "da_status (verified_application now a) \<noteq> UNDER_REVIEW" for r
    by (simp_all add: rejected_application_def verified_application_def)
  moreover have "fst (reviewApplication newId' now' i dto' v) = Inl (ConflictException (''Only applications under review can be reviewed (this one is '' @
      application_status_name (da_status b) @ '')''))"
    if "lookup da_id i (driverApplications v) = Some b" "da_status b \<noteq> UNDER_REVIEW" for v b
    using that by (simp add: reviewApplication_def application_findById_def)
  ultimately show ?thesis by (auto simp: Let_def found ids)
qed

definition submitted_world :: world where
  "submitted_world = run_ops (sample_people @ take 4 sample_onboarding) empty_world"

lemma reachable_submitted: "(system_step sample_env)\<^sup>*\<^sup>* empty_world submitted_world"
  unfolding submitted_world_def sample_people_def sample_onboarding_def
  by (rule run_steps) (auto intro: api_op.intros)

lemma review_decides_witness:
  "\<exists>a w'. reviewApplication ''pd'' 7 ''ap'' \<lparr>rad_decision = VERIFIED, rad_rejectionReason = None\<rparr> submitted_world
       = (Inr (verified_application 7 a), w') \<and> da_status a = UNDER_REVIEW \<and>
     map dp_userId (driverProfiles w') = [''d'']"
proof -
  have "map_option (\<lambda>a. (da_status a, da_userId a)) (lookup da_id ''ap'' (driverApplications submitted_world))
    = Some (UNDER_REVIEW, ''d'')" by code_simp
  then obtain a where a: "lookup da_id ''ap'' (driverApplications submitted_world) = Some a"
    "da_status a = UNDER_REVIEW" "da_userId a = ''d''" by auto
  have user: "lookup u_id ''d'' (users submitted_world) \<noteq> None" by code_simp
  have none: "driverProfiles submitted_world = []" by code_simp
  then have fresh: "''pd'' \<notin> dp_id ` set (driverProfiles submitted_world)" by simp
  have "user_exists (da_userId a) submitted_world" using user a(3) by simp
  from review_decides [OF reachable_submitted a(1) this fresh, of 7
      "\<lparr>rad_decision = VERIFIED, rad_rejectionReason = None\<rparr>"] a none show ?thesis
    by (auto simp: Let_def new_profile_def)
qed




end
