(* ===== verification/Wiring.thy ===== *)
theory Wiring
  imports Prelude
begin

section \<open>Wiring: the modules, what they provide and what their classes inject\<close>

text \<open>
  Models the \<open>@Module\<close> decorators (\<open>app.module.ts\<close> and every \<open>*.module.ts\<close>) and the constructors
  of the injectable classes. Nest starts an application only when every dependency of every class of a
  loaded module resolves: in the module itself, in the exports of a module it imports, or in those of
  a global module. What a module of a library exports, and whether it is global, is a parameter.
\<close>

datatype injectable =
    PrismaService | ConfigService | EventEmitter2 | REDIS_CLIENT | JwtService | HealthCheckService
  | Reflector | OfferExpiryQueue \<comment> \<open>\<open>@InjectQueue(OFFER_EXPIRY_QUEUE)\<close>\<close>
  | CacheService | SmsService | ConsoleSmsService | StorageService | LocalDiskStorageService
  | AuthService | JwtStrategy | UsersService | DriversService | DriverDocumentsService
  | DriverApplicationService | RideRequestsService | OffersService | OfferExpiryProcessor
  | TripsService | RatingsService | MatchingService | RealtimeGateway | TokenCleanupService
  | ThrottlerGuard | ResponseEnvelopeInterceptor | ActiveProfileGuard | RolesGuard | JwtAuthGuard

datatype controller =
    HealthController | AuthController | UsersController | DriversController
  | DriverApplicationController | RideRequestsController | TripsController | MatchingController
  | AdminController

datatype app_module_name =
    AppModule | HealthModule | AuthModule | UsersModule | DriversModule | DriverApplicationModule
  | RideRequestsModule | OffersModule | TripsModule | RatingsModule | MatchingModule | RealtimeModule
  | MaintenanceModule | AdminModule | QueuesModule | RedisModule | StorageModule | SmsModule
  | CacheModule | PrismaModule
  | ConfigModule | ThrottlerModule | EventEmitterModule | ScheduleModule | LoggerModule | BullModule
  | BullQueueModule \<comment> \<open>\<open>BullModule.registerQueue({ name: OFFER_EXPIRY_QUEUE })\<close>\<close>
  | PassportModule | JwtModule | TerminusModule

text \<open>A provider: a class under its own name, a class under another, a factory with its \<open>inject\<close>.\<close>

datatype provider =
    Class injectable
  | UseClass injectable injectable
  | UseFactory injectable "injectable list"

datatype export = Provided injectable | Module app_module_name

record module_def =
  md_global :: bool
  md_imports :: "app_module_name list"
  md_providers :: "provider list"
  md_controllers :: "controller list"
  md_exports :: "export list"

definition plain_module :: module_def where
  "plain_module =
     \<lparr>md_global = False, md_imports = [], md_providers = [], md_controllers = [], md_exports = []\<rparr>"

subsection \<open>The constructors\<close>

definition AuthService_deps :: "injectable list" where
  "AuthService_deps = [PrismaService, UsersService, SmsService, JwtService, ConfigService]"

definition JwtStrategy_deps :: "injectable list" where
  "JwtStrategy_deps = [ConfigService]"

definition UsersService_deps :: "injectable list" where
  "UsersService_deps = [PrismaService, DriversService]"

definition DriversService_deps :: "injectable list" where
  "DriversService_deps = [PrismaService, OffersService, CacheService, EventEmitter2]"

definition DriverDocumentsService_deps :: "injectable list" where
  "DriverDocumentsService_deps = [PrismaService, StorageService]"

definition DriverApplicationService_deps :: "injectable list" where
  "DriverApplicationService_deps = [PrismaService, DriverDocumentsService]"

definition RideRequestsService_deps :: "injectable list" where
  "RideRequestsService_deps = [PrismaService, MatchingService, EventEmitter2]"

definition OffersService_deps :: "injectable list" where
  "OffersService_deps = [PrismaService, ConfigService, EventEmitter2, OfferExpiryQueue]"

definition OfferExpiryProcessor_deps :: "injectable list" where
  "OfferExpiryProcessor_deps = [OffersService, EventEmitter2]"

definition TripsService_deps :: "injectable list" where
  "TripsService_deps = [PrismaService, EventEmitter2]"

definition RatingsService_deps :: "injectable list" where
  "RatingsService_deps = [PrismaService, UsersService]"

definition MatchingService_deps :: "injectable list" where
  "MatchingService_deps = [PrismaService, ConfigService]"

definition RealtimeGateway_deps :: "injectable list" where
  "RealtimeGateway_deps = [JwtService, DriversService, OffersService, ConfigService]"

definition TokenCleanupService_deps :: "injectable list" where
  "TokenCleanupService_deps = [PrismaService]"

definition CacheService_deps :: "injectable list" where
  "CacheService_deps = [REDIS_CLIENT]"

definition LocalDiskStorageService_deps :: "injectable list" where
  "LocalDiskStorageService_deps = [ConfigService]"

definition ActiveProfileGuard_deps :: "injectable list" where
  "ActiveProfileGuard_deps = [Reflector, PrismaService]"

definition RolesGuard_deps :: "injectable list" where
  "RolesGuard_deps = [Reflector]"

definition ResponseEnvelopeInterceptor_deps :: "injectable list" where
  "ResponseEnvelopeInterceptor_deps = [Reflector]"

primrec injected_deps :: "injectable \<Rightarrow> injectable list" where
  "injected_deps AuthService = AuthService_deps"
| "injected_deps JwtStrategy = JwtStrategy_deps"
| "injected_deps UsersService = UsersService_deps"
| "injected_deps DriversService = DriversService_deps"
| "injected_deps DriverDocumentsService = DriverDocumentsService_deps"
| "injected_deps DriverApplicationService = DriverApplicationService_deps"
| "injected_deps RideRequestsService = RideRequestsService_deps"
| "injected_deps OffersService = OffersService_deps"
| "injected_deps OfferExpiryProcessor = OfferExpiryProcessor_deps"
| "injected_deps TripsService = TripsService_deps"
| "injected_deps RatingsService = RatingsService_deps"
| "injected_deps MatchingService = MatchingService_deps"
| "injected_deps RealtimeGateway = RealtimeGateway_deps"
| "injected_deps TokenCleanupService = TokenCleanupService_deps"
| "injected_deps CacheService = CacheService_deps"
| "injected_deps LocalDiskStorageService = LocalDiskStorageService_deps"
| "injected_deps ActiveProfileGuard = ActiveProfileGuard_deps"
| "injected_deps RolesGuard = RolesGuard_deps"
| "injected_deps ResponseEnvelopeInterceptor = ResponseEnvelopeInterceptor_deps"
| "injected_deps ConsoleSmsService = []"
| "injected_deps PrismaService = []"
| "injected_deps JwtAuthGuard = []"
| "injected_deps ConfigService = []"
| "injected_deps EventEmitter2 = []"
| "injected_deps REDIS_CLIENT = []"
| "injected_deps JwtService = []"
| "injected_deps HealthCheckService = []"
| "injected_deps Reflector = []"
| "injected_deps OfferExpiryQueue = []"
| "injected_deps SmsService = []"
| "injected_deps StorageService = []"
| "injected_deps ThrottlerGuard = []"

text \<open>
  What a controller needs in its module: its own constructor, then the guards its decorators name,
  which Nest builds in the module of the controller.
\<close>

definition HealthController_deps :: "injectable list" where
  "HealthController_deps = [HealthCheckService, PrismaService, REDIS_CLIENT]"

definition AuthController_deps :: "injectable list" where
  "AuthController_deps = [AuthService]"

definition UsersController_deps :: "injectable list" where
  "UsersController_deps = [UsersService]"

definition DriversController_deps :: "injectable list" where
  "DriversController_deps = [DriversService]"

definition DriverApplicationController_deps :: "injectable list" where
  "DriverApplicationController_deps = [DriverApplicationService]"

definition RideRequestsController_deps :: "injectable list" where
  "RideRequestsController_deps = [RideRequestsService]"

definition TripsController_deps :: "injectable list" where
  "TripsController_deps = [TripsService, RatingsService]"

definition MatchingController_deps :: "injectable list" where
  "MatchingController_deps = [MatchingService]"

definition AdminController_deps :: "injectable list" where
  "AdminController_deps = [DriverApplicationService, DriverDocumentsService]"

primrec controller_deps :: "controller \<Rightarrow> injectable list" where
  "controller_deps HealthController = HealthController_deps"
| "controller_deps AuthController = AuthController_deps"
| "controller_deps UsersController = UsersController_deps"
| "controller_deps DriversController = DriversController_deps"
| "controller_deps DriverApplicationController = DriverApplicationController_deps"
| "controller_deps RideRequestsController = RideRequestsController_deps"
| "controller_deps TripsController = TripsController_deps"
| "controller_deps MatchingController = MatchingController_deps"
| "controller_deps AdminController = AdminController_deps"

primrec controller_guards :: "controller \<Rightarrow> injectable list" where
  "controller_guards HealthController = []"
| "controller_guards AuthController = [JwtAuthGuard]"
| "controller_guards UsersController = [JwtAuthGuard]"
| "controller_guards DriversController = [JwtAuthGuard, ActiveProfileGuard]"
| "controller_guards DriverApplicationController = [JwtAuthGuard]"
| "controller_guards RideRequestsController = [JwtAuthGuard, ActiveProfileGuard]"
| "controller_guards TripsController = [JwtAuthGuard, ActiveProfileGuard]"
| "controller_guards MatchingController = [JwtAuthGuard, ActiveProfileGuard]"
| "controller_guards AdminController = [JwtAuthGuard, RolesGuard]"

fun provided :: "provider \<Rightarrow> injectable" where
  "provided (Class c) = c"
| "provided (UseClass t c) = t"
| "provided (UseFactory t ds) = t"

fun provider_deps :: "provider \<Rightarrow> injectable list" where
  "provider_deps (Class c) = injected_deps c"
| "provider_deps (UseClass t c) = injected_deps c"
| "provider_deps (UseFactory t ds) = ds"

subsection \<open>The modules\<close>

definition app_module :: module_def where
  "app_module = plain_module
     \<lparr>md_imports :=
        [ConfigModule, ThrottlerModule, EventEmitterModule, ScheduleModule, LoggerModule, RedisModule,
         StorageModule, SmsModule, CacheModule, BullModule, PrismaModule, HealthModule, AuthModule,
         UsersModule, DriversModule, DriverApplicationModule, RideRequestsModule, OffersModule,
         TripsModule, MatchingModule, RealtimeModule, MaintenanceModule, AdminModule],
      md_providers := [Class ThrottlerGuard, Class ResponseEnvelopeInterceptor]\<rparr>"

definition health_module :: module_def where
  "health_module = plain_module
     \<lparr>md_imports := [TerminusModule], md_controllers := [HealthController]\<rparr>"

definition auth_module :: module_def where
  "auth_module = plain_module
     \<lparr>md_imports := [UsersModule, PassportModule, JwtModule], md_controllers := [AuthController],
      md_providers := [Class AuthService, Class JwtStrategy]\<rparr>"

definition users_module :: module_def where
  "users_module = plain_module
     \<lparr>md_imports := [DriversModule], md_controllers := [UsersController],
      md_providers := [Class UsersService], md_exports := [Provided UsersService]\<rparr>"

definition drivers_module :: module_def where
  "drivers_module = plain_module
     \<lparr>md_imports := [OffersModule], md_controllers := [DriversController],
      md_providers := [Class DriversService, Class DriverDocumentsService],
      md_exports := [Provided DriversService, Provided DriverDocumentsService]\<rparr>"

definition driver_application_module :: module_def where
  "driver_application_module = plain_module
     \<lparr>md_imports := [DriversModule], md_controllers := [DriverApplicationController],
      md_providers := [Class DriverApplicationService],
      md_exports := [Provided DriverApplicationService]\<rparr>"

definition ride_requests_module :: module_def where
  "ride_requests_module = plain_module
     \<lparr>md_imports := [MatchingModule], md_controllers := [RideRequestsController],
      md_providers := [Class RideRequestsService], md_exports := [Provided RideRequestsService]\<rparr>"

definition offers_module :: module_def where
  "offers_module = plain_module
     \<lparr>md_imports := [QueuesModule], md_providers := [Class OffersService, Class OfferExpiryProcessor],
      md_exports := [Provided OffersService]\<rparr>"

definition trips_module :: module_def where
  "trips_module = plain_module
     \<lparr>md_imports := [RatingsModule], md_controllers := [TripsController],
      md_providers := [Class TripsService]\<rparr>"

definition ratings_module :: module_def where
  "ratings_module = plain_module
     \<lparr>md_imports := [UsersModule], md_providers := [Class RatingsService],
      md_exports := [Provided RatingsService]\<rparr>"

definition matching_module :: module_def where
  "matching_module = plain_module
     \<lparr>md_controllers := [MatchingController], md_providers := [Class MatchingService],
      md_exports := [Provided MatchingService]\<rparr>"

definition realtime_module :: module_def where
  "realtime_module = plain_module
     \<lparr>md_imports := [DriversModule, OffersModule, JwtModule], md_providers := [Class RealtimeGateway]\<rparr>"

definition maintenance_module :: module_def where
  "maintenance_module = plain_module \<lparr>md_providers := [Class TokenCleanupService]\<rparr>"

definition admin_module :: module_def where
  "admin_module = plain_module
     \<lparr>md_imports := [DriversModule, DriverApplicationModule], md_controllers := [AdminController]\<rparr>"

definition queues_module :: module_def where
  "queues_module = plain_module
     \<lparr>md_imports := [BullQueueModule], md_exports := [Module BullQueueModule]\<rparr>"

definition redis_module :: module_def where
  "redis_module = plain_module
     \<lparr>md_global := True, md_imports := [ConfigModule],
      md_providers := [UseFactory REDIS_CLIENT [ConfigService]], md_exports := [Provided REDIS_CLIENT]\<rparr>"

definition storage_module :: module_def where
  "storage_module = plain_module
     \<lparr>md_global := True, md_providers := [UseClass StorageService LocalDiskStorageService],
      md_exports := [Provided StorageService]\<rparr>"

definition sms_module :: module_def where
  "sms_module = plain_module
     \<lparr>md_global := True, md_providers := [UseClass SmsService ConsoleSmsService],
      md_exports := [Provided SmsService]\<rparr>"

definition cache_module :: module_def where
  "cache_module = plain_module
     \<lparr>md_global := True, md_providers := [Class CacheService], md_exports := [Provided CacheService]\<rparr>"

definition prisma_module :: module_def where
  "prisma_module = plain_module
     \<lparr>md_global := True, md_providers := [Class PrismaService], md_exports := [Provided PrismaService]\<rparr>"

text \<open>\<open>lib\<close> gives the modules of the libraries.\<close>

fun the_module :: "(app_module_name \<Rightarrow> module_def) \<Rightarrow> app_module_name \<Rightarrow> module_def" where
  "the_module lib AppModule = app_module"
| "the_module lib HealthModule = health_module"
| "the_module lib AuthModule = auth_module"
| "the_module lib UsersModule = users_module"
| "the_module lib DriversModule = drivers_module"
| "the_module lib DriverApplicationModule = driver_application_module"
| "the_module lib RideRequestsModule = ride_requests_module"
| "the_module lib OffersModule = offers_module"
| "the_module lib TripsModule = trips_module"
| "the_module lib RatingsModule = ratings_module"
| "the_module lib MatchingModule = matching_module"
| "the_module lib RealtimeModule = realtime_module"
| "the_module lib MaintenanceModule = maintenance_module"
| "the_module lib AdminModule = admin_module"
| "the_module lib QueuesModule = queues_module"
| "the_module lib RedisModule = redis_module"
| "the_module lib StorageModule = storage_module"
| "the_module lib SmsModule = sms_module"
| "the_module lib CacheModule = cache_module"
| "the_module lib PrismaModule = prisma_module"
| "the_module lib n = lib n"

lemmas module_defs =
  plain_module_def app_module_def health_module_def auth_module_def users_module_def drivers_module_def
  driver_application_module_def ride_requests_module_def offers_module_def trips_module_def
  ratings_module_def matching_module_def realtime_module_def maintenance_module_def admin_module_def
  queues_module_def redis_module_def storage_module_def sms_module_def cache_module_def
  prisma_module_def

lemmas class_defs =
  AuthService_deps_def JwtStrategy_deps_def UsersService_deps_def DriversService_deps_def
  DriverDocumentsService_deps_def DriverApplicationService_deps_def RideRequestsService_deps_def
  OffersService_deps_def OfferExpiryProcessor_deps_def TripsService_deps_def RatingsService_deps_def
  MatchingService_deps_def RealtimeGateway_deps_def TokenCleanupService_deps_def CacheService_deps_def
  LocalDiskStorageService_deps_def ActiveProfileGuard_deps_def RolesGuard_deps_def
  ResponseEnvelopeInterceptor_deps_def
  HealthController_deps_def AuthController_deps_def UsersController_deps_def
  DriversController_deps_def DriverApplicationController_deps_def RideRequestsController_deps_def
  TripsController_deps_def MatchingController_deps_def AdminController_deps_def

text \<open>The modules of the repository, and what the documentation of the libraries' modules says.\<close>

definition own_modules :: "app_module_name list" where
  "own_modules =
     [AppModule, HealthModule, AuthModule, UsersModule, DriversModule, DriverApplicationModule,
      RideRequestsModule, OffersModule, TripsModule, RatingsModule, MatchingModule, RealtimeModule,
      MaintenanceModule, AdminModule, QueuesModule, RedisModule, StorageModule, SmsModule, CacheModule,
      PrismaModule]"

definition documented :: "(app_module_name \<Rightarrow> module_def) \<Rightarrow> bool" where
  "documented lib \<longleftrightarrow>
     md_global (lib ConfigModule) \<and> Provided ConfigService \<in> set (md_exports (lib ConfigModule)) \<and>
     md_global (lib EventEmitterModule) \<and> Provided EventEmitter2 \<in> set (md_exports (lib EventEmitterModule)) \<and>
     Provided JwtService \<in> set (md_exports (lib JwtModule)) \<and>
     Provided HealthCheckService \<in> set (md_exports (lib TerminusModule)) \<and>
     Provided OfferExpiryQueue \<in> set (md_exports (lib BullQueueModule))"

subsection \<open>Loading and resolution\<close>

inductive loaded :: "(app_module_name \<Rightarrow> module_def) \<Rightarrow> app_module_name \<Rightarrow> bool" for lib where
  root: "loaded lib AppModule"
| imported: "loaded lib m \<Longrightarrow> n \<in> set (md_imports (the_module lib m)) \<Longrightarrow> loaded lib n"

inductive exported :: "(app_module_name \<Rightarrow> module_def) \<Rightarrow> app_module_name \<Rightarrow> injectable \<Rightarrow> bool" for lib where
  provider: "Provided t \<in> set (md_exports (the_module lib m)) \<Longrightarrow> exported lib m t"
| reexport: "Module n \<in> set (md_exports (the_module lib m)) \<Longrightarrow> exported lib n t \<Longrightarrow> exported lib m t"

text \<open>The container itself provides the \<open>Reflector\<close>; a guard named by a decorator is built in place.\<close>

definition resolves :: "(app_module_name \<Rightarrow> module_def) \<Rightarrow> app_module_name \<Rightarrow> injectable \<Rightarrow> bool" where
  "resolves lib m t \<longleftrightarrow>
     t = Reflector \<or>
     t \<in> provided ` set (md_providers (the_module lib m)) \<or>
     (\<exists>n \<in> set (md_imports (the_module lib m)). exported lib n t) \<or>
     (\<exists>n. loaded lib n \<and> md_global (the_module lib n) \<and> exported lib n t)"

definition needs :: "(app_module_name \<Rightarrow> module_def) \<Rightarrow> app_module_name \<Rightarrow> injectable list" where
  "needs lib m =
     concat (map provider_deps (md_providers (the_module lib m))) @
     concat (map controller_deps (md_controllers (the_module lib m))) @
     concat (map (concat \<circ> map injected_deps \<circ> controller_guards) (md_controllers (the_module lib m)))"

end
