(* ===== verification/Router.thy ===== *)
theory Router
  imports Wiring Storage
begin

section \<open>Router: which handler answers which request\<close>

text \<open>
  Models the routing metadata: the decorators of the controllers, the global prefix of \<open>main.ts\<close> and
  the throttling defaults of \<open>app.module.ts\<close>. A path is the list of its segments; a segment of a
  template that starts with a colon is a parameter. Express tries the routes in order and takes the
  first whose method and template match.
\<close>

datatype http_method = GET | POST | PUT | PATCH | DELETE

datatype handler =
    Health_check
  | Auth_register | Auth_login | Auth_refresh | Auth_logout | Auth_forgotPassword | Auth_resetPassword
  | Auth_me
  | Users_setActiveProfile
  | Drivers_updateStatus | Drivers_updateLocation
  | DriverApplication_start | DriverApplication_getStatus | DriverApplication_submitPersonalInfo
  | DriverApplication_submitLicense | DriverApplication_submitVehicle
  | DriverApplication_uploadOptionalDocument | DriverApplication_listDocuments
  | RideRequests_create | RideRequests_findOne | RideRequests_cancel
  | Trips_start | Trips_complete | Trips_rate
  | Matching_nearbyDrivers
  | Admin_listApplications | Admin_review | Admin_listDocuments | Admin_downloadDocument

datatype segment = Literal string | Param string

text \<open>A template is the controller's path and the handler's, cut at the slashes.\<close>

definition path_segments :: "string \<Rightarrow> string list" where
  "path_segments path = filter (\<lambda>s. s \<noteq> []) (segments path)"

fun segment_of :: "string \<Rightarrow> segment" where
  "segment_of (c # name) = (if c = CHR '':'' then Param name else Literal (c # name))"
| "segment_of [] = Literal []"

definition template :: "string \<Rightarrow> string \<Rightarrow> segment list" where
  "template controller_path handler_path =
     map segment_of (path_segments controller_path @ path_segments handler_path)"

subsection \<open>Routes\<close>

text \<open>
  \<open>route_limit\<close> is the number of requests a client may make to the handler in
  \<open>throttle_ttl\<close> milliseconds, \<open>None\<close> under \<open>@SkipThrottle()\<close>; \<open>route_code\<close> is the status of a success.
\<close>

record route =
  route_handler :: handler
  route_method :: http_method
  route_path :: "segment list"
  route_jwt :: bool
  route_limit :: "nat option"
  route_code :: nat
  route_skipEnvelope :: bool

definition throttle_ttl :: int where "throttle_ttl = 60000"

definition throttle_default :: nat where "throttle_default = 20"

text \<open>The route of a handler without further decorators: \<open>controller_path\<close>, \<open>jwt\<close> and \<open>skip\<close> are the class's.\<close>

definition handles :: "string \<Rightarrow> bool \<Rightarrow> bool \<Rightarrow> handler \<Rightarrow> http_method \<Rightarrow> string \<Rightarrow> route" where
  "handles controller_path jwt skip h m path =
     \<lparr>route_handler = h, route_method = m, route_path = template controller_path path,
      route_jwt = jwt, route_limit = Some throttle_default, route_code = (if m = POST then 201 else 200),
      route_skipEnvelope = skip\<rparr>"

definition HealthController_routes :: "route list" where
  "HealthController_routes =
     (let on = handles ''health'' False True
      in [(on Health_check GET '''')\<lparr>route_limit := None\<rparr>])"

definition AuthController_routes :: "route list" where
  "AuthController_routes =
     (let on = handles ''auth'' False False
      in [(on Auth_register POST ''register'')\<lparr>route_limit := Some 5\<rparr>,
          (on Auth_login POST ''login'')\<lparr>route_limit := Some 10, route_code := 200\<rparr>,
          (on Auth_refresh POST ''refresh'')\<lparr>route_code := 200\<rparr>,
          (on Auth_logout POST ''logout'')\<lparr>route_code := 204\<rparr>,
          (on Auth_forgotPassword POST ''forgot-password'')\<lparr>route_limit := Some 3, route_code := 204\<rparr>,
          (on Auth_resetPassword POST ''reset-password'')\<lparr>route_limit := Some 5, route_code := 204\<rparr>,
          (on Auth_me GET ''me'')\<lparr>route_jwt := True\<rparr>])"

definition UsersController_routes :: "route list" where
  "UsersController_routes =
     (let on = handles ''user'' True False in [on Users_setActiveProfile PATCH ''active-profile''])"

definition DriversController_routes :: "route list" where
  "DriversController_routes =
     (let on = handles ''driver'' True False
      in [on Drivers_updateStatus PATCH ''status'', on Drivers_updateLocation PATCH ''location''])"

definition DriverApplicationController_routes :: "route list" where
  "DriverApplicationController_routes =
     (let on = handles ''driver-application'' True False
      in [on DriverApplication_start POST ''start'',
          on DriverApplication_getStatus GET ''status'',
          on DriverApplication_submitPersonalInfo POST ''personal-info'',
          on DriverApplication_submitLicense POST ''license'',
          on DriverApplication_submitVehicle POST ''vehicle'',
          on DriverApplication_uploadOptionalDocument POST ''documents'',
          on DriverApplication_listDocuments GET ''documents''])"

definition RideRequestsController_routes :: "route list" where
  "RideRequestsController_routes =
     (let on = handles ''ride-requests'' True False
      in [(on RideRequests_create POST '''')\<lparr>route_limit := Some 5\<rparr>,
          on RideRequests_findOne GET '':id'',
          on RideRequests_cancel POST '':id/cancel''])"

definition TripsController_routes :: "route list" where
  "TripsController_routes =
     (let on = handles ''trips'' True False
      in [on Trips_start PATCH '':id/start'',
          on Trips_complete PATCH '':id/complete'',
          on Trips_rate POST '':id/rating''])"

definition MatchingController_routes :: "route list" where
  "MatchingController_routes =
     (let on = handles ''matching'' True False
      in [(on Matching_nearbyDrivers GET ''nearby-drivers'')\<lparr>route_limit := Some 30\<rparr>])"

definition AdminController_routes :: "route list" where
  "AdminController_routes =
     (let on = handles ''admin/driver-applications'' True False
      in [on Admin_listApplications GET '''',
          on Admin_review PATCH '':id/review'',
          on Admin_listDocuments GET '':id/documents'',
          (on Admin_downloadDocument GET ''documents/:documentId/file'')\<lparr>route_skipEnvelope := True\<rparr>])"

primrec controller_routes :: "controller \<Rightarrow> route list" where
  "controller_routes HealthController = HealthController_routes"
| "controller_routes AuthController = AuthController_routes"
| "controller_routes UsersController = UsersController_routes"
| "controller_routes DriversController = DriversController_routes"
| "controller_routes DriverApplicationController = DriverApplicationController_routes"
| "controller_routes RideRequestsController = RideRequestsController_routes"
| "controller_routes TripsController = TripsController_routes"
| "controller_routes MatchingController = MatchingController_routes"
| "controller_routes AdminController = AdminController_routes"

lemmas route_defs =
  HealthController_routes_def AuthController_routes_def UsersController_routes_def
  DriversController_routes_def DriverApplicationController_routes_def RideRequestsController_routes_def
  TripsController_routes_def MatchingController_routes_def AdminController_routes_def

text \<open>\<open>setGlobalPrefix\<close>: every path but the excluded one.\<close>

definition prefixed :: "route \<Rightarrow> route" where
  "prefixed r =
     (if route_path r = [Literal ''health''] then r
      else r\<lparr>route_path := map segment_of (path_segments ''api/v1'') @ route_path r\<rparr>)"

text \<open>The controllers of the application's modules, in the order of the imports of \<open>AppModule\<close>.\<close>

definition app_controllers :: "controller list" where
  "app_controllers =
     [HealthController, AuthController, UsersController, DriversController, DriverApplicationController,
      RideRequestsController, TripsController, MatchingController, AdminController]"

definition routes :: "route list" where
  "routes = map prefixed (concat (map controller_routes app_controllers))"

subsection \<open>Dispatch\<close>

fun match_path :: "segment list \<Rightarrow> string list \<Rightarrow> string list option" where
  "match_path [] [] = Some []"
| "match_path (Literal s # ts) (p # ps) = (if p = s then match_path ts ps else None)"
| "match_path (Param n # ts) (p # ps) = map_option (Cons p) (match_path ts ps)"
| "match_path _ _ = None"

definition route_match :: "route \<Rightarrow> http_method \<Rightarrow> string list \<Rightarrow> string list option" where
  "route_match r m ps = (if route_method r = m then match_path (route_path r) ps else None)"

fun dispatch :: "route list \<Rightarrow> http_method \<Rightarrow> string list \<Rightarrow> (route \<times> string list) option" where
  "dispatch [] m ps = None"
| "dispatch (r # rs) m ps =
     (case route_match r m ps of
        Some params \<Rightarrow> Some (r, params)
      | None \<Rightarrow> dispatch rs m ps)"

text \<open>The path of a template with its parameters filled in.\<close>

fun fill :: "segment list \<Rightarrow> string list \<Rightarrow> string list" where
  "fill (Literal s # ts) params = s # fill ts params"
| "fill (Param n # ts) (p # params) = p # fill ts params"
| "fill _ _ = []"

definition arity :: "segment list \<Rightarrow> nat" where
  "arity ts = length (filter (\<lambda>s. case s of Param n \<Rightarrow> True | Literal l \<Rightarrow> False) ts)"

lemma match_path_length: "match_path ts ps = Some qs \<Longrightarrow> length ts = length ps \<and> length qs = arity ts"
  by (induction ts ps arbitrary: qs rule: match_path.induct) (auto simp: arity_def split: if_splits)

lemma match_path_fill: "length params = arity ts \<Longrightarrow> match_path ts (fill ts params) = Some params"
  by (induction ts params rule: fill.induct) (auto simp: arity_def length_Suc_conv split: segment.splits)

lemma fill_match_path: "match_path ts ps = Some qs \<Longrightarrow> fill ts qs = ps"
  by (induction ts ps arbitrary: qs rule: match_path.induct) (auto split: if_splits)

text \<open>Two templates that no path matches: of different length, or with different literals somewhere.\<close>

fun apart :: "segment list \<Rightarrow> segment list \<Rightarrow> bool" where
  "apart [] [] = False"
| "apart (Literal s # ts) (Literal t # us) = (s \<noteq> t \<or> apart ts us)"
| "apart (s # ts) (t # us) = apart ts us"
| "apart _ _ = True"

lemma both_match_not_apart:
  "match_path ts ps \<noteq> None \<Longrightarrow> match_path us ps \<noteq> None \<Longrightarrow> \<not> apart ts us"
proof (induction ps arbitrary: ts us)
  case Nil
  have "ts = []" if "match_path ts [] \<noteq> None" for ts
    using that by (cases ts rule: list.exhaust) (simp, metis match_path.simps(4,5) segment.exhaust)
  with Nil have "ts = []" "us = []" by blast+
  then show ?case by simp
next
  case (Cons p ps)
  have uncons: "\<exists>s ss. ts = s # ss \<and> (case s of Literal l \<Rightarrow> l = p | Param n \<Rightarrow> True) \<and> match_path ss ps \<noteq> None"
    if "match_path ts (p # ps) \<noteq> None" for ts
  proof (cases ts)
    case (Cons s ss)
    with that show ?thesis by (cases s) (auto split: if_splits)
  qed (use that in simp)
  from uncons [OF Cons.prems(1)] uncons [OF Cons.prems(2)] obtain s ss u uu where
    ts: "ts = s # ss" "match_path ss ps \<noteq> None" "case s of Literal l \<Rightarrow> l = p | Param n \<Rightarrow> True" and
    us: "us = u # uu" "match_path uu ps \<noteq> None" "case u of Literal l \<Rightarrow> l = p | Param n \<Rightarrow> True"
    by blast
  have "\<not> apart ss uu" by (rule Cons.IH [OF ts(2) us(2)])
  with ts us show ?case by (cases s; cases u) simp_all
qed

lemma apart_no_match: "apart ts us \<Longrightarrow> match_path ts ps = Some qs \<Longrightarrow> match_path us ps = None"
  using both_match_not_apart [of ts ps us] by (cases "match_path us ps") simp_all

fun unambiguous :: "route list \<Rightarrow> bool" where
  "unambiguous [] = True"
| "unambiguous (r # rs) =
     (list_all (\<lambda>r'. route_method r = route_method r' \<longrightarrow> apart (route_path r) (route_path r')) rs \<and>
      unambiguous rs)"

lemma dispatch_Some:
  assumes "dispatch rs m ps = Some (r, qs)"
  shows "r \<in> set rs" "route_method r = m" "match_path (route_path r) ps = Some qs"
proof -
  have "r \<in> set rs \<and> route_match r m ps = Some qs"
    using assms by (induction rs) (simp, fastforce split: option.splits)
  then show "r \<in> set rs" "route_method r = m" "match_path (route_path r) ps = Some qs"
    by (auto simp: route_match_def split: if_splits)
qed

lemma dispatch_unambiguous:
  assumes "unambiguous rs" "r \<in> set rs" "match_path (route_path r) ps = Some qs"
  shows "dispatch rs (route_method r) ps = Some (r, qs)"
  using assms
proof (induction rs)
  case (Cons r' rs)
  show ?case
  proof (cases "r = r'")
    case False
    with Cons.prems have r: "r \<in> set rs" by simp
    with Cons.prems(1) have "route_method r' = route_method r \<longrightarrow> apart (route_path r') (route_path r)"
      by (auto simp: list_all_iff)
    then have "route_match r' (route_method r) ps = None"
      using both_match_not_apart [of "route_path r'" ps "route_path r"] Cons.prems(3)
      by (cases "match_path (route_path r') ps") (simp_all add: route_match_def)
    with Cons.IH Cons.prems r show ?thesis by simp
  qed (use Cons.prems in \<open>simp add: route_match_def\<close>)
qed simp

end
