(* ===== verification/Health.thy ===== *)
theory Health
  imports World
begin

section \<open>Health: the probe of the infrastructure\<close>

text \<open>
  Models \<open>health/health.controller.ts\<close>. A ping of Postgres or Redis answers, fails, or never
  settles (\<open>None\<close>), and so does the probe, which waits for both. What Terminus makes of the indicators
  is a parameter: a result, or the \<open>ServiceUnavailableException\<close> it throws.
\<close>

record HealthCheckResult =
  hc_status :: string
  hc_info :: "(string \<times> bool) list"
  hc_error :: "(string \<times> bool) list"
  hc_details :: "(string \<times> bool) list"

definition checkDatabase :: "bool option \<Rightarrow> (string \<times> bool) option" where
  "checkDatabase ping = map_option (\<lambda>up. (''database'', up)) ping"

definition checkRedis :: "bool option \<Rightarrow> (string \<times> bool) option" where
  "checkRedis ping = map_option (\<lambda>up. (''redis'', up)) ping"

definition HealthController_check ::
  "((string \<times> bool) list \<Rightarrow> error + HealthCheckResult) \<Rightarrow> bool option \<Rightarrow> bool option \<Rightarrow>
   (error + HealthCheckResult) option" where
  "HealthController_check terminus database cache =
     (case (checkDatabase database, checkRedis cache) of
        (Some d, Some r) \<Rightarrow> Some (terminus [d, r])
      | _ \<Rightarrow> None)"

end
