(* ===== verification/Http.thy ===== *)
theory Http
  imports Router Health Endpoints
begin

section \<open>Http: a request from the socket to the response\<close>

text \<open>
  Composes the HTTP layer in Nest's order: routing, the throttle, the JWT guard, the handler of
  Endpoints behind its other guards and its pipe, the envelope or the error filter. \<open>payload\<close> is what
  class-transformer made of the body, form or query for the class a handler declares; one of another
  class than the handler's has missing or forbidden properties and the pipe refuses it.
\<close>

datatype payload =
    NoPayload
  | RegisterBody RegisterDto
  | LoginBody LoginDto
  | RefreshTokenBody string
  | ForgotPasswordBody string
  | ResetPasswordBody ResetPasswordDto
  | ActiveProfileBody ActiveProfile
  | StatusBody bool
  | LocationBody real real
  | PersonalInfoBody SubmitPersonalInfoDto
  | LicenseForm SubmitLicenseDto "UploadableFile option"
  | VehicleForm SubmitVehicleDto VehicleFiles
  | DocumentForm DriverDocumentType "UploadableFile option"
  | CreateRideRequestBody CreateRideRequestDto
  | CancelRideRequestBody "string option"
  | RateTripBody RateTripDto
  | NearbyDriversQuery real real "real option"
  | ListApplicationsQuery "DriverApplicationStatus option"
  | ReviewBody ReviewApplicationDto

datatype reply =
    NoReply
  | HealthReply HealthCheckResult
  | TokenPairReply TokenPairResponse
  | UserReply UserResponse
  | ActiveProfileReply ActiveProfileResponse
  | DriverStatusReply DriverStatusResponse
  | DriverLocationReply DriverLocationResponse
  | ApplicationReply DriverApplicationResponse
  | ApplicationStatusReply DriverApplicationStatusResponse
  | ApplicationsReply "DriverApplicationResponse list"
  | DocumentReply DriverDocumentResponse
  | DocumentsReply "DriverDocumentResponse list"
  | FileReply "string \<times> string \<times> string"
  | RideRequestReply RideRequestResponse
  | TripReply TripResponse
  | RatingReply RatingResponse
  | NearbyDriversReply "NearbyDriverResponse list"

record http_request =
  rq_method :: http_method
  rq_url :: string
  rq_path :: "string list"
  rq_ip :: string
  rq_token :: "string option" \<comment> \<open>the bearer token of the \<open>Authorization\<close> header\<close>
  rq_payload :: payload

text \<open>The identifiers and secrets generated while the request runs.\<close>

record generated =
  gn_id :: string
  gn_userId :: string
  gn_uuid :: string
  gn_documents :: "DriverDocumentType \<Rightarrow> string \<times> string"
  gn_salt :: string
  gn_refreshToken :: string
  gn_code :: string

text \<open>
  Library code: \<open>passport-jwt\<close> checks signature and expiry of a token, \<open>@nestjs/throttler\<close> counts the
  calls of a client (its own state \<open>'t\<close>) and admits or refuses one, Terminus sums up the indicators.
\<close>

record 't http_env =
  he_api :: api_env
  he_verify :: "string \<Rightarrow> int \<Rightarrow> JwtPayload option"
  he_throttle :: "handler \<Rightarrow> string \<Rightarrow> nat \<Rightarrow> int \<Rightarrow> int \<Rightarrow> 't \<Rightarrow> bool \<times> 't" \<comment> \<open>handler, client, limit, ttl, now\<close>
  he_terminus :: "(string \<times> bool) list \<Rightarrow> error + HealthCheckResult"
  he_database :: "bool option"
  he_redis :: "bool option"

subsection \<open>Guards in front of the handler\<close>

definition jwt_guard ::
  "(string \<Rightarrow> int \<Rightarrow> JwtPayload option) \<Rightarrow> int \<Rightarrow> string option \<Rightarrow> error + AuthenticatedUser" where
  "jwt_guard verify now token =
     (case token of
        None \<Rightarrow> Inl unauthorized
      | Some t \<Rightarrow>
          (case verify t now of
             None \<Rightarrow> Inl unauthorized
           | Some payload \<Rightarrow> jwt_validate payload))"

definition throttle_guard ::
  "'t http_env \<Rightarrow> route \<Rightarrow> string \<Rightarrow> int \<Rightarrow> 't \<Rightarrow> bool \<times> 't" where
  "throttle_guard he r ip now t =
     (case route_limit r of
        None \<Rightarrow> (True, t)
      | Some limit \<Rightarrow> he_throttle he (route_handler r) ip limit throttle_ttl now t)"

text \<open>\<open>@CurrentUser()\<close> is undefined when no guard has set it; the handlers read its \<open>userId\<close>.\<close>

definition CurrentUser ::
  "AuthenticatedUser option \<Rightarrow> (AuthenticatedUser \<Rightarrow> world \<Rightarrow> 'a result) \<Rightarrow> world \<Rightarrow> 'a result" where
  "CurrentUser user k w = (case user of None \<Rightarrow> (Inl TypeError, w) | Some u \<Rightarrow> k u w)"

definition Params :: "string list \<Rightarrow> string" where
  "Params params = (case params of [] \<Rightarrow> [] | p # _ \<Rightarrow> p)"

definition malformed :: "world \<Rightarrow> 'a result" where
  "malformed w = (Inl (BadRequestException ''Bad Request Exception''), w)"

subsection \<open>The handlers\<close>

text \<open>
  A multipart form arrives as the class of its fields together with its files; a form whose fields are
  malformed is refused by the file filter or by the pipe, with 400 either way.
  A handler returns \<open>None\<close> when it never answers, which only the probe can do.
\<close>

primrec handle ::
  "api_env \<Rightarrow> (error + HealthCheckResult) option \<Rightarrow> generated \<Rightarrow> int \<Rightarrow> handler \<Rightarrow>
   AuthenticatedUser option \<Rightarrow> string list \<Rightarrow> payload \<Rightarrow> world \<Rightarrow> reply result option" where
  "handle env probe gn now Health_check user params p w =
     map_option (\<lambda>r. (map_sum id HealthReply r, w)) probe"
| "handle env probe gn now Auth_register user params p w =
     Some (case p of
          RegisterBody dto \<Rightarrow>
            map_result TokenPairReply
              (AuthController_register env (gn_salt gn) (gn_userId gn) (gn_id gn) (gn_refreshToken gn) now dto w)
        | _ \<Rightarrow> malformed w)"
| "handle env probe gn now Auth_login user params p w =
     Some (case p of
          LoginBody dto \<Rightarrow>
            map_result TokenPairReply
              (AuthController_login env (gn_id gn) (gn_refreshToken gn) now dto w)
        | _ \<Rightarrow> malformed w)"
| "handle env probe gn now Auth_refresh user params p w =
     Some (case p of
          RefreshTokenBody token \<Rightarrow>
            map_result TokenPairReply
              (AuthController_refresh env (gn_id gn) (gn_refreshToken gn) now token w)
        | _ \<Rightarrow> malformed w)"
| "handle env probe gn now Auth_logout user params p w =
     Some (case p of
          RefreshTokenBody token \<Rightarrow>
            map_result (\<lambda>_. NoReply) (AuthController_logout env now token w)
        | _ \<Rightarrow> malformed w)"
| "handle env probe gn now Auth_forgotPassword user params p w =
     Some (case p of
          ForgotPasswordBody phone \<Rightarrow>
            map_result (\<lambda>_. NoReply)
              (AuthController_forgotPassword env (gn_id gn) (gn_code gn) now phone w)
        | _ \<Rightarrow> malformed w)"
| "handle env probe gn now Auth_resetPassword user params p w =
     Some (case p of
          ResetPasswordBody dto \<Rightarrow>
            map_result (\<lambda>_. NoReply) (AuthController_resetPassword env (gn_salt gn) now dto w)
        | _ \<Rightarrow> malformed w)"
| "handle env probe gn now Auth_me user params p w =
     Some (CurrentUser user (\<lambda>u w.
        map_result UserReply (AuthController_me u w)) w)"
| "handle env probe gn now Users_setActiveProfile user params p w =
     Some (CurrentUser user (\<lambda>u w.
        case p of
          ActiveProfileBody profile \<Rightarrow>
            map_result ActiveProfileReply (UsersController_setActiveProfile env now u profile w)
        | _ \<Rightarrow> malformed w) w)"
| "handle env probe gn now Drivers_updateStatus user params p w =
     Some (CurrentUser user (\<lambda>u w.
        case p of
          StatusBody isOnline \<Rightarrow>
            map_result DriverStatusReply (DriversController_updateStatus now u isOnline w)
        | _ \<Rightarrow> with_profile (Some DRIVER) u malformed w) w)"
| "handle env probe gn now Drivers_updateLocation user params p w =
     Some (CurrentUser user (\<lambda>u w.
        case p of
          LocationBody lat lng \<Rightarrow>
            map_result DriverLocationReply (DriversController_updateLocation now u lat lng w)
        | _ \<Rightarrow> with_profile (Some DRIVER) u malformed w) w)"
| "handle env probe gn now DriverApplication_start user params p w =
     Some (CurrentUser user (\<lambda>u w.
        map_result ApplicationReply (DriverApplicationController_start (gn_id gn) now u w)) w)"
| "handle env probe gn now DriverApplication_getStatus user params p w =
     Some (CurrentUser user (\<lambda>u w.
        map_result ApplicationStatusReply (DriverApplicationController_getStatus u w)) w)"
| "handle env probe gn now DriverApplication_submitPersonalInfo user params p w =
     Some (CurrentUser user (\<lambda>u w.
        case p of
          PersonalInfoBody dto \<Rightarrow>
            map_result ApplicationReply
              (DriverApplicationController_submitPersonalInfo env now u dto w)
        | _ \<Rightarrow> malformed w) w)"
| "handle env probe gn now DriverApplication_submitLicense user params p w =
     Some (CurrentUser user (\<lambda>u w.
        case p of
          LicenseForm dto licenseImage \<Rightarrow>
            map_result ApplicationReply
              (DriverApplicationController_submitLicense env (gn_id gn) (gn_uuid gn) now u dto licenseImage w)
        | _ \<Rightarrow> malformed w) w)"
| "handle env probe gn now DriverApplication_submitVehicle user params p w =
     Some (CurrentUser user (\<lambda>u w.
        case p of
          VehicleForm dto files \<Rightarrow>
            map_result ApplicationReply
              (DriverApplicationController_submitVehicle env (gn_documents gn) now u dto files w)
        | _ \<Rightarrow> malformed w) w)"
| "handle env probe gn now DriverApplication_uploadOptionalDocument user params p w =
     Some (CurrentUser user (\<lambda>u w.
        case p of
          DocumentForm type fl \<Rightarrow>
            map_result DocumentReply
              (DriverApplicationController_uploadOptionalDocument env (gn_id gn) (gn_uuid gn) now u type fl w)
        | _ \<Rightarrow> malformed w) w)"
| "handle env probe gn now DriverApplication_listDocuments user params p w =
     Some (CurrentUser user (\<lambda>u w.
        map_result DocumentsReply (DriverApplicationController_listDocuments u w)) w)"
| "handle env probe gn now RideRequests_create user params p w =
     Some (CurrentUser user (\<lambda>u w.
        case p of
          CreateRideRequestBody dto \<Rightarrow>
            map_result RideRequestReply (RideRequestsController_create env (gn_id gn) now u dto w)
        | _ \<Rightarrow> with_profile (Some RIDER) u malformed w) w)"
| "handle env probe gn now RideRequests_findOne user params p w =
     Some (CurrentUser user (\<lambda>u w.
        map_result RideRequestReply (RideRequestsController_findOne env u (Params params) w)) w)"
| "handle env probe gn now RideRequests_cancel user params p w =
     Some (CurrentUser user (\<lambda>u w.
        case p of
          CancelRideRequestBody reason \<Rightarrow>
            map_result RideRequestReply
              (RideRequestsController_cancel env now u (Params params) reason w)
        | _ \<Rightarrow> malformed w) w)"
| "handle env probe gn now Trips_start user params p w =
     Some (CurrentUser user (\<lambda>u w.
        map_result TripReply (TripsController_start env now u (Params params) w)) w)"
| "handle env probe gn now Trips_complete user params p w =
     Some (CurrentUser user (\<lambda>u w.
        map_result TripReply (TripsController_complete env now u (Params params) w)) w)"
| "handle env probe gn now Trips_rate user params p w =
     Some (CurrentUser user (\<lambda>u w.
        case p of
          RateTripBody dto \<Rightarrow>
            map_result RatingReply (TripsController_rate env (gn_id gn) now u (Params params) dto w)
        | _ \<Rightarrow> malformed w) w)"
| "handle env probe gn now Matching_nearbyDrivers user params p w =
     Some (CurrentUser user (\<lambda>u w.
        case p of
          NearbyDriversQuery lat lng radiusKm \<Rightarrow>
            map_result NearbyDriversReply (MatchingController_nearbyDrivers env u lat lng radiusKm w)
        | _ \<Rightarrow> with_profile (Some RIDER) u malformed w) w)"
| "handle env probe gn now Admin_listApplications user params p w =
     Some (CurrentUser user (\<lambda>u w.
        case p of
          ListApplicationsQuery status \<Rightarrow>
            map_result ApplicationsReply (AdminController_listApplications u status w)
        | _ \<Rightarrow> with_roles (Some [ADMIN]) u malformed w) w)"
| "handle env probe gn now Admin_review user params p w =
     Some (CurrentUser user (\<lambda>u w.
        case p of
          ReviewBody dto \<Rightarrow>
            map_result ApplicationReply
              (AdminController_review env (gn_id gn) now u (Params params) dto w)
        | _ \<Rightarrow> with_roles (Some [ADMIN]) u malformed w) w)"
| "handle env probe gn now Admin_listDocuments user params p w =
     Some (CurrentUser user (\<lambda>u w.
        map_result DocumentsReply (AdminController_listDocuments env u (Params params) w)) w)"
| "handle env probe gn now Admin_downloadDocument user params p w =
     Some (CurrentUser user (\<lambda>u w.
        map_result FileReply (AdminController_downloadDocument env u (Params params) w)) w)"

subsection \<open>The response\<close>

datatype body =
    EmptyBody
  | ErrorBody error_body
  | EnvelopeBody "reply success_body"
  | BareBody reply

record http_reply =
  hr_status :: nat
  hr_body :: body

definition refused :: "string \<Rightarrow> int \<Rightarrow> error \<Rightarrow> http_reply" where
  "refused url now e = \<lparr>hr_status = http_status e, hr_body = ErrorBody (http_response url now e)\<rparr>"

text \<open>\<open>NoReply\<close> is a handler's \<open>undefined\<close>; the file of a download has been sent when the handler returns.\<close>

definition respond :: "route \<Rightarrow> string \<Rightarrow> int \<Rightarrow> error + reply \<Rightarrow> http_reply" where
  "respond r url now result =
     (case result of
        Inl e \<Rightarrow> refused url now e
      | Inr d \<Rightarrow>
          \<lparr>hr_status = route_code r,
           hr_body =
             (case http_envelope (route_skipEnvelope r) (case d of FileReply _ \<Rightarrow> True | _ \<Rightarrow> False) None
                     (route_code r) url now (if d = NoReply then None else Some d) of
                Inl None \<Rightarrow> EmptyBody
              | Inl (Some x) \<Rightarrow> BareBody x
              | Inr b \<Rightarrow> EnvelopeBody b)\<rparr>)"

fun method_name :: "http_method \<Rightarrow> string" where
  "method_name GET = ''GET''"
| "method_name POST = ''POST''"
| "method_name PUT = ''PUT''"
| "method_name PATCH = ''PATCH''"
| "method_name DELETE = ''DELETE''"

text \<open>Nest's answer when no route matches, and the throttler's.\<close>

definition not_found :: "http_request \<Rightarrow> int \<Rightarrow> http_reply" where
  "not_found rq now =
     refused (rq_url rq) now (NotFoundException (''Cannot '' @ method_name (rq_method rq) @ '' '' @ rq_url rq))"

definition too_many_requests :: "string \<Rightarrow> int \<Rightarrow> http_reply" where
  "too_many_requests url now =
     \<lparr>hr_status = 429,
      hr_body = ErrorBody \<lparr>eb_statusCode = 429, eb_message = ''ThrottlerException: Too Many Requests'',
        eb_error = ''ThrottlerException'', eb_path = url, eb_timestamp = now\<rparr>\<rparr>"

definition serve ::
  "'t http_env \<Rightarrow> generated \<Rightarrow> int \<Rightarrow> http_request \<Rightarrow> 't \<times> world \<Rightarrow> (http_reply \<times> 't \<times> world) option" where
  "serve he gn now rq tw =
     (let (t, w) = tw; url = rq_url rq
      in case dispatch routes (rq_method rq) (rq_path rq) of
           None \<Rightarrow> Some (not_found rq now, t, w)
         | Some (r, params) \<Rightarrow>
             (case throttle_guard he r (rq_ip rq) now t of
                (False, t1) \<Rightarrow> Some (too_many_requests url now, t1, w)
              | (True, t1) \<Rightarrow>
                  (case (if route_jwt r then map_sum id Some (jwt_guard (he_verify he) now (rq_token rq))
                         else Inr None) of
                     Inl e \<Rightarrow> Some (refused url now e, t1, w)
                   | Inr user \<Rightarrow>
                       map_option (\<lambda>(result, w1). (respond r url now result, t1, w1))
                         (handle (he_api he)
                            (HealthController_check (he_terminus he) (he_database he) (he_redis he))
                            gn now (route_handler r) user params (rq_payload rq) w))))"

end
