(* ===== verification/HttpSpecs.thy ===== *)
theory HttpSpecs
  imports Http Columns
begin

section \<open>HttpSpecs: what the HTTP layer guarantees\<close>

text \<open>
  The route table finds every handler; a request is an operation of the backend or changes nothing;
  what the guards keep out.
\<close>

subsection \<open>The route table\<close>

lemma routes_unambiguous: "unambiguous routes"
  by code_simp

lemma route_handlers: "distinct (map route_handler routes)" "h \<in> route_handler ` set routes"
proof -
  show "distinct (map route_handler routes)" by code_simp
  have "list_all (\<lambda>h. h \<in> set (map route_handler routes)) [Health_check, Auth_register, Auth_login,
      Auth_refresh, Auth_logout, Auth_forgotPassword, Auth_resetPassword, Auth_me, Users_setActiveProfile,
      Drivers_updateStatus, Drivers_updateLocation, DriverApplication_start, DriverApplication_getStatus,
      DriverApplication_submitPersonalInfo, DriverApplication_submitLicense, DriverApplication_submitVehicle,
      DriverApplication_uploadOptionalDocument, DriverApplication_listDocuments, RideRequests_create,
      RideRequests_findOne, RideRequests_cancel, Trips_start, Trips_complete, Trips_rate,
      Matching_nearbyDrivers, Admin_listApplications, Admin_review, Admin_listDocuments,
      Admin_downloadDocument]"
    by code_simp
  then show "h \<in> route_handler ` set routes" by (cases h) simp_all
qed

text \<open>What the decorators say of a route, read off the table.\<close>

definition public_handlers :: "handler list" where
  "public_handlers =
     [Health_check, Auth_register, Auth_login, Auth_refresh, Auth_logout, Auth_forgotPassword,
      Auth_resetPassword]"

definition admin_handlers :: "handler list" where
  "admin_handlers = [Admin_listApplications, Admin_review, Admin_listDocuments, Admin_downloadDocument]"

definition reading_handlers :: "handler list" where
  "reading_handlers =
     [Health_check, Auth_me, DriverApplication_getStatus, DriverApplication_listDocuments,
      RideRequests_findOne, Matching_nearbyDrivers, Admin_listApplications, Admin_listDocuments,
      Admin_downloadDocument]"

lemma route_facts:
  assumes "r \<in> set routes"
  shows "route_jwt r \<longleftrightarrow> route_handler r \<notin> set public_handlers"
    and "route_method r = GET \<longleftrightarrow> route_handler r \<in> set reading_handlers"
    and "200 \<le> route_code r \<and> route_code r < 300"
proof -
  have "list_all (\<lambda>r. (route_jwt r \<longleftrightarrow> route_handler r \<notin> set public_handlers) \<and>
      (route_method r = GET \<longleftrightarrow> route_handler r \<in> set reading_handlers) \<and>
      200 \<le> route_code r \<and> route_code r < 300) routes"
    by code_simp
  with assms show "route_jwt r \<longleftrightarrow> route_handler r \<notin> set public_handlers"
    "route_method r = GET \<longleftrightarrow> route_handler r \<in> set reading_handlers"
    "200 \<le> route_code r \<and> route_code r < 300"
    by (auto simp: list_all_iff)
qed

text \<open>
  C30: the routing is unambiguous and complete. Every handler has a route; its path with any values of
  the parameters is dispatched to it and the values arrive, so no route shadows another (an
  application with the identifier \<open>documents\<close> included); and whatever is dispatched is the path of the
  route with those values.
\<close>

theorem every_route_is_reached:
  "(\<forall>h. \<exists>r \<in> set routes. route_handler r = h) \<and>
   (\<forall>r \<in> set routes. \<forall>values. length values = arity (route_path r) \<longrightarrow>
      dispatch routes (route_method r) (fill (route_path r) values) = Some (r, values)) \<and>
   (\<forall>m path r values. dispatch routes m path = Some (r, values) \<longrightarrow>
      r \<in> set routes \<and> route_method r = m \<and> fill (route_path r) values = path)"
proof (intro conjI allI ballI impI)
  fix h
  show "\<exists>r \<in> set routes. route_handler r = h" using route_handlers(2) [of h] by force
next
  fix r :: route and vs :: "string list" assume "r \<in> set routes" "length vs = arity (route_path r)"
  then show "dispatch routes (route_method r) (fill (route_path r) vs) = Some (r, vs)"
    by (simp add: dispatch_unambiguous [OF routes_unambiguous] match_path_fill)
next
  fix m path r vs assume d: "dispatch routes m path = Some (r, vs)"
  show "r \<in> set routes" "route_method r = m" "fill (route_path r) vs = path"
    using dispatch_Some [OF d] by (simp_all add: fill_match_path)
qed

lemma every_route_is_reached_witness:
  "route_handler (routes ! 27) = Admin_listDocuments \<and>
   dispatch routes GET [''api'', ''v1'', ''admin'', ''driver-applications'', ''documents'', ''documents''] =
     Some (routes ! 27, [''documents''])"
proof -
  have "27 < length routes" "length [''documents''] = arity (route_path (routes ! 27))" by code_simp+
  then have "dispatch routes (route_method (routes ! 27)) (fill (route_path (routes ! 27)) [''documents'']) =
      Some (routes ! 27, [''documents''])"
    using every_route_is_reached nth_mem by blast
  moreover have "route_handler (routes ! 27) = Admin_listDocuments" "route_method (routes ! 27) = GET"
    "fill (route_path (routes ! 27)) [''documents''] =
       [''api'', ''v1'', ''admin'', ''driver-applications'', ''documents'', ''documents'']"
    by code_simp+
  ultimately show ?thesis by simp
qed

subsection \<open>Requests are operations\<close>

lemma snd_CurrentUser: "snd (CurrentUser user k w) = (case user of None \<Rightarrow> w | Some u \<Rightarrow> snd (k u w))"
  by (simp add: CurrentUser_def split: option.split)

lemma snd_malformed [simp]: "snd (malformed w) = w"
  by (simp add: malformed_def)

text \<open>The handlers that only look.\<close>

definition same_world :: "world \<Rightarrow> world \<Rightarrow> bool" where
  "same_world w w' \<longleftrightarrow> w' = w"

interpretation same_world: handler_relation same_world
  by unfold_locales (simp add: same_world_def)

lemma same_world_view: "same_world w (snd (findOneForUser i u w))"
  by (simp add: same_world_def findOneForUser_def split: sum.splits)

lemma same_world_reads: "same_world w (snd (reads f w))"
  by (simp add: same_world_def reads_def)

lemma same_world_malformed: "same_world w (snd (malformed w))"
  by (simp add: same_world_def)

lemmas same_world_rules =
  same_world.guards same_world.unchanged same_world_view same_world_reads same_world_malformed

lemma reading_handlers_keep:
  assumes "handle env probe gn now h user params p w = Some rw" "h \<in> set reading_handlers"
  shows "snd rw = w"
proof -
  have "same_world w (snd rw)"
    using assms by (auto simp: reading_handlers_def snd_CurrentUser endpoint_defs same_world_rules
        split: option.split payload.split)
  then show ?thesis by (simp add: same_world_def)
qed

text \<open>Every handler runs one operation of the backend, or nothing.\<close>

definition operates :: "api_env \<Rightarrow> world \<Rightarrow> world \<Rightarrow> bool" where
  "operates env w w' \<longleftrightarrow> w' = w \<or> system_step env w w'"

interpretation operates: handler_relation "operates env" for env
  by unfold_locales (simp add: operates_def)

lemma operates_op: "api_op env f \<Longrightarrow> f w = w' \<Longrightarrow> operates env w w'"
  by (auto simp: operates_def system_step_def)

lemmas operates_ops =
  api_op.intros(1-6,10,11,14-26) [THEN operates_op, OF refl]

lemma operates_malformed: "operates env w (snd (malformed w))"
  by (simp add: operates_def)

lemma handle_operates:
  assumes "handle env probe gn now h user params p w = Some rw"
  shows "operates env w (snd rw)"
proof (cases "h \<in> set reading_handlers")
  case True
  with reading_handlers_keep [OF assms] show ?thesis by (simp add: operates_def)
next
  case False
  with assms show ?thesis
    by (cases h) (auto simp: reading_handlers_def snd_CurrentUser operates_ops operates_malformed
        operates.profile_guard operates.roles_guard operates.unchanged split: option.split payload.split)
qed

subsection \<open>What can become of a request\<close>

definition probe_of :: "'t http_env \<Rightarrow> (error + HealthCheckResult) option" where
  "probe_of he = HealthController_check (he_terminus he) (he_database he) (he_redis he)"

definition authenticated :: "'t http_env \<Rightarrow> int \<Rightarrow> http_request \<Rightarrow> route \<Rightarrow> AuthenticatedUser option \<Rightarrow> bool" where
  "authenticated he now rq r user \<longleftrightarrow>
     (if route_jwt r then map_sum id Some (jwt_guard (he_verify he) now (rq_token rq)) = Inr user else user = None)"

lemma serve_cases:
  assumes "serve he gn now rq (t, w) = Some (rp, t', w')"
  obtains
    (unrouted) "dispatch routes (rq_method rq) (rq_path rq) = None" "rp = not_found rq now" "w' = w"
  | (throttled) r params where "dispatch routes (rq_method rq) (rq_path rq) = Some (r, params)"
      "rp = too_many_requests (rq_url rq) now" "w' = w"
  | (unauthenticated) r params where "dispatch routes (rq_method rq) (rq_path rq) = Some (r, params)"
      "route_jwt r" "jwt_guard (he_verify he) now (rq_token rq) = Inl unauthorized"
      "rp = refused (rq_url rq) now unauthorized" "w' = w"
  | (handled) r params user rw where "dispatch routes (rq_method rq) (rq_path rq) = Some (r, params)"
      "authenticated he now rq r user"
      "handle (he_api he) (probe_of he) gn now (route_handler r) user params (rq_payload rq) w = Some rw"
      "rp = respond r (rq_url rq) now (fst rw)" "w' = snd rw"
proof (cases "dispatch routes (rq_method rq) (rq_path rq)")
  case None
  with assms show ?thesis by (intro unrouted) (simp_all add: serve_def)
next
  case (Some x)
  obtain r params where x: "x = (r, params)" by (cases x)
  obtain ok t1 where th: "throttle_guard he r (rq_ip rq) now t = (ok, t1)" by (cases "throttle_guard he r (rq_ip rq) now t")
  show ?thesis
  proof (cases ok)
    case False
    with assms Some x th show ?thesis by (intro throttled [of r params]) (simp_all add: serve_def)
  next
    case True
    show ?thesis
    proof (cases "if route_jwt r then map_sum id Some (jwt_guard (he_verify he) now (rq_token rq)) else Inr None")
      case (Inl e)
      then have jwt: "route_jwt r" "jwt_guard (he_verify he) now (rq_token rq) = Inl e"
        by (auto split: if_splits sum.splits simp: map_sum_def) 
      then have "e = unauthorized"
        by (auto simp: jwt_guard_def jwt_validate_def split: option.splits if_splits)
      with assms Some x th True Inl jwt show ?thesis
        by (intro unauthenticated [of r params]) (simp_all add: serve_def)
    next
      case (Inr user)
      then have "authenticated he now rq r user" by (auto simp: authenticated_def split: if_splits)
      with assms Some x th True Inr show ?thesis
        by (auto simp: serve_def probe_of_def intro!: handled [of r params user])
    qed
  qed
qed

lemma served_operates:
  assumes "serve he gn now rq (t, w) = Some (rp, t', w')"
  shows "w' = w \<or> system_step (he_api he) w w'"
  using assms
proof (cases rule: serve_cases)
  case (handled r params user rw)
  with handle_operates [OF handled(3)] show ?thesis by (simp add: operates_def)
qed simp_all

text \<open>An instance of the environment and some requests, for the applications below.\<close>

definition sample_verify :: "string \<Rightarrow> int \<Rightarrow> JwtPayload option" where
  "sample_verify token now =
     (case token of
        [] \<Rightarrow> None
      | c # u \<Rightarrow>
          if c = CHR ''u'' then Some \<lparr>jp_sub = Some u, jp_role = Some USER\<rparr>
          else if c = CHR ''a'' then Some \<lparr>jp_sub = Some u, jp_role = Some ADMIN\<rparr> else None)"

definition sample_http :: "nat http_env" where
  "sample_http =
     \<lparr>he_api = sample_env, he_verify = sample_verify,
      he_throttle = (\<lambda>h ip limit ttl now calls. (calls < limit, Suc calls)),
      he_terminus = (\<lambda>indicators.
        let r = \<lparr>hc_status = ''ok'', hc_info = indicators, hc_error = [], hc_details = indicators\<rparr>
        in if list_all snd indicators then Inr r
           else Inl (ServiceUnavailableException ''Service Unavailable Exception'')),
      he_database = Some True, he_redis = Some True\<rparr>"

definition sample_generated :: generated where
  "sample_generated =
     \<lparr>gn_id = ''i'', gn_userId = ''n'', gn_uuid = ''x'', gn_documents = (\<lambda>t. (''j'', ''y'')),
      gn_salt = ''s'', gn_refreshToken = ''f'', gn_code = ''123456''\<rparr>"

definition sample_request :: "http_method \<Rightarrow> string \<Rightarrow> string option \<Rightarrow> payload \<Rightarrow> http_request" where
  "sample_request m url token p =
     \<lparr>rq_method = m, rq_url = url, rq_path = path_segments url, rq_ip = ''10.0.0.1'', rq_token = token,
      rq_payload = p\<rparr>"

definition register_request :: http_request where
  "register_request = sample_request POST ''/api/v1/auth/register'' None
     (RegisterBody \<lparr>reg_name = ''Nora'', reg_phone = ''5'', reg_password = ''password''\<rparr>)"

text \<open>
  C11: the HTTP layer refines the backend. Whatever request arrives, its answer comes with an operation
  of the API run once and whole, or with no change to the database, the queue, the log, the cache and
  the files at all; and a GET request never changes anything.
\<close>

theorem requests_are_operations:
  assumes "serve he gn now rq (t, w) = Some (rp, t', w')"
  shows "(w' = w \<or> system_step (he_api he) w w') \<and> (rq_method rq = GET \<longrightarrow> w' = w)"
  using assms
proof (cases rule: serve_cases)
  case (handled r params user rw)
  note r = dispatch_Some [OF handled(1)]
  have "w' = w" if "rq_method rq = GET"
    using reading_handlers_keep [OF handled(3)] route_facts(2) [OF r(1)] r(2) that handled(5) by simp
  with served_operates [OF assms] show ?thesis by blast
qed simp_all

lemma requests_are_operations_witness:
  "\<exists>rp t' w'. serve sample_http sample_generated 20 register_request (0, offered_world) = Some (rp, t', w') \<and>
     hr_status rp = 201 \<and> (w' = offered_world \<or> system_step sample_env offered_world w')"
proof -
  have "map_option (\<lambda>(rp, t', w'). hr_status rp)
      (serve sample_http sample_generated 20 register_request (0, offered_world)) = Some 201"
    by code_simp
  then obtain rp t' w' where run: "serve sample_http sample_generated 20 register_request (0, offered_world)
      = Some (rp, t', w')" "hr_status rp = 201" by auto
  moreover have "he_api sample_http = sample_env" by (simp add: sample_http_def)
  ultimately show ?thesis using requests_are_operations [OF run(1)] by auto
qed

subsection \<open>Nobody passes a guarded route without a token\<close>

lemma no_handler_for_strangers:
  assumes "r \<in> set routes" "authenticated he now rq r user" "route_handler r \<notin> set public_handlers"
  obtains u where "user = Some u" "jwt_guard (he_verify he) now (rq_token rq) = Inr u"
  using assms route_facts(1) [OF assms(1)]
  by (cases "jwt_guard (he_verify he) now (rq_token rq)") (auto simp: authenticated_def)

text \<open>
  C21: the seven public routes (the health probe, registration, login, refresh, logout and the two steps
  of a password reset) are the only ones open to strangers. A request to any other route whose token is
  missing, does not verify or names no user is answered 401, or 429 if the throttle refused it first,
  with the error filter's body, and changes nothing.
\<close>

theorem strangers_are_refused:
  assumes served: "serve he gn now rq (t, w) = Some (rp, t', w')"
    and route: "dispatch routes (rq_method rq) (rq_path rq) = Some (r, params)"
    and protected: "route_handler r \<notin>
      {Health_check, Auth_register, Auth_login, Auth_refresh, Auth_logout, Auth_forgotPassword, Auth_resetPassword}"
    and stranger: "jwt_guard (he_verify he) now (rq_token rq) = Inl e"
  shows "w' = w \<and>
    (rp = \<lparr>hr_status = 401, hr_body = ErrorBody \<lparr>eb_statusCode = 401, eb_message = ''Unauthorized'',
        eb_error = ''UnauthorizedException'', eb_path = rq_url rq, eb_timestamp = now\<rparr>\<rparr> \<or>
     rp = too_many_requests (rq_url rq) now)"
proof -
  have public: "route_handler r \<notin> set public_handlers" using protected by (simp add: public_handlers_def)
  from served show ?thesis
  proof (cases rule: serve_cases)
    case (handled r' params' user rw)
    with route have "r' = r" by simp
    with handled(2) obtain u where "jwt_guard (he_verify he) now (rq_token rq) = Inr u"
      using no_handler_for_strangers [OF dispatch_Some(1) [OF route] _ public] by blast
    with stranger show ?thesis by simp
  qed (use route in \<open>simp_all add: refused_def http_response_def\<close>)
qed

lemma strangers_are_refused_witness:
  "\<exists>rp t'. serve sample_http sample_generated 20
       (sample_request POST ''/api/v1/ride-requests/q/cancel'' (Some ''?'') (CancelRideRequestBody None))
       (0, offered_world) = Some (rp, t', offered_world) \<and> hr_status rp = 401"
proof -
  let ?rq = "sample_request POST ''/api/v1/ride-requests/q/cancel'' (Some ''?'') (CancelRideRequestBody None)"
  let ?run = "serve sample_http sample_generated 20 ?rq (0, offered_world)"
  have "map_option (\<lambda>(rp, t', w'). hr_status rp) ?run = Some 401" by code_simp
  then obtain rp t' w' where run: "?run = Some (rp, t', w')" "hr_status rp = 401" by auto
  have route: "dispatch routes (rq_method ?rq) (rq_path ?rq) = Some (routes ! 20, [''q''])"
    "route_handler (routes ! 20) = RideRequests_cancel"
    "jwt_guard (he_verify sample_http) 20 (rq_token ?rq) = Inl unauthorized"
    by code_simp+
  have "w' = offered_world" using strangers_are_refused [OF run(1) route(1) _ route(3)] by (simp add: route(2))
  with run show ?thesis by auto
qed

subsection \<open>The probe\<close>

text \<open>
  The probe of the load balancer needs no token, is never throttled and touches nothing: it gives
  Terminus's bare result with status 200, or the exception Terminus threw in the error filter's body; it
  answers as soon as both pings have settled, up or down, and not before.
\<close>

lemma probes_are_served:
  assumes "rq_method rq = GET" "rq_path rq = [''health'']"
  shows "serve he gn now rq (t, w) =
    (case (he_database he, he_redis he) of
       (Some d, Some r) \<Rightarrow>
         (case he_terminus he [(''database'', d), (''redis'', r)] of
            Inr result \<Rightarrow> Some (\<lparr>hr_status = 200, hr_body = BareBody (HealthReply result)\<rparr>, t, w)
          | Inl e \<Rightarrow>
              Some (\<lparr>hr_status = http_status e, hr_body = ErrorBody \<lparr>eb_statusCode = http_status e,
                  eb_message = http_message e, eb_error = http_name e, eb_path = rq_url rq,
                  eb_timestamp = now\<rparr>\<rparr>, t, w))
     | _ \<Rightarrow> None)"
proof -
  have "map_option (\<lambda>(r, params). (route_handler r, route_jwt r, route_limit r, route_skipEnvelope r, route_code r, params))
      (dispatch routes GET [''health'']) = Some (Health_check, False, None, True, 200, [])"
    by code_simp
  then obtain r where route: "dispatch routes GET [''health''] = Some (r, [])" "route_handler r = Health_check"
    "\<not> route_jwt r" "route_limit r = None" "route_skipEnvelope r" "route_code r = 200"
    by auto
  then show ?thesis
    by (simp add: serve_def assms throttle_guard_def HealthController_check_def checkDatabase_def
        checkRedis_def respond_def refused_def http_response_def http_envelope_def
        split: option.split sum.split)
qed

lemma probes_are_served_witness:
  "let he = sample_http\<lparr>he_redis := Some False\<rparr>; rq = sample_request GET ''/health'' None NoPayload
   in serve he sample_generated 20 rq (9, offered_world) =
        Some (\<lparr>hr_status = 503, hr_body = ErrorBody \<lparr>eb_statusCode = 503,
          eb_message = ''Service Unavailable Exception'', eb_error = ''ServiceUnavailableException'',
          eb_path = ''/health'', eb_timestamp = 20\<rparr>\<rparr>, 9, offered_world) \<and>
      serve (he\<lparr>he_redis := None\<rparr>) sample_generated 20 rq (9, offered_world) = None"
proof -
  let ?rq = "sample_request GET ''/health'' None NoPayload"
  have rq: "rq_method ?rq = GET" "rq_path ?rq = [''health'']" "rq_url ?rq = ''/health''" by code_simp+
  show ?thesis
    unfolding Let_def probes_are_served [OF rq(1,2)] by (simp add: sample_http_def rq(3) Let_def)
qed

text \<open>Routes the README lists that no controller has.\<close>

lemma documented_routes_missing:
  "dispatch routes GET [''api'', ''v1'', ''admin'', ''drivers''] = None"
  "dispatch routes GET [''api'', ''v1'', ''driver'', ''documents''] = None"
  "dispatch routes POST [''api'', ''v1'', ''driver'', ''documents''] = None"
  by code_simp+

end
