(* ===== verification/Sessions.thy ===== *)
theory Sessions
  imports HttpSpecs
begin

section \<open>Sessions: who a request acts for\<close>

text \<open>
  The server hands out access tokens and later believes them. Along any run in which clients present
  only tokens the server issued (those it would refuse apart), a request acts for an account that exists,
  with the role of its row, and no request makes an admin.
\<close>

subsection \<open>No operation removes an account or changes a role\<close>

definition identities :: "world \<Rightarrow> (string \<times> Role) set" where
  "identities w = (\<lambda>u. (u_id u, u_role u)) ` set (users w)"

definition roles_kept :: "world \<Rightarrow> world \<Rightarrow> bool" where
  "roles_kept w w' \<longleftrightarrow>
     identities w \<subseteq> identities w' \<and> (\<forall>i. (i, ADMIN) \<in> identities w' \<longrightarrow> (i, ADMIN) \<in> identities w)"

lemma roles_kept_trans: "roles_kept w v \<Longrightarrow> roles_kept v x \<Longrightarrow> roles_kept w x"
  unfolding roles_kept_def by blast

interpretation roles_kept: handler_relation roles_kept
  by unfold_locales (simp add: roles_kept_def)

lemma roles_kept_same: "users w' = users w \<Longrightarrow> roles_kept w w'"
  by (simp add: roles_kept_def identities_def)

lemma roles_kept_frames:
  "frame_rides w w' \<Longrightarrow> roles_kept w w'" "tokens_only w w' \<Longrightarrow> roles_kept w w'"
  "profile_changed u f w w' \<Longrightarrow> roles_kept w w'" "frame_onboarding w w' \<Longrightarrow> roles_kept w w'"
proof -
  show "frame_rides w w' \<Longrightarrow> roles_kept w w'" by (rule roles_kept_same) (simp add: frame_rides_def)
  show "tokens_only w w' \<Longrightarrow> roles_kept w w'" by (rule roles_kept_same) (auto simp: tokens_only_def)
  show "profile_changed u f w w' \<Longrightarrow> roles_kept w w'"
    by (rule roles_kept_same) (simp add: profile_changed_def frame_profiles_def)
  show "frame_onboarding w w' \<Longrightarrow> roles_kept w w'" by (rule roles_kept_same) (simp add: frame_onboarding_def)
qed

lemma roles_kept_update:
  assumes upd: "user_update i f w = Inr w'" and keep: "\<And>u. u_id (f u) = u_id u" "\<And>u. u_role (f u) = u_role u"
  shows "roles_kept w w'"
proof -
  have "identities w' = identities w"
    using user_update_Inr [OF upd] keep by (auto simp: identities_def image_update_where del: equalityI)
  then show ?thesis by (simp add: roles_kept_def)
qed

lemma roles_kept_setActiveProfile: "roles_kept w (snd (setActiveProfile secs now u prf w))"
proof -
  have "roles_kept w (snd (goOffline secs now u w1))" "roles_kept w w1"
    if "user_update u (\<lambda>x. x\<lparr>u_activeProfile := prf\<rparr>) w = Inr w1" for w1
    using roles_kept_update [OF that] roles_kept_frames(3) [OF goOffline_changed] roles_kept_trans by fastforce+
  then show ?thesis
    by (auto simp: setActiveProfile_def roles_kept.unchanged split: prod.splits sum.splits option.splits)
qed

lemma issue_users:
  "issueTokenPair c ttl i tok now u role w = (r, w') \<Longrightarrow> users w' = users w"
  using issue_world by fastforce

lemma roles_kept_register: "roles_kept w (snd (register c ttl salt ui i tok now dto w))"
proof (cases "findByPhone (reg_phone dto) w")
  case None
  let ?x = "new_user ui now (bcrypt_hash c salt (reg_password dto)) dto"
  show ?thesis
  proof (cases "user_create ?x w")
    case (Inr w1)
    obtain r w' where issue: "issueTokenPair c ttl i tok now (u_id ?x) (u_role ?x) w1 = (r, w')" by force
    have "users w' = users w @ [?x]" using Inr issue_users [OF issue] by (auto simp: user_create_Inr)
    then have "roles_kept w w'" by (auto simp: roles_kept_def identities_def new_user_def)
    with None Inr issue show ?thesis by (simp add: register_def)
  qed (use None in \<open>simp add: register_def roles_kept.unchanged\<close>)
qed (simp add: register_def roles_kept.unchanged)

lemma roles_kept_resetPassword: "roles_kept w (snd (resetPassword c salt now dto w))"
  by (auto simp: resetPassword_def roles_kept.unchanged simp del: transaction.simps
      split: option.splits sum.splits dest!: resetPassword_commit)
    (simp add: roles_kept_def identities_def image_update_where)

lemma roles_kept_rateTrip: "roles_kept w (snd (rateTrip newId now i u dto w))"
  by (auto simp: rateTrip_def recalculateRating_def rating_create_Inr roles_kept_same
      split: sum.splits prod.splits option.splits dest!: user_update_Inr)
    (simp add: roles_kept_def identities_def image_update_where)

lemmas roles_kept_ops =
  roles_kept_setActiveProfile roles_kept_register roles_kept_resetPassword roles_kept_rateTrip
  roles_kept_same [OF same_world_view [unfolded same_world_def, THEN arg_cong [of _ _ users]]]
  frame_rides_ops [THEN roles_kept_frames(1)] frame_rides_process_job [THEN roles_kept_frames(1)]
  roles_kept_frames(3) [OF setOnlineStatus_changed] roles_kept_frames(3) [OF updateLocation_changed]
  roles_kept_frames(3) [OF goOffline_changed]
  tokens_only_login [THEN roles_kept_frames(2)] tokens_only_refresh_op [THEN roles_kept_frames(2)]
  tokens_only_forgotPassword [THEN roles_kept_frames(2)]
  onboarding_op_frames(1,3,5,7,9) [THEN roles_kept_frames(4)] conjunct1 [OF review_frames, THEN roles_kept_frames(4)]
  roles_kept.guards roles_kept.unchanged

lemma roles_kept_sessions:
  "roles_kept w (snd (logout c now tok w))" "roles_kept w (removeExpiredRefreshTokens now w)"
  by (simp_all add: roles_kept_same logout_def refreshToken_updateMany_def removeExpiredRefreshTokens_def)

lemma api_op_roles_kept:
  assumes "api_op env f"
  shows "roles_kept w (f w)"
  using assms
  by cases (simp_all add: endpoint_defs roles_kept_ops roles_kept_sessions split: option.split)

subsection \<open>The tokens a reply carries\<close>

lemma map_sum_Inr [simp]: "map_sum id f s = Inr y \<longleftrightarrow> (\<exists>x. s = Inr x \<and> y = f x)"
  by (cases s) auto

lemma guarded_malformed [simp]:
  "fst (malformed w) \<noteq> Inr y" "fst (with_profile rp u malformed w) \<noteq> Inr y"
  "fst (with_roles rs u malformed w) \<noteq> Inr y"
  by (simp_all add: malformed_def with_profile_def with_roles_def split: sum.split)

lemma fst_CurrentUser_Inr:
  "fst (CurrentUser user k w) = Inr y \<longleftrightarrow> (\<exists>u. user = Some u \<and> fst (k u w) = Inr y)"
  by (simp add: CurrentUser_def split: option.split)

definition signed_for :: "crypto \<Rightarrow> string \<Rightarrow> world \<Rightarrow> bool" where
  "signed_for c token w \<longleftrightarrow> (\<exists>(i, role) \<in> identities w. token = jwt_sign c i role)"

lemma issued_token:
  assumes "issueTokenPair c ttl i tok now (u_id u) (u_role u) w = rw" "fst rw = Inr pair" "u \<in> set (users w)"
  shows "signed_for c (tp_accessToken pair) (snd rw)"
proof -
  have issue: "issueTokenPair c ttl i tok now (u_id u) (u_role u) w = (Inr pair, snd rw)"
    using assms(1,2) by (metis prod.collapse)
  have "tp_accessToken pair = jwt_sign c (u_id u) (u_role u)" using issueTokenPair_Inr(2) [OF issue] by simp
  then show ?thesis using assms(3) by (auto simp: signed_for_def identities_def issue_users [OF issue])
qed

lemma signed_register:
  assumes "fst (register c ttl salt ui i tok now dto w) = Inr pair"
  shows "signed_for c (tp_accessToken pair) (snd (register c ttl salt ui i tok now dto w))"
proof -
  let ?x = "new_user ui now (bcrypt_hash c salt (reg_password dto)) dto"
  from assms obtain w1 where w1: "user_create ?x w = Inr w1"
    and run: "register c ttl salt ui i tok now dto w = issueTokenPair c ttl i tok now (u_id ?x) (u_role ?x) w1"
    by (auto simp: register_def Let_def split: option.splits sum.splits)
  from w1 have "?x \<in> set (users w1)" by (auto simp: user_create_Inr)
  from issued_token [OF run [symmetric] assms this] show ?thesis .
qed

lemma signed_login:
  assumes "fst (login c ttl i tok now dto w) = Inr pair"
  shows "signed_for c (tp_accessToken pair) (snd (login c ttl i tok now dto w))"
proof -
  from assms obtain u where "u \<in> set (users w)"
    and run: "login c ttl i tok now dto w = issueTokenPair c ttl i tok now (u_id u) (u_role u) w"
    by (auto simp: login_def findByPhone_def dest: lookup_SomeD split: option.splits if_splits)
  from issued_token [OF run [symmetric] assms this(1)] show ?thesis .
qed

lemma signed_refresh:
  assumes "fst (refresh c ttl i new now tok w) = Inr pair"
  shows "signed_for c (tp_accessToken pair) (snd (refresh c ttl i new now tok w))"
proof -
  from assms obtain u w1 where "u \<in> set (users w1)"
    and run: "refresh c ttl i new now tok w = issueTokenPair c ttl i new now (u_id u) (u_role u) w1"
    by (auto simp: refresh_def refresh_commit_def findById_def dest: lookup_SomeD split: option.splits sum.splits)
  from issued_token [OF run [symmetric] assms this(1)] show ?thesis .
qed

lemma handle_tokens:
  assumes "handle env probe gn now h user params p w = Some rw" "fst rw = Inr (TokenPairReply pair)"
  shows "signed_for (api_crypto env) (tp_accessToken pair) (snd rw)"
  using assms
  by (cases h; cases p)
    (auto simp: fst_CurrentUser_Inr AuthController_register_def AuthController_login_def
      AuthController_refresh_def validated_def split: if_splits
      intro: signed_register signed_login signed_refresh)

subsection \<open>Runs of requests\<close>

definition tokens_in :: "http_reply \<Rightarrow> string list" where
  "tokens_in rp =
     (case hr_body rp of
        EnvelopeBody b \<Rightarrow> (case sb_data b of TokenPairReply pair \<Rightarrow> [tp_accessToken pair] | _ \<Rightarrow> [])
      | _ \<Rightarrow> [])"

text \<open>
  A state: the throttle's, the world, the access tokens handed out. A client may send any string as a
  token; one that verifies was issued before.
\<close>

inductive http_step ::
  "'t http_env \<Rightarrow> 't \<times> world \<times> string list \<Rightarrow> 't \<times> world \<times> string list \<Rightarrow> bool" for he where
  request: "serve he gn now rq (t, w) = Some (rp, t', w') \<Longrightarrow>
     (\<And>tok. rq_token rq = Some tok \<Longrightarrow> he_verify he tok now \<noteq> None \<Longrightarrow> tok \<in> set issued) \<Longrightarrow>
     http_step he (t, w, issued) (t', w', issued @ tokens_in rp)"
| background: "system_step (he_api he) w w' \<Longrightarrow> http_step he (t, w, issued) (t, w', issued)"

lemma tokens_in_reply:
  assumes "tok \<in> set (tokens_in (respond r url now res))"
  shows "\<exists>pair. res = Inr (TokenPairReply pair) \<and> tok = tp_accessToken pair"
  using assms
  by (auto simp: tokens_in_def respond_def refused_def http_envelope_def split: sum.splits body.splits reply.splits if_splits)

lemma tokens_in_served:
  assumes "serve he gn now rq (t, w) = Some (rp, t', w')" "tok \<in> set (tokens_in rp)"
  shows "signed_for (api_crypto (he_api he)) tok w'"
  using assms(1)
proof (cases rule: serve_cases)
  case (handled r params user rw)
  with assms(2) obtain pair where "fst rw = Inr (TokenPairReply pair)" "tok = tp_accessToken pair"
    by (auto dest: tokens_in_reply)
  with handle_tokens [OF handled(3)] handled(5) show ?thesis by simp
qed (use assms(2) in \<open>simp_all add: tokens_in_def not_found_def refused_def too_many_requests_def\<close>)

definition session_inv :: "'t http_env \<Rightarrow> 't \<times> world \<times> string list \<Rightarrow> bool" where
  "session_inv he s \<longleftrightarrow>
     world_inv (fst (snd s)) \<and> (\<forall>tok \<in> set (snd (snd s)). signed_for (api_crypto (he_api he)) tok (fst (snd s)))"

lemma signed_for_kept: "signed_for c tok w \<Longrightarrow> roles_kept w w' \<Longrightarrow> signed_for c tok w'"
  unfolding signed_for_def roles_kept_def by blast

lemma operates_kept:
  assumes "w' = w \<or> system_step env w w'"
  shows "roles_kept w w'" "world_inv w \<Longrightarrow> world_inv w'"
proof -
  show "roles_kept w w'" using assms by (auto simp: system_step_def roles_kept.unchanged intro: api_op_roles_kept)
  show "world_inv w \<Longrightarrow> world_inv w'" using assms backend.step_inv by blast
qed

lemma http_step_operates:
  "http_step he (t, w, issued) (t', w', issued') \<Longrightarrow> w' = w \<or> system_step (he_api he) w w'"
  by (cases rule: http_step.cases) (auto dest: served_operates)

interpretation sessions: invariant_system "\<lambda>(t, w, issued). world_inv w \<and> issued = []" "http_step he" "session_inv he" for he
proof
  fix s s' assume step: "http_step he s s'" and inv: "session_inv he s"
  obtain t w ts t' w' ts' where s: "s = (t, w, ts)" "s' = (t', w', ts')" by (cases s, cases s')
  note ops = operates_kept [OF http_step_operates [OF step [unfolded s]]]
  have old: "signed_for (api_crypto (he_api he)) tok w'" if "tok \<in> set ts" for tok
    using that inv ops(1) by (auto simp: session_inv_def s intro: signed_for_kept)
  from step show "session_inv he s'"
  proof cases
    case request
    then show ?thesis using inv ops(2) old by (auto simp: session_inv_def s intro: tokens_in_served)
  qed (use inv ops(2) old in \<open>auto simp: session_inv_def s\<close>)
qed (auto simp: session_inv_def)

lemma run_roles: "(http_step he)\<^sup>*\<^sup>* (t0, w0, ts0) (t, w, ts) \<Longrightarrow> roles_kept w0 w"
proof (induction "(t, w, ts)" arbitrary: t w ts rule: rtranclp_induct)
  case (step s)
  obtain t1 w1 ts1 where s: "s = (t1, w1, ts1)" by (cases s)
  with step.hyps(2) have "roles_kept w1 w" by (blast dest: operates_kept(1) [OF http_step_operates])
  with step.hyps(3) [OF s] show ?case by (rule roles_kept_trans)
qed (rule roles_kept.unchanged)

text \<open>What the admin handlers do for someone who is not one.\<close>

lemma admin_handlers_refuse:
  assumes "handle env probe gn now h (Some u) params p w = Some rw" "h \<in> set admin_handlers" "au_role u \<noteq> ADMIN"
  shows "rw = (Inl (ForbiddenException ''Forbidden resource''), w)"
proof -
  have refuse: "with_roles (Some [ADMIN]) u k w = (Inl (ForbiddenException ''Forbidden resource''), w)" for k
    using assms(3) by (simp add: with_roles_def roles_canActivate_def)
  have lift: "map_result f (Inl e, w) = (Inl e, w)" for f :: "'x \<Rightarrow> reply" and e
    by (simp add: map_result_def)
  show ?thesis using assms(1,2)
    by (auto simp: admin_handlers_def CurrentUser_def endpoint_defs refuse lift split: payload.splits)
qed

text \<open>
  C12: a request acts for an account that exists, with the role its row has, and only seeded admins
  administrate. Take any run of requests and background operations from a consistent database, in
  which the tokens that verify are tokens the server issued (and a verified token says what was signed).
  If the guard lets a request to a protected route pass, the user it sets is a row of the database
  with that role; and on an admin route, unless that user was an admin in the database the run began with,
  the answer is 403 and nothing changes. Registration and every other request make no admin.
\<close>

theorem requests_act_for_their_account:
  assumes run: "(http_step he)\<^sup>*\<^sup>* (t0, w0, []) (t, w, issued)" and start: "world_inv w0"
    and verify: "\<And>u role time p. he_verify he (jwt_sign (api_crypto (he_api he)) u role) time = Some p \<Longrightarrow>
      p = \<lparr>jp_sub = Some u, jp_role = Some role\<rparr>"
    and token: "rq_token rq = Some tok" "tok \<in> set issued"
    and user: "jwt_guard (he_verify he) now (rq_token rq) = Inr user"
    and served: "serve he gn now rq (t, w) = Some (rp, t', w')"
    and route: "dispatch routes (rq_method rq) (rq_path rq) = Some (r, params)"
  shows "(au_userId user, au_role user) \<in> identities w \<and>
    (route_handler r \<in> set admin_handlers \<and> (au_userId user, ADMIN) \<notin> identities w0 \<longrightarrow>
       hr_status rp \<in> {403, 429} \<and> w' = w)"
proof
  have "session_inv he (t, w, issued)" by (rule sessions.reachable_inv [OF _ run]) (simp add: start)
  with token(2) obtain i role where "(i, role) \<in> identities w"
    and tok: "tok = jwt_sign (api_crypto (he_api he)) i role"
    by (auto simp: session_inv_def signed_for_def)
  moreover from user token(1) obtain p where p: "he_verify he tok now = Some p" "jwt_validate p = Inr user"
    by (auto simp: jwt_guard_def split: option.splits)
  moreover have "p = \<lparr>jp_sub = Some i, jp_role = Some role\<rparr>" using verify p(1) tok by simp
  ultimately show id: "(au_userId user, au_role user) \<in> identities w"
    by (auto simp: jwt_validate_def split: if_splits)
  show "route_handler r \<in> set admin_handlers \<and> (au_userId user, ADMIN) \<notin> identities w0 \<longrightarrow>
       hr_status rp \<in> {403, 429} \<and> w' = w"
  proof (intro impI, elim conjE)
    assume admin: "route_handler r \<in> set admin_handlers" and no: "(au_userId user, ADMIN) \<notin> identities w0"
    have role: "au_role user \<noteq> ADMIN" using id no run_roles [OF run] by (auto simp: roles_kept_def)
    have jwt: "route_jwt r"
      using route_facts(1) [OF dispatch_Some(1) [OF route]] admin
      by (auto simp: admin_handlers_def public_handlers_def)
    from served show "hr_status rp \<in> {403, 429} \<and> w' = w"
    proof (cases rule: serve_cases)
      case (handled r' params' user' rw)
      with route jwt user have "r' = r" "user' = Some user" by (auto simp: authenticated_def)
      with handled(3) have "rw = (Inl (ForbiddenException ''Forbidden resource''), w)"
        using admin_handlers_refuse [OF _ admin role] by blast
      with handled(4,5) show ?thesis by (simp add: respond_def refused_def)
    qed (use route user in \<open>auto simp: too_many_requests_def\<close>)
  qed
qed

text \<open>A database with one admin; a new account asks for the applications under review.\<close>

definition admin_row :: User where
  "admin_row =
     \<lparr>u_id = ''root'', u_name = ''Admin'', u_phone = ''0'', u_password = ''spassword'', u_role = ADMIN,
      u_activeProfile = RIDER, u_rating = 5, u_createdAt = 0\<rparr>"

definition admin_world :: world where
  "admin_world = empty_world\<lparr>users := [admin_row]\<rparr>"

definition list_request :: http_request where
  "list_request = sample_request GET ''/api/v1/admin/driver-applications'' (Some ''un'') (ListApplicationsQuery None)"

lemma admin_world_inv: "world_inv admin_world"
  by (rule world_inv_user_create [OF world_inv_empty, of admin_row])
    (simp_all add: user_create_def on_table_def create_row_def empty_world_def admin_world_def admin_row_def)

lemma requests_act_for_their_account_witness:
  "\<exists>w. (\<exists>rp t. serve sample_http sample_generated 5 register_request (0, admin_world) = Some (rp, t, w)) \<and>
     (''n'', USER) \<in> identities w \<and>
     (\<exists>rp t'. serve sample_http sample_generated 6 list_request (1, w) = Some (rp, t', w) \<and> hr_status rp \<in> {403, 429})"
proof -
  let ?first = "serve sample_http sample_generated 5 register_request (0, admin_world)"
  have "map_option (\<lambda>(rp, t, w). (tokens_in rp, t)) ?first = Some ([''un''], 1)" by code_simp
  then obtain rp w where first: "?first = Some (rp, 1, w)" "tokens_in rp = [''un'']" by auto
  have step: "http_step sample_http (0, admin_world, []) (1, w, [''un''])"
    using http_step.request [OF first(1), of "[]"] first(2) by (simp add: register_request_def sample_request_def)
  have w: "w = snd (snd (the ?first))" using first(1) by simp
  have "map_option (\<lambda>(rp, t, w). hr_status rp)
      (serve sample_http sample_generated 6 list_request (1, snd (snd (the ?first)))) = Some 403"
    by code_simp
  then obtain rp' t' w' where second: "serve sample_http sample_generated 6 list_request (1, w) = Some (rp', t', w')"
    unfolding w [symmetric] by auto
  have verify: "p = \<lparr>jp_sub = Some u, jp_role = Some role\<rparr>"
    if "he_verify sample_http (jwt_sign (api_crypto (he_api sample_http)) u role) time = Some p" for u role time p
    using that by (cases role)
      (simp_all add: sample_http_def sample_env_def sample_crypto_def sample_verify_def)
  have token: "rq_token list_request = Some ''un''" "''un'' \<in> set [''un'']"
    by (simp_all add: list_request_def sample_request_def)
  have user: "jwt_guard (he_verify sample_http) 6 (rq_token list_request) = Inr \<lparr>au_userId = ''n'', au_role = USER\<rparr>"
    by code_simp
  have route: "dispatch routes (rq_method list_request) (rq_path list_request) = Some (routes ! 25, [])" by code_simp
  have admin: "route_handler (routes ! 25) \<in> set admin_handlers" "(''n'', ADMIN) \<notin> identities admin_world"
    by (code_simp, simp add: identities_def admin_world_def admin_row_def)
  note claim = requests_act_for_their_account [OF r_into_rtranclp [of "http_step sample_http", OF step] admin_world_inv verify token user second route]
  from claim admin have "(''n'', USER) \<in> identities w" "hr_status rp' \<in> {403, 429}" "w' = w" by auto
  with first second show ?thesis by auto
qed

end
