(* ===== verification/AccountFlows.thy ===== *)
theory AccountFlows
  imports Sessions
begin

section \<open>AccountFlows: accounts over HTTP\<close>


lemma forgotPassword_answers:
  assumes "i \<notin> prt_id ` set (passwordResetTokens w)"
  shows "fst (forgotPassword c ttl ex i code now phone w) = Inr ()"
proof (cases "findByPhone phone w")
  case (Some u)
  then have "lookup u_id (u_id u) (users w) \<noteq> None"
    by (auto simp: findByPhone_def lookup_None_iff dest!: lookup_SomeD)
  moreover have "i \<notin> prt_id ` set (update_where p (\<lambda>t. t\<lparr>prt_usedAt := Some now\<rparr>) (passwordResetTokens w))" for p
    using assms by (simp add: image_update_where)
  ultimately show ?thesis using Some
    by (auto simp: forgotPassword_def passwordResetToken_updateMany_def passwordResetToken_create_def on_table_def
        create_row_def new_reset_token_def passwordResetToken_conflicts_def list_ex_iff image_iff
        split: sum.split option.splits)
qed (simp add: forgotPassword_def)



subsection \<open>From registration to the account\<close>

lemma serve_handled:
  assumes "dispatch routes (rq_method rq) (rq_path rq) = Some (r, params)"
    and "throttle_guard he r (rq_ip rq) now t = (True, t1)" "authenticated he now rq r user"
    and "handle (he_api he) (probe_of he) gn now (route_handler r) user params (rq_payload rq) w = Some rw"
  shows "serve he gn now rq (t, w) = Some (respond r (rq_url rq) now (fst rw), t1, snd rw)"
  using assms
  by (cases rw) (auto simp: serve_def probe_of_def authenticated_def case_prod_beta split: if_splits)

lemma error_status: "400 \<le> http_status e"
  by (cases e) simp_all

lemma me_route: "r \<in> set routes \<Longrightarrow> route_handler r = Auth_me \<Longrightarrow> route_code r = 200 \<and> \<not> route_skipEnvelope r"
proof -
  have "list_all (\<lambda>r. route_handler r = Auth_me \<longrightarrow> route_code r = 200 \<and> \<not> route_skipEnvelope r) routes"
    by code_simp
  then show "r \<in> set routes \<Longrightarrow> route_handler r = Auth_me \<Longrightarrow> route_code r = 200 \<and> \<not> route_skipEnvelope r"
    by (simp add: list_all_iff)
qed

lemma register_Inr:
  assumes "fst (register c ttl salt ui i tok now dto w) = Inr pair"
  defines "u \<equiv> new_user ui now (bcrypt_hash c salt (reg_password dto)) dto"
  shows "findById ui (snd (register c ttl salt ui i tok now dto w)) = Some u"
    "tp_accessToken pair = jwt_sign c ui USER"
proof -
  obtain w1 w2 where w1: "user_create u w = Inr w1"
    and issue: "issueTokenPair c ttl i tok now (u_id u) (u_role u) w1 = (Inr pair, w2)"
    and run: "register c ttl salt ui i tok now dto w = (Inr pair, w2)"
    using assms(1) unfolding u_def
    by (auto simp: register_def Let_def split: option.splits sum.splits) (metis prod.collapse)
  from w1 have "lookup u_id (u_id u) (users w1) = Some u"
    by (auto simp: user_create_Inr users_id.lookup_created)
  then show "findById ui (snd (register c ttl salt ui i tok now dto w)) = Some u"
    using issue_users [OF issue] by (simp add: run findById_def) (simp add: u_def new_user_def)
  show "tp_accessToken pair = jwt_sign c ui USER"
    using issueTokenPair_Inr(2) [OF issue] by (simp add: u_def new_user_def)
qed

text \<open>
  C22: an account works over HTTP as soon as it is registered. A registration answered 201 carries an
  access token in the success envelope; a request to \<open>GET /auth/me\<close> with that token, once it is let
  through by the throttle and the token verifies as what was signed, answers 200 with the account just
  registered: its name and number, the user role, the rider mode and the default rating, no password.
\<close>

theorem registered_accounts_answer:
  assumes reg: "serve he gn now rq (t, w) = Some (rp, t1, w1)" "hr_status rp = 201"
    "dispatch routes (rq_method rq) (rq_path rq) = Some (r, params)" "route_handler r = Auth_register"
    "rq_payload rq = RegisterBody dto"
    and verify: "\<And>u role. u \<noteq> [] \<Longrightarrow> he_verify he (jwt_sign (api_crypto (he_api he)) u role) later =
      Some \<lparr>jp_sub = Some u, jp_role = Some role\<rparr>"
    and id: "gn_userId gn \<noteq> []"
    and me: "dispatch routes (rq_method rq') (rq_path rq') = Some (r', params')" "route_handler r' = Auth_me"
      "rq_token rq' = Some tok" "tokens_in rp = [tok]" "throttle_guard he r' (rq_ip rq') later t1 = (True, t2)"
  shows "serve he gn' later rq' (t1, w1) =
    Some (\<lparr>hr_status = 200, hr_body = EnvelopeBody \<lparr>sb_statusCode = 200, sb_message = ''Success'',
      sb_data = UserReply \<lparr>ur_id = gn_userId gn, ur_name = reg_name dto, ur_phone = reg_phone dto,
        ur_role = USER, ur_activeProfile = RIDER, ur_rating = 5, ur_createdAt = now\<rparr>,
      sb_path = rq_url rq', sb_timestamp = later\<rparr>\<rparr>, t2, w1)"
proof -
  have open_route: "\<not> route_jwt r" and guarded: "route_jwt r'"
    using route_facts(1) [OF dispatch_Some(1) [OF reg(3)]] route_facts(1) [OF dispatch_Some(1) [OF me(1)]] reg(4) me(2)
    by (simp_all add: public_handlers_def)
  let ?c = "api_crypto (he_api he)"
  let ?u = "new_user (gn_userId gn) now (bcrypt_hash ?c (gn_salt gn) (reg_password dto)) dto"
  from reg(1) obtain rw where rw: "handle (he_api he) (probe_of he) gn now Auth_register None params (rq_payload rq) w = Some rw"
    "rp = respond r (rq_url rq) now (fst rw)" "w1 = snd rw"
  proof (cases rule: serve_cases)
    case (handled r2 params2 user rw)
    with reg(3,4) open_route show ?thesis by (intro that [of rw]) (simp_all add: authenticated_def)
  qed (use reg(2,3) open_route in \<open>simp_all add: too_many_requests_def\<close>)
  let ?reg = "register ?c (api_refreshTtl (he_api he)) (gn_salt gn) (gn_userId gn) (gn_id gn) (gn_refreshToken gn) now dto w"
  obtain pair where pair: "fst rw = Inr (TokenPairReply pair)" "fst ?reg = Inr pair" "snd rw = snd ?reg"
  proof -
    have "http_status e \<noteq> 201" for e using error_status [of e] by linarith
    with rw reg(2,5) that show ?thesis
      by (auto simp: AuthController_register_def validated_def respond_def refused_def map_sum_def
          split: if_splits sum.splits)
  qed
  note found = register_Inr [OF pair(2)]
  have tok: "tok = jwt_sign ?c (gn_userId gn) USER"
    using me(4) pair(1) found(2) rw(2)
    by (auto simp: tokens_in_def respond_def http_envelope_def split: if_splits)
  have "authenticated he later rq' r' (Some \<lparr>au_userId = gn_userId gn, au_role = USER\<rparr>)"
    using guarded me(3) verify [OF id, of USER] id by (simp add: authenticated_def jwt_guard_def jwt_validate_def tok)
  moreover have "handle (he_api he) (probe_of he) gn' later (route_handler r')
      (Some \<lparr>au_userId = gn_userId gn, au_role = USER\<rparr>) params' (rq_payload rq') w1 =
    Some (Inr (UserReply (UserResponse_from ?u)), w1)"
    using found(1) pair(3) rw(3)
    by (simp add: me(2) CurrentUser_def AuthController_me_def reads_def me_def map_result_def)
  moreover have "route_code r' = 200 \<and> \<not> route_skipEnvelope r'"
    using me_route [OF dispatch_Some(1) [OF me(1)] me(2)] .
  ultimately show ?thesis
    using serve_handled [OF me(1,5)]
    by (simp add: respond_def http_envelope_def UserResponse_from_def new_user_def)
qed

definition me_request :: http_request where
  "me_request = sample_request GET ''/api/v1/auth/me'' (Some ''un'') NoPayload"

lemma registered_accounts_answer_witness:
  "\<exists>rp w1. serve sample_http sample_generated 20 register_request (0, offered_world) = Some (rp, 1, w1) \<and>
     map_option (\<lambda>(rp, t, w). (hr_status rp, t)) (serve sample_http sample_generated 21 me_request (1, w1)) = Some (200, 2)"
proof -
  let ?reg = "serve sample_http sample_generated 20 register_request (0, offered_world)"
  have "map_option (\<lambda>(rp, t, w). (hr_status rp, tokens_in rp, t)) ?reg = Some (201, [''un''], 1)" by code_simp
  then obtain rp w1 where reg: "?reg = Some (rp, 1, w1)" "hr_status rp = 201" "tokens_in rp = [''un'']" by auto
  have routes: "dispatch routes (rq_method register_request) (rq_path register_request) = Some (routes ! 1, [])"
    "route_handler (routes ! 1) = Auth_register"
    "dispatch routes (rq_method me_request) (rq_path me_request) = Some (routes ! 7, [])"
    "route_handler (routes ! 7) = Auth_me"
    "throttle_guard sample_http (routes ! 7) (rq_ip me_request) 21 1 = (True, 2)"
    by code_simp+
  have payload: "rq_payload register_request = RegisterBody \<lparr>reg_name = ''Nora'', reg_phone = ''5'', reg_password = ''password''\<rparr>"
    "rq_token me_request = Some ''un''" "gn_userId sample_generated \<noteq> []"
    by (simp_all add: register_request_def me_request_def sample_request_def sample_generated_def)
  have verify: "he_verify sample_http (jwt_sign (api_crypto (he_api sample_http)) u role) 21 =
      Some \<lparr>jp_sub = Some u, jp_role = Some role\<rparr>" for u role
    by (cases role) (simp_all add: sample_http_def sample_env_def sample_crypto_def sample_verify_def)
  show ?thesis
    using reg(1) registered_accounts_answer [OF reg(1,2) routes(1,2) payload(1) verify payload(3)
        routes(3,4) payload(2) reg(3) routes(5), of sample_generated]
    by simp
qed

subsection \<open>The console sender\<close>

text \<open>
  \<open>ConsoleSmsService\<close>, the sender the module binds, writes each message to the log. The logger censors the
  codes in request bodies; the line of the sender has them in clear.
\<close>

definition ConsoleSmsService_send :: "string \<Rightarrow> string \<Rightarrow> string" where
  "ConsoleSmsService_send phone message = ''SMS to '' @ phone @ '': '' @ message"

definition console_log :: "world \<Rightarrow> string list" where
  "console_log w = map (case_prod ConsoleSmsService_send) (outbox w)"

lemma reset_codes_are_logged:
  assumes "findByPhone phone w = Some u" "i \<notin> prt_id ` set (passwordResetTokens w)"
  shows "console_log (snd (forgotPassword c ttl ex i code now phone w)) =
    console_log w @ [''SMS to '' @ u_phone u @ '': Your Reedr password reset code is '' @ code @ ''. It expires in '' @ ex @ ''.'']"
  using forgotPassword_answers [OF assms(2), of c ttl ex code now phone] assms(1)
  by (auto simp: forgotPassword_def passwordResetToken_updateMany_def passwordResetToken_create_def on_table_def
      sms_send_def console_log_def ConsoleSmsService_send_def split: sum.splits)

end
