(* ===== verification/Refusals.thy ===== *)
theory Refusals
  imports Sessions TripSpecs
begin

section \<open>Refusals: what a refused request leaves behind\<close>

text \<open>
  A 4xx answer means that nothing happened. \<open>spotless\<close> states it of a handler: if it fails with an
  error of the client, the world is as it was but for the cache, where an identity looked up may stay.
\<close>

definition same_but_cache :: "world \<Rightarrow> world \<Rightarrow> bool" where
  "same_but_cache w w' \<longleftrightarrow> w'\<lparr>redis := redis w\<rparr> = w"

definition spotless :: "world \<Rightarrow> 'a result \<Rightarrow> bool" where
  "spotless w rw \<longleftrightarrow> (\<forall>e. fst rw = Inl e \<longrightarrow> http_status e < 500 \<longrightarrow> same_but_cache w (snd rw))"

lemma same_but_cache_refl [simp]: "same_but_cache w w" "same_but_cache w (w\<lparr>redis := m\<rparr>)"
  by (simp_all add: same_but_cache_def)

lemma spotlessI: "(\<And>e w'. rw = (Inl e, w') \<Longrightarrow> http_status e < 500 \<Longrightarrow> same_but_cache w w') \<Longrightarrow> spotless w rw"
  unfolding spotless_def by (metis prod.collapse)

lemma spotless_same [simp]: "spotless w (x, w)" "spotless w (x, w\<lparr>redis := m\<rparr>)"
  "spotless w (Inr y, w')"
  by (simp_all add: spotless_def)

lemma spotless_server_error: "http_status e = 500 \<Longrightarrow> spotless w (Inl e, w')"
  by (simp add: spotless_def)

lemma spotless_map_result [simp]: "spotless w (map_result f rw) = spotless w rw"
  by (cases "fst rw") (simp_all add: spotless_def)

lemma spotless_guards:
  "spotless w (h w) \<Longrightarrow> spotless w (with_profile r u h w)" "spotless w (h w) \<Longrightarrow> spotless w (with_roles rs u h w)"
  "(ok \<Longrightarrow> spotless w (h w)) \<Longrightarrow> spotless w (validated ok h w)" "spotless w (h w) \<Longrightarrow> spotless w (with_files fs h w)"
  "spotless w (malformed w)" "spotless w (reads g w)"
  "(\<And>u. user = Some u \<Longrightarrow> spotless w (k u w)) \<Longrightarrow> spotless w (CurrentUser user k w)"
  using with_files_cases [of fs h w]
  by (auto simp: with_profile_def with_roles_def validated_def malformed_def reads_def CurrentUser_def
      split: sum.split option.split)

lemma write_status:
  "user_create u w = Inl e \<Longrightarrow> http_status e = 500" "user_update i f w = Inl e \<Longrightarrow> http_status e = 500"
  "rating_create r w = Inl e \<Longrightarrow> http_status e = 500"
  "driverApplication_create a w = Inl e \<Longrightarrow> http_status e = 500"
  "driverApplication_update i g w = Inl e \<Longrightarrow> http_status e = 500"
  "driverProfile_create p w = Inl e \<Longrightarrow> http_status e = 500"
  "driverProfile_update q h w = Inl e \<Longrightarrow> http_status e = 500"
  "driverDocument_create d w = Inl e \<Longrightarrow> http_status e = 500"
  "driverDocument_update q' k w = Inl e \<Longrightarrow> http_status e = 500"
  "refreshToken_create t w = Inl e \<Longrightarrow> http_status e = 500"
  "refreshToken_update i l w = Inl e \<Longrightarrow> http_status e = 500"
  "passwordResetToken_create c w = Inl e \<Longrightarrow> http_status e = 500"
  "passwordResetToken_update i m w = Inl e \<Longrightarrow> http_status e = 500"
  by (auto simp: row_defs split: sum.splits)

subsection \<open>Rides and ratings\<close>

lemma spotless_rides:
  assumes "ride_inv w"
  shows "spotless w (createRideRequest g km newId now u dto w)" "spotless w (findOneForUser i u w)"
    "spotless w (cancelRideRequest i now u reason w)" "spotless w (startTrip i now u w)"
    "spotless w (completeTrip i now u w)"
  using failed_ride_operations_change_nothing [OF assms] same_world_view [of w i u]
  by (auto simp: spotless_def same_world_def)

text \<open>The average of a user that exists can always be stored, so a rating is never half given.\<close>

lemma recalculate_fails:
  assumes "accounts_inv w" "recalculateRating u w = (Inl e, w')"
  shows "e = PrismaError P2025"
proof (cases "lookup u_id u (users w)")
  case (Some x)
  let ?f = "\<lambda>x. x\<lparr>u_rating := recalculated u w\<rparr>"
  have "user_update u ?f w = Inr (w\<lparr>users := update_where (\<lambda>x. u_id x = u) ?f (users w)\<rparr>)"
    using assms(1) Some by (intro user_update_ok [where r = x]) (auto simp: accounts_inv_def dest: lookup_SomeD)
  with assms(2) show ?thesis by (auto simp: recalculateRating_def)
next
  case None
  then show ?thesis using assms(2)
    by (auto simp: recalculateRating_def user_update_def on_table_def update_row_def lookup_def split: sum.splits)
qed

lemma spotless_rateTrip:
  assumes "accounts_inv w"
  shows "spotless w (rateTrip newId now i u dto w)"
proof (rule spotlessI)
  fix e w' assume run: "rateTrip newId now i u dto w = (Inl e, w')" and client: "http_status e < 500"
  show "same_but_cache w w'"
  proof (cases "rate_load i u w")
    case (Inr v)
    show ?thesis
    proof (cases "rating_create (new_rating newId now i u v dto) w")
      case (Inr w1)
      then have "accounts_inv w1" using assms by (auto simp: rating_create_Inr accounts_inv_def)
      moreover obtain r w2 where rec: "recalculateRating v w1 = (r, w2)" by force
      ultimately have "e = PrismaError P2025"
        using run Inr \<open>rate_load i u w = Inr v\<close> recalculate_fails [of w1 v]
        by (auto simp: rateTrip_def rate_error_def split: sum.splits)
      with client show ?thesis by simp
    qed (use run Inr in \<open>auto simp: rateTrip_def\<close>)
  qed (use run in \<open>auto simp: rateTrip_def\<close>)
qed

subsection \<open>Drivers and users\<close>

lemma update_profile_status: "update_profile u f w = (Inl e, w') \<Longrightarrow> http_status e = 500"
  by (auto simp: update_profile_def split: sum.splits option.splits dest: write_status)

lemma findIdentity_answers: "fst (findIdentityByUserId now u w) \<noteq> Inl e"
  by (simp add: findIdentityByUserId_def getOrSet_def split: option.split)

lemma spotless_after_update:
  "spotless w (case update_profile u f w1 of (Inl e, w2) \<Rightarrow> (Inl e, w2) | (Inr x, w2) \<Rightarrow> (Inr (g x), h x w2))"
  by (auto split: prod.split sum.split intro: spotless_server_error dest: update_profile_status)

lemma spotless_driver_ops:
  "spotless w (setOnlineStatus now u b w)" "spotless w (updateLocation now u lat lng w)"
proof -
  obtain r w1 where find: "findIdentityByUserId now u w = (Inr r, w1)"
    using findIdentity_answers [of now u w] by (metis prod.collapse sum.exhaust)
  then obtain m where w1: "w1 = w\<lparr>redis := m\<rparr>" by (blast dest: findIdentity_world)
  show "spotless w (setOnlineStatus now u b w)"
    by (cases r) (simp_all add: setOnlineStatus_def find w1 spotless_after_update)
  show "spotless w (updateLocation now u lat lng w)"
    by (cases r) (simp_all add: updateLocation_def find w1 spotless_after_update)
qed

lemma goOffline_status:
  assumes "goOffline secs now u w = (Inl e, w')"
  shows "http_status e = 500"
proof -
  obtain r w1 where find: "findIdentityByUserId now u w = (Inr r, w1)"
    using findIdentity_answers [of now u w] by (metis prod.collapse sum.exhaust)
  with assms show ?thesis
    by (auto simp: goOffline_def split: option.splits prod.splits sum.splits dest: update_profile_status)
qed

lemma spotless_setActiveProfile: "spotless w (setActiveProfile secs now u prf w)"
  by (auto simp: setActiveProfile_def split: sum.split option.split prod.split
      intro!: spotless_server_error dest: goOffline_status write_status)

subsection \<open>Driver applications\<close>

lemma update_application_status: "update_application i f w = (Inl e, w') \<Longrightarrow> http_status e = 500"
  by (auto simp: update_application_def split: sum.splits option.splits dest: write_status)

lemma spotless_update_application [simp]: "spotless w (update_application i f w')"
  by (rule spotlessI) (simp add: update_application_status)

lemma storage_save_status: "storage_save io b k x w = (Inl e, w') \<Longrightarrow> http_status e = 500"
  by (auto simp: storage_save_def resolveKey_def Let_def split: sum.splits if_splits)

lemma upsert_status: "driverDocument_upsert newId now a ty k file w = Inl e \<Longrightarrow> http_status e = 500"
  by (auto simp: driverDocument_upsert_def split: option.splits sum.splits dest: write_status)

lemma spotless_upload: "spotless w (upload_document io b newId uuid now a ty file w)"
  by (auto simp: upload_document_def Let_def split: prod.split sum.split intro!: spotless_server_error
      dest: storage_save_status upsert_status)

lemma spotless_application_ops:
  "spotless w (startApplication newId now u w)" "spotless w (submitPersonalInfo now u pdto w)"
  "spotless w (uploadOptionalDocument io b newId uuid now u ty file w)"
  "spotless w (reviewApplication newId now i adto w)"
  by (auto simp: startApplication_def submitPersonalInfo_def uploadOptionalDocument_def reviewApplication_def
      split: option.split sum.split intro!: spotless_server_error spotless_upload dest: write_status)

lemma spotless_submitLicense: "spotless w (submitLicense io b newId uuid now u ldto img w)"
proof (cases "loadEditable u w")
  case (Inr a)
  obtain r w1 where up: "upload_document io b newId uuid now (da_id a) DRIVERS_LICENSE img w = (r, w1)" by force
  with Inr spotless_upload [of w io b newId uuid now "da_id a" DRIVERS_LICENSE img] show ?thesis
    by (cases r) (simp_all add: submitLicense_def, simp add: spotless_def)
qed (simp add: submitLicense_def)

subsection \<open>Accounts\<close>

lemma issue_status: "issueTokenPair c ttl i tok now u role w = (Inl e, w') \<Longrightarrow> http_status e = 500"
  by (auto simp: issueTokenPair_def split: sum.splits dest: write_status)

lemma spotless_issue [simp]: "spotless w (issueTokenPair c ttl i tok now u role w')"
  by (rule spotlessI) (simp add: issue_status)

lemma transaction_status:
  "(\<And>q w e. q \<in> set qs \<Longrightarrow> q w = Inl e \<Longrightarrow> http_status e = 500) \<Longrightarrow>
     transaction qs w = Inl e \<Longrightarrow> http_status e = 500"
  by (induction qs arbitrary: w) (auto split: sum.splits)

lemma spotless_account_ops:
  "spotless w (register c ttl salt ui i tok now rdto w)" "spotless w (login c ttl i tok now ldto w)"
  "spotless w (logout c now tok w)" "spotless w (forgotPassword c cttl ex i code now phone w)"
  "spotless w (resetPassword c salt now sdto w)"
  by (auto simp: register_def Let_def login_def logout_def forgotPassword_def resetPassword_def
      simp del: transaction.simps split: option.split sum.split)

text \<open>A session belongs to a user, who is never deleted.\<close>

definition sessions_owned :: "world \<Rightarrow> bool" where
  "sessions_owned w \<longleftrightarrow> rtk_userId ` set (refreshTokens w) \<subseteq> u_id ` set (users w)"

lemma spotless_refresh:
  assumes "sessions_owned w"
  shows "spotless w (refresh c ttl i new now tok w)"
proof (cases "refresh_load c now tok w")
  case (Inr s)
  then have s: "s \<in> set (refreshTokens w)"
    by (auto simp: refresh_load_def dest: lookup_SomeD split: option.splits if_splits)
  then have "rtk_userId s \<in> u_id ` set (users w)" using assms by (auto simp: sessions_owned_def)
  then have "findById (rtk_userId s) w1 \<noteq> None" if "refreshToken_update (rtk_id s) (revoke now) w = Inr w1" for w1
    using refreshToken_update_Inr [OF that] by (auto simp: findById_def lookup_def find_None_iff)
  then have "spotless w (refresh_commit c ttl i new now s w)"
    by (auto simp: refresh_commit_def split: sum.split option.split intro: spotless_server_error dest: write_status)
  with Inr show ?thesis by (simp add: refresh_def)
qed (simp add: refresh_def)

definition owners_kept :: "world \<Rightarrow> world \<Rightarrow> bool" where
  "owners_kept w w' \<longleftrightarrow> (sessions_owned w \<longrightarrow> sessions_owned w')"

interpretation owners_kept: handler_relation owners_kept
  by unfold_locales (simp add: owners_kept_def)

lemma owners_kept_roles:
  assumes "roles_kept w w'"
    and "rtk_userId ` set (refreshTokens w') \<subseteq> rtk_userId ` set (refreshTokens w) \<union> u_id ` set (users w')"
  shows "owners_kept w w'"
proof -
  have ids: "u_id ` set (users v) = fst ` identities v" for v by (simp add: identities_def image_image)
  have users: "fst ` identities w \<subseteq> fst ` identities w'"
    using conjunct1 [OF assms(1) [unfolded roles_kept_def]] by (rule image_mono)
  show ?thesis unfolding owners_kept_def sessions_owned_def ids
  proof
    assume owned: "rtk_userId ` set (refreshTokens w) \<subseteq> fst ` identities w"
    show "rtk_userId ` set (refreshTokens w') \<subseteq> fst ` identities w'"
      by (rule order_trans [OF assms(2) [unfolded ids] Un_least [OF order_trans [OF owned users] order_refl]])
  qed
qed

lemma owners_kept_same: "users w' = users w \<Longrightarrow> refreshTokens w' = refreshTokens w \<Longrightarrow> owners_kept w w'"
  by (simp add: owners_kept_def sessions_owned_def)

lemma owners_kept_frames:
  "frame_rides w w' \<Longrightarrow> owners_kept w w'" "profile_changed u f w w' \<Longrightarrow> owners_kept w w'"
  "frame_onboarding w w' \<Longrightarrow> owners_kept w w'"
proof -
  show "frame_rides w w' \<Longrightarrow> owners_kept w w'" by (rule owners_kept_same) (simp_all add: frame_rides_def)
  show "profile_changed u f w w' \<Longrightarrow> owners_kept w w'"
    by (rule owners_kept_same) (simp_all add: profile_changed_def frame_profiles_def)
  show "frame_onboarding w w' \<Longrightarrow> owners_kept w w'"
    by (rule owners_kept_same) (simp_all add: frame_onboarding_def)
qed

lemma tokens_goOffline: "refreshTokens (snd (goOffline secs now u w)) = refreshTokens w"
  using goOffline_changed [of u w secs now] by (simp add: profile_changed_def frame_profiles_def)

lemma tokens_setActiveProfile: "refreshTokens (snd (setActiveProfile secs now u prf w)) = refreshTokens w"
proof -
  have "refreshTokens (snd (goOffline secs now u (w\<lparr>users := us\<rparr>))) = refreshTokens w" for us
    by (simp add: tokens_goOffline)
  then show ?thesis
    by (auto simp: setActiveProfile_def split: prod.splits sum.splits option.splits dest!: user_update_Inr)
      (metis snd_conv)+
qed

lemma tokens_rateTrip: "refreshTokens (snd (rateTrip newId now i u dto w)) = refreshTokens w"
  by (auto simp: rateTrip_def recalculateRating_def rating_create_Inr
      split: sum.splits prod.splits option.splits dest!: user_update_Inr)

lemma owners_kept_users:
  "owners_kept w (snd (setActiveProfile secs now u prf w))" "owners_kept w (snd (rateTrip newId now i u rdto w))"
  by (rule owners_kept_roles [OF roles_kept_setActiveProfile] owners_kept_roles [OF roles_kept_rateTrip],
      simp add: tokens_setActiveProfile tokens_rateTrip)+

text \<open>A new session is its user's; revoking and deleting sessions takes none elsewhere.\<close>

lemma issue_owner:
  assumes "issueTokenPair c ttl i tok now u role w = (r, w')"
  shows "rtk_userId ` set (refreshTokens w') \<subseteq> rtk_userId ` set (refreshTokens w) \<union> u_id ` set (users w')"
proof (cases r)
  case (Inr pair)
  then have "u \<in> u_id ` set (users w)" "refreshTokens w' = refreshTokens w @ [new_refresh_token c ttl i tok now u]"
    "users w' = users w"
    using assms by (auto simp: issueTokenPair_def refreshToken_create_Inr create_row_Inr new_refresh_token_def
        split: sum.splits dest!: lookup_SomeD)
  then show ?thesis by (simp add: new_refresh_token_def)
qed (use assms in \<open>auto simp: issueTokenPair_def split: sum.splits\<close>)

lemma owners_kept_tokens:
  assumes "rtk_userId ` set (refreshTokens w1) = rtk_userId ` set (refreshTokens w)" "users w1 = users w"
  shows "owners_kept w (snd (issueTokenPair c ttl i tok now u role w1))"
proof -
  obtain r w' where issue: "issueTokenPair c ttl i tok now u role w1 = (r, w')" by force
  from issue_owner [OF issue] issue_users [OF issue] assms show ?thesis
    unfolding owners_kept_def sessions_owned_def issue by simp blast
qed

lemma owners_kept_login: "owners_kept w (snd (login c ttl i tok now dto w))"
  by (auto simp: login_def owners_kept.unchanged split: option.split intro: owners_kept_tokens [OF refl refl])

lemma owners_kept_register: "owners_kept w (snd (register c ttl salt ui i tok now dto w))"
proof -
  have "owners_kept w (snd (issueTokenPair c ttl i tok now u role w1))" if "user_create x w = Inr w1" for x u role w1
  proof -
    have "owners_kept w w1" using that by (auto simp: user_create_Inr owners_kept_def sessions_owned_def)
    moreover have "owners_kept w1 (snd (issueTokenPair c ttl i tok now u role w1))"
      by (rule owners_kept_tokens [OF refl refl])
    ultimately show ?thesis by (simp add: owners_kept_def)
  qed
  then show ?thesis
    by (auto simp: register_def Let_def owners_kept.unchanged split: option.split sum.split)
qed

lemma owners_kept_refresh: "owners_kept w (snd (refresh c ttl i new now tok w))"
proof -
  have "owners_kept w w1" "owners_kept w (snd (issueTokenPair c ttl i new now u role w1))"
    if "refreshToken_update j (revoke now) w = Inr w1" for j w1 u role
  proof -
    have "rtk_userId ` set (refreshTokens w1) = rtk_userId ` set (refreshTokens w)" "users w1 = users w"
      using refreshToken_update_Inr [OF that] by (simp_all add: image_update_where revoke_def)
    then show "owners_kept w w1" "owners_kept w (snd (issueTokenPair c ttl i new now u role w1))"
      by (simp add: owners_kept_def sessions_owned_def, rule owners_kept_tokens)
  qed
  then show ?thesis
    by (auto simp: refresh_def refresh_commit_def owners_kept.unchanged split: option.split sum.split)
qed

lemma owners_kept_resetPassword: "owners_kept w (snd (resetPassword c salt now dto w))"
  by (auto simp: resetPassword_def owners_kept.unchanged simp del: transaction.simps
      split: option.split sum.split dest!: resetPassword_commit)
    (simp add: owners_kept_def sessions_owned_def image_update_where revoke_def)

lemma owners_kept_others:
  "owners_kept w (snd (logout c now tok w))" "owners_kept w (removeExpiredRefreshTokens now w)"
  "owners_kept w (snd (forgotPassword c cttl ex i code now phone w))"
proof -
  show "owners_kept w (snd (logout c now tok w))" "owners_kept w (removeExpiredRefreshTokens now w)"
    by (auto simp: owners_kept_def sessions_owned_def logout_def refreshToken_updateMany_def
        removeExpiredRefreshTokens_def image_update_where revoke_def)
  show "owners_kept w (snd (forgotPassword c cttl ex i code now phone w))"
    by (rule owners_kept_same)
      (auto simp: forgotPassword_def sms_send_def passwordResetToken_updateMany_def
        passwordResetToken_create_Inr split: option.splits sum.splits)
qed

lemmas owners_kept_ops =
  owners_kept_users owners_kept_login owners_kept_register owners_kept_refresh owners_kept_resetPassword
  owners_kept_others owners_kept_frames(1) [OF frame_rides_process_job]
  frame_rides_ops [THEN owners_kept_frames(1)]
  owners_kept_frames(2) [OF setOnlineStatus_changed] owners_kept_frames(2) [OF updateLocation_changed]
  owners_kept_frames(2) [OF goOffline_changed]
  onboarding_op_frames(1,3,5,7,9) [THEN owners_kept_frames(3)] conjunct1 [OF review_frames, THEN owners_kept_frames(3)]
  owners_kept.guards owners_kept.unchanged

lemma owners_kept_view: "owners_kept w (snd (findOneForUser i u w))"
  using same_world_view [of w i u] by (simp add: same_world_def owners_kept.unchanged)

lemma api_op_owners_kept:
  assumes "api_op env f"
  shows "owners_kept w (f w)"
  using assms
  by cases (simp_all add: endpoint_defs owners_kept_ops owners_kept_view split: option.split)

interpretation owners: invariant_system "\<lambda>w. w = empty_world" "system_step env" sessions_owned for env
proof
  fix w w' assume "system_step env w w'" "sessions_owned w"
  then show "sessions_owned w'" using api_op_owners_kept unfolding system_step_def owners_kept_def by blast
qed (simp add: sessions_owned_def empty_world_def)

subsection \<open>Refused requests\<close>

lemma handle_spotless:
  assumes "handle env probe gn now h user params p w = Some rw" "world_inv w" "sessions_owned w"
    and "h \<noteq> DriverApplication_submitVehicle"
  shows "spotless w rw"
proof -
  note d = world_invD [OF assms(2)]
  note ops = spotless_rides [OF d(1)] spotless_rateTrip [OF d(4)] spotless_driver_ops spotless_setActiveProfile
    spotless_application_ops spotless_submitLicense spotless_account_ops spotless_refresh [OF assms(3)]
  show ?thesis using assms(1,4)
    by (cases h; cases p) (auto simp: endpoint_defs ops spotless_guards split: option.split
        intro!: spotless_guards ops)
qed

text \<open>
  C14: a refused request changes nothing. In a reachable database a request answered with a 4xx status
  (no route, too many requests, no token, the wrong role or mode, a malformed body, a missing row, a
  conflict) leaves every table, the event log, the queue, the files and the messages as they were; at
  most an identity it looked up stays in the cache. The one exception is the vehicle step of an
  application, which keeps the documents it stored before it found one missing.
\<close>

theorem refused_requests_change_nothing:
  assumes "(system_step (he_api he))\<^sup>*\<^sup>* empty_world w"
    and "serve he gn now rq (t, w) = Some (rp, t', w')"
    and "400 \<le> hr_status rp" "hr_status rp < 500"
    and "\<And>r params. dispatch routes (rq_method rq) (rq_path rq) = Some (r, params) \<Longrightarrow>
      route_handler r \<noteq> DriverApplication_submitVehicle"
  shows "w'\<lparr>redis := redis w\<rparr> = w"
  using assms(2)
proof (cases rule: serve_cases)
  case (handled r params user rw)
  have "spotless w rw"
    using handle_spotless [OF handled(3) backend.reachable_inv [OF refl assms(1)]
        owners.reachable_inv [OF refl assms(1)] assms(5) [OF handled(1)]] .
  moreover have "\<exists>e. fst rw = Inl e \<and> http_status e < 500"
    using assms(3,4) handled(4) route_facts(3) [OF dispatch_Some(1) [OF handled(1)]]
    by (auto simp: respond_def refused_def split: sum.splits)
  ultimately show ?thesis using handled(5) by (auto simp: spotless_def same_but_cache_def)
qed simp_all

lemma refused_requests_change_nothing_witness:
  "\<exists>rp t' w'. serve sample_http sample_generated 20
       (sample_request POST ''/api/v1/ride-requests/q/cancel'' (Some ''ux'') (CancelRideRequestBody None))
       (0, offered_world) = Some (rp, t', w') \<and> hr_status rp = 403 \<and> w'\<lparr>redis := redis offered_world\<rparr> = offered_world"
proof -
  let ?rq = "sample_request POST ''/api/v1/ride-requests/q/cancel'' (Some ''ux'') (CancelRideRequestBody None)"
  let ?run = "serve sample_http sample_generated 20 ?rq (0, offered_world)"
  have "map_option (\<lambda>(rp, t', w'). hr_status rp) ?run = Some 403" by code_simp
  then obtain rp t' w' where run: "?run = Some (rp, t', w')" "hr_status rp = 403" by auto
  have reach: "(system_step (he_api sample_http))\<^sup>*\<^sup>* empty_world offered_world"
    using reachable(1) by (simp add: sample_http_def)
  have "dispatch routes (rq_method ?rq) (rq_path ?rq) = Some (routes ! 20, [''q''])"
    "route_handler (routes ! 20) = RideRequests_cancel" by code_simp+
  then have "w'\<lparr>redis := redis offered_world\<rparr> = offered_world"
    using refused_requests_change_nothing [OF reach run(1)] run(2) by auto
  with run show ?thesis by auto
qed

end
