(* ===== verification/Config.thy ===== *)
theory Config
  imports Endpoints "HOL-Library.Monad_Syntax"
begin

section \<open>Config: from the environment to a configured server\<close>

text \<open>
  Models \<open>config/env.validation.ts\<close> and what \<open>main.ts\<close>, the modules, the gateway and the upload
  endpoints read of the environment. A server starts when the schema accepts the environment; Joi's
  number syntax and URI grammar and the \<open>ms\<close> package are parameters. An empty string is refused by
  \<open>Joi.string()\<close>, as its documentation says.
\<close>

type_synonym environment = "string \<rightharpoonup> string"

record joi =
  joi_number :: "string \<Rightarrow> real option"
  joi_uri :: "string \<Rightarrow> bool"

record Config =
  cf_NODE_ENV :: string
  cf_PORT :: real
  cf_DATABASE_URL :: string
  cf_REDIS_URL :: string
  cf_JWT_SECRET :: string
  cf_JWT_ACCESS_EXPIRES_IN :: string
  cf_JWT_REFRESH_EXPIRES_IN :: string
  cf_PASSWORD_RESET_CODE_EXPIRES_IN :: string
  cf_RIDE_MATCH_RADIUS_KM :: real
  cf_OFFER_EXPIRY_SECONDS :: real
  cf_CORS_ORIGIN :: "string option"
  cf_UPLOAD_DIR :: string
  cf_MAX_UPLOAD_SIZE_MB :: real

subsection \<open>The rules of the schema\<close>

definition string_required :: "(string \<Rightarrow> bool) \<Rightarrow> string option \<Rightarrow> string option" where
  "string_required ok v = (case v of None \<Rightarrow> None | Some s \<Rightarrow> if s \<noteq> [] \<and> ok s then Some s else None)"

definition string_default :: "(string \<Rightarrow> bool) \<Rightarrow> string \<Rightarrow> string option \<Rightarrow> string option" where
  "string_default ok d v = (case v of None \<Rightarrow> Some d | Some s \<Rightarrow> if s \<noteq> [] \<and> ok s then Some s else None)"

definition string_optional :: "string option \<Rightarrow> string option option" where
  "string_optional v = (case v of None \<Rightarrow> Some None | Some s \<Rightarrow> if s \<noteq> [] then Some (Some s) else None)"

definition number_default :: "joi \<Rightarrow> (real \<Rightarrow> bool) \<Rightarrow> real \<Rightarrow> string option \<Rightarrow> real option" where
  "number_default j ok d v =
     (case v of
        None \<Rightarrow> Some d
      | Some s \<Rightarrow> (case joi_number j s of None \<Rightarrow> None | Some x \<Rightarrow> if ok x then Some x else None))"

definition envValidationSchema :: "joi \<Rightarrow> environment \<Rightarrow> Config option" where
  "envValidationSchema j env =
     do {
       node_env \<leftarrow> string_default (\<lambda>s. s \<in> {''development'', ''test'', ''production''}) ''development''
         (env ''NODE_ENV'');
       port \<leftarrow> number_default j (\<lambda>x. True) 3000 (env ''PORT'');
       database \<leftarrow> string_required (joi_uri j) (env ''DATABASE_URL'');
       cache \<leftarrow> string_required (joi_uri j) (env ''REDIS_URL'');
       secret \<leftarrow> string_required (\<lambda>s. 16 \<le> length s) (env ''JWT_SECRET'');
       access \<leftarrow> string_default (\<lambda>s. True) ''15m'' (env ''JWT_ACCESS_EXPIRES_IN'');
       refresh \<leftarrow> string_default (\<lambda>s. True) ''30d'' (env ''JWT_REFRESH_EXPIRES_IN'');
       code \<leftarrow> string_default (\<lambda>s. True) ''15m'' (env ''PASSWORD_RESET_CODE_EXPIRES_IN'');
       radius \<leftarrow> number_default j (\<lambda>x. 0 < x) 5 (env ''RIDE_MATCH_RADIUS_KM'');
       expiry \<leftarrow> number_default j (\<lambda>x. 0 < x) 60 (env ''OFFER_EXPIRY_SECONDS'');
       cors \<leftarrow> string_optional (env ''CORS_ORIGIN'');
       uploads \<leftarrow> string_default (\<lambda>s. True) ''./uploads'' (env ''UPLOAD_DIR'');
       megabytes \<leftarrow> number_default j (\<lambda>x. 0 < x) 10 (env ''MAX_UPLOAD_SIZE_MB'');
       Some \<lparr>cf_NODE_ENV = node_env, cf_PORT = port, cf_DATABASE_URL = database, cf_REDIS_URL = cache,
         cf_JWT_SECRET = secret, cf_JWT_ACCESS_EXPIRES_IN = access, cf_JWT_REFRESH_EXPIRES_IN = refresh,
         cf_PASSWORD_RESET_CODE_EXPIRES_IN = code, cf_RIDE_MATCH_RADIUS_KM = radius,
         cf_OFFER_EXPIRY_SECONDS = expiry, cf_CORS_ORIGIN = cors, cf_UPLOAD_DIR = uploads,
         cf_MAX_UPLOAD_SIZE_MB = megabytes\<rparr>
     }"

subsection \<open>What reads it\<close>

text \<open>\<open>split(',')\<close>; no origins means \<open>'*'\<close>.\<close>

fun split_comma :: "string \<Rightarrow> string list" where
  "split_comma [] = [[]]"
| "split_comma (c # s) =
     (if c = CHR '','' then [] # split_comma s
      else (case split_comma s of [] \<Rightarrow> [[c]] | p # ps \<Rightarrow> (c # p) # ps))"

definition http_origins :: "Config \<Rightarrow> string list option" where
  "http_origins cfg =
     (case cf_CORS_ORIGIN cfg of None \<Rightarrow> None | Some s \<Rightarrow> if s = [] then None else Some (split_comma s))"

definition gateway_origins :: "environment \<Rightarrow> string list option" where
  "gateway_origins env =
     (case env ''CORS_ORIGIN'' of None \<Rightarrow> None | Some s \<Rightarrow> if s = [] then None else Some (split_comma s))"

definition swagger_mounted :: "Config \<Rightarrow> bool" where
  "swagger_mounted cfg \<longleftrightarrow> cf_NODE_ENV cfg \<noteq> ''production''"

text \<open>The secret and the lifetime each module signs with, and the secret the strategy verifies with.\<close>

definition auth_jwt_options :: "Config \<Rightarrow> string \<times> string" where
  "auth_jwt_options cfg = (cf_JWT_SECRET cfg, cf_JWT_ACCESS_EXPIRES_IN cfg)"

definition realtime_jwt_options :: "Config \<Rightarrow> string \<times> string" where
  "realtime_jwt_options cfg = (cf_JWT_SECRET cfg, cf_JWT_ACCESS_EXPIRES_IN cfg)"

definition strategy_secret :: "Config \<Rightarrow> string" where
  "strategy_secret cfg = cf_JWT_SECRET cfg"

text \<open>The upload endpoints read \<open>process.env\<close> themselves; \<open>Number\<close> is \<open>js_number\<close>.\<close>

definition maxUploadSizeBytes :: "(string \<Rightarrow> real) \<Rightarrow> environment \<Rightarrow> real" where
  "maxUploadSizeBytes js_number env =
     (case env ''MAX_UPLOAD_SIZE_MB'' of None \<Rightarrow> 10 | Some s \<Rightarrow> js_number s) * 1024 * 1024"

record upload_limits =
  ul_fileSize :: real
  ul_files :: nat
  ul_fields :: nat
  ul_fieldNameSize :: nat

definition uploadLimits :: "real \<Rightarrow> nat \<Rightarrow> nat \<Rightarrow> upload_limits" where
  "uploadLimits bytes maxFiles maxFields =
     \<lparr>ul_fileSize = bytes, ul_files = maxFiles, ul_fields = maxFields, ul_fieldNameSize = 100\<rparr>"

text \<open>
  The parameters of the services. \<open>ms\<close> gives no number for a text it does not know, and a date computed
  with it is invalid: the operation that needs it fails.
\<close>

definition configured :: "(string \<Rightarrow> int option) \<Rightarrow> string \<Rightarrow> Config \<Rightarrow> api_env \<Rightarrow> api_env option" where
  "configured ms cwd cfg env =
     (case (ms (cf_JWT_REFRESH_EXPIRES_IN cfg), ms (cf_PASSWORD_RESET_CODE_EXPIRES_IN cfg)) of
        (Some refreshTtl, Some codeTtl) \<Rightarrow>
          Some (env\<lparr>api_matchRadiusKm := cf_RIDE_MATCH_RADIUS_KM cfg,
            api_expirySeconds := cf_OFFER_EXPIRY_SECONDS cfg, api_refreshTtl := refreshTtl,
            api_codeTtl := codeTtl, api_codeExpiresIn := cf_PASSWORD_RESET_CODE_EXPIRES_IN cfg,
            api_uploadDir := resolve cwd (cf_UPLOAD_DIR cfg)\<rparr>)
      | _ \<Rightarrow> None)"

subsection \<open>The schema's rules, inverted\<close>

lemma config_rules:
  "string_required ok v = Some s \<longleftrightarrow> v = Some s \<and> s \<noteq> [] \<and> ok s"
  "string_default ok d v = Some s \<longleftrightarrow> v = None \<and> s = d \<or> v = Some s \<and> s \<noteq> [] \<and> ok s"
  "string_optional v = Some u \<longleftrightarrow> u = v \<and> v \<noteq> Some []"
  "number_default j okn x v = Some y \<longleftrightarrow>
     v = None \<and> y = x \<or> (\<exists>t. v = Some t \<and> joi_number j t = Some y \<and> okn y)"
  by (auto simp: string_required_def string_default_def string_optional_def number_default_def
      split: option.splits if_splits)

lemma envValidationSchema_Some:
  assumes "envValidationSchema j env = Some cfg"
  shows "string_default (\<lambda>s. s \<in> {''development'', ''test'', ''production''}) ''development'' (env ''NODE_ENV'')
      = Some (cf_NODE_ENV cfg)"
    and "string_required (\<lambda>s. 16 \<le> length s) (env ''JWT_SECRET'') = Some (cf_JWT_SECRET cfg)"
    and "number_default j (\<lambda>x. 0 < x) 5 (env ''RIDE_MATCH_RADIUS_KM'') = Some (cf_RIDE_MATCH_RADIUS_KM cfg)"
    and "number_default j (\<lambda>x. 0 < x) 60 (env ''OFFER_EXPIRY_SECONDS'') = Some (cf_OFFER_EXPIRY_SECONDS cfg)"
    and "string_optional (env ''CORS_ORIGIN'') = Some (cf_CORS_ORIGIN cfg)"
    and "number_default j (\<lambda>x. 0 < x) 10 (env ''MAX_UPLOAD_SIZE_MB'') = Some (cf_MAX_UPLOAD_SIZE_MB cfg)"
  using assms by (auto simp: envValidationSchema_def bind_eq_Some_conv)

fun join_commas :: "string list \<Rightarrow> string" where
  "join_commas [] = []"
| "join_commas [s] = s"
| "join_commas (s # t # ss) = s @ CHR '','' # join_commas (t # ss)"

lemma split_comma_pieces: "s' \<in> set (split_comma s) \<Longrightarrow> CHR '','' \<notin> set s'"
  by (induction s arbitrary: s') (fastforce split: if_splits list.splits)+

lemma split_comma_nonempty: "split_comma s \<noteq> []"
  by (induction s) (auto split: list.splits)

lemma join_split: "join_commas (split_comma s) = s"
proof (induction s)
  case (Cons c s)
  obtain p ps where p: "split_comma s = p # ps" using split_comma_nonempty [of s] by (cases "split_comma s") auto
  with Cons show ?case by (cases ps) auto
qed simp

text \<open>
  A server that started is soundly configured. The schema accepts an environment only with a JWT
  secret of at least 16 characters, a positive matching radius, offer expiry and upload size, and a known
  mode; unset variables have their defaults. HTTP and the WebSocket gateway then allow the same
  origins, the comma-separated pieces of \<open>CORS_ORIGIN\<close> or all of them when it is unset, both sign and
  verify tokens with one secret, and the size the upload endpoints read themselves is the validated one
  (given that \<open>Number\<close> reads what Joi accepted).
\<close>

lemma started_servers_are_configured:
  assumes "envValidationSchema j env = Some cfg"
    and "\<And>s x. joi_number j s = Some x \<Longrightarrow> js_number s = x"
  shows "16 \<le> length (cf_JWT_SECRET cfg) \<and> 0 < cf_RIDE_MATCH_RADIUS_KM cfg \<and> 0 < cf_OFFER_EXPIRY_SECONDS cfg \<and>
    cf_NODE_ENV cfg \<in> {''development'', ''test'', ''production''} \<and>
    (env ''OFFER_EXPIRY_SECONDS'' = None \<longrightarrow> cf_OFFER_EXPIRY_SECONDS cfg = 60) \<and>
    (env ''NODE_ENV'' = None \<longrightarrow> swagger_mounted cfg) \<and>
    http_origins cfg = gateway_origins env \<and>
    (case gateway_origins env of
       None \<Rightarrow> env ''CORS_ORIGIN'' = None
     | Some origins \<Rightarrow> env ''CORS_ORIGIN'' = Some (join_commas origins) \<and>
         (\<forall>origin \<in> set origins. CHR '','' \<notin> set origin)) \<and>
    auth_jwt_options cfg = realtime_jwt_options cfg \<and> fst (auth_jwt_options cfg) = strategy_secret cfg \<and>
    maxUploadSizeBytes js_number env = cf_MAX_UPLOAD_SIZE_MB cfg * 1048576 \<and> 0 < maxUploadSizeBytes js_number env"
proof -
  note rules = envValidationSchema_Some [OF assms(1), unfolded config_rules]
  have cors: "cf_CORS_ORIGIN cfg = env ''CORS_ORIGIN''" "env ''CORS_ORIGIN'' \<noteq> Some []"
    using rules(5) by simp_all
  have others: "16 \<le> length (cf_JWT_SECRET cfg)" "0 < cf_RIDE_MATCH_RADIUS_KM cfg" "0 < cf_OFFER_EXPIRY_SECONDS cfg"
    "cf_NODE_ENV cfg \<in> {''development'', ''test'', ''production''}"
    "env ''OFFER_EXPIRY_SECONDS'' = None \<longrightarrow> cf_OFFER_EXPIRY_SECONDS cfg = 60"
    "env ''NODE_ENV'' = None \<longrightarrow> cf_NODE_ENV cfg = ''development''"
    using rules(1-4) by auto
  have "http_origins cfg = gateway_origins env" by (simp add: http_origins_def gateway_origins_def cors(1))
  moreover have "case gateway_origins env of None \<Rightarrow> env ''CORS_ORIGIN'' = None
     | Some origins \<Rightarrow> env ''CORS_ORIGIN'' = Some (join_commas origins) \<and>
         (\<forall>origin \<in> set origins. CHR '','' \<notin> set origin)"
    using cors(2) split_comma_pieces by (auto simp: gateway_origins_def join_split split: option.split)
  moreover have "maxUploadSizeBytes js_number env = cf_MAX_UPLOAD_SIZE_MB cfg * 1048576 \<and> 0 < cf_MAX_UPLOAD_SIZE_MB cfg"
    using rules(6) assms(2) by (auto simp: maxUploadSizeBytes_def)
  ultimately show ?thesis using others
    by (auto simp: swagger_mounted_def auth_jwt_options_def realtime_jwt_options_def strategy_secret_def)
qed

definition sample_environment :: environment where
  "sample_environment =
     [''JWT_SECRET'' \<mapsto> ''0123456789abcdef'', ''DATABASE_URL'' \<mapsto> ''postgresql://db'', ''REDIS_URL'' \<mapsto> ''redis://c'',
      ''CORS_ORIGIN'' \<mapsto> ''http://a,http://b'']"

definition sample_joi :: joi where
  "sample_joi = \<lparr>joi_number = (\<lambda>s. None), joi_uri = (\<lambda>s. True)\<rparr>"

lemma sample_accepted: "envValidationSchema sample_joi sample_environment \<noteq> None"
  by (simp add: envValidationSchema_def sample_environment_def sample_joi_def string_default_def string_required_def
      string_optional_def number_default_def)

lemma started_servers_are_configured_witness:
  "\<exists>cfg. envValidationSchema sample_joi sample_environment = Some cfg \<and>
     http_origins cfg = Some [''http://a'', ''http://b''] \<and> 0 < cf_OFFER_EXPIRY_SECONDS cfg"
proof -
  obtain cfg where cfg: "envValidationSchema sample_joi sample_environment = Some cfg"
    using sample_accepted by blast
  have "http_origins cfg = gateway_origins sample_environment \<and> 0 < cf_OFFER_EXPIRY_SECONDS cfg"
    using started_servers_are_configured [OF cfg, of "\<lambda>s. 0"] by (simp add: sample_joi_def)
  moreover have "gateway_origins sample_environment = Some [''http://a'', ''http://b'']"
    by (simp add: gateway_origins_def sample_environment_def)
  ultimately show ?thesis using cfg by auto
qed

text \<open>
  The schema does not look at the durations: any text passes, and one that \<open>ms\<close> does not know leaves the
  services without the lifetime of a session.
\<close>

lemma durations_are_not_checked:
  assumes "envValidationSchema j env = Some cfg" "s \<noteq> []" "ms s = None"
  shows "\<exists>cfg'. envValidationSchema j (env(''JWT_REFRESH_EXPIRES_IN'' \<mapsto> s)) = Some cfg' \<and>
    configured ms cwd cfg' api = None"
proof -
  let ?cfg = "cfg\<lparr>cf_JWT_REFRESH_EXPIRES_IN := s\<rparr>"
  have "envValidationSchema j (env(''JWT_REFRESH_EXPIRES_IN'' \<mapsto> s)) = Some ?cfg"
    using assms(1,2) by (auto simp: envValidationSchema_def bind_eq_Some_conv string_default_def [of _ _ "Some s"])
  moreover have "configured ms cwd ?cfg api = None" using assms(3) by (simp add: configured_def)
  ultimately show ?thesis by blast
qed

end
