(* ===== verification/Seed.thy ===== *)
theory Seed
  imports Applications Auth
begin

section \<open>Seed: the demonstration data\<close>

text \<open>
  Models \<open>prisma/seed.ts\<close>: an admin and five verified drivers around Lagos, each written by upserts that
  leave an existing user and application alone but put an existing profile online at its position. A
  call that throws ends the script, what was written before stays. The identifiers and the password hash
  are arguments, as is the clock.
\<close>

record seed_driver =
  sd_name :: string
  sd_lat :: real
  sd_lng :: real
  sd_area :: string

definition LAGOS_DRIVERS :: "seed_driver list" where
  "LAGOS_DRIVERS =
     [\<lparr>sd_name = ''Tunde Bakare'', sd_lat = 64531 / 10000, sd_lng = 33958 / 10000, sd_area = ''Yaba''\<rparr>,
      \<lparr>sd_name = ''Ifeoma Chukwu'', sd_lat = 64281 / 10000, sd_lng = 34219 / 10000, sd_area = ''Ikoyi''\<rparr>,
      \<lparr>sd_name = ''Segun Adeyemi'', sd_lat = 65833 / 10000, sd_lng = 335 / 100, sd_area = ''Ikeja''\<rparr>,
      \<lparr>sd_name = ''Blessing Okafor'', sd_lat = 64698 / 10000, sd_lng = 35852 / 10000, sd_area = ''Lekki''\<rparr>,
      \<lparr>sd_name = ''Musa Abdullahi'', sd_lat = 6455 / 1000, sd_lng = 33841 / 10000, sd_area = ''Surulere''\<rparr>]"

fun decimal :: "nat \<Rightarrow> string" where
  "decimal n = (if n < 10 then [char_of (48 + n)] else decimal (n div 10) @ [char_of (48 + n mod 10)])"

declare decimal.simps [simp del]

definition padStart :: "nat \<Rightarrow> char \<Rightarrow> string \<Rightarrow> string" where
  "padStart n c s = replicate (n - length s) c @ s"

definition seed_phone :: "nat \<Rightarrow> string" where
  "seed_phone i = ''+234800000'' @ padStart 4 (CHR ''0'') (decimal i)"

text \<open>The identifiers the database generates: of the user, the application and the profile.\<close>

record seed_ids =
  si_user :: string
  si_application :: string
  si_profile :: string

subsection \<open>Upserts\<close>

definition user_upsert :: "User \<Rightarrow> world \<Rightarrow> error + User \<times> world" where
  "user_upsert row w =
     (case lookup u_phone (u_phone row) (users w) of
        Some user \<Rightarrow> Inr (user, w)
      | None \<Rightarrow> (case user_create row w of Inl e \<Rightarrow> Inl e | Inr w' \<Rightarrow> Inr (row, w')))"

definition application_upsert :: "DriverApplication \<Rightarrow> world \<Rightarrow> error + DriverApplication \<times> world" where
  "application_upsert row w =
     (case lookup da_userId (da_userId row) (driverApplications w) of
        Some a \<Rightarrow> Inr (a, w)
      | None \<Rightarrow> (case driverApplication_create row w of Inl e \<Rightarrow> Inl e | Inr w' \<Rightarrow> Inr (row, w')))"

definition placed :: "seed_driver \<Rightarrow> DriverProfile \<Rightarrow> DriverProfile" where
  "placed d p = p\<lparr>dp_currentLat := Some (sd_lat d), dp_currentLng := Some (sd_lng d), dp_isOnline := True\<rparr>"

definition profile_upsert :: "seed_driver \<Rightarrow> DriverProfile \<Rightarrow> world \<Rightarrow> error + world" where
  "profile_upsert d row w =
     (case lookup dp_userId (dp_userId row) (driverProfiles w) of
        Some p \<Rightarrow> driverProfile_update (\<lambda>p. dp_userId p = dp_userId row) (placed d) w
      | None \<Rightarrow> driverProfile_create row w)"

subsection \<open>The rows\<close>

definition admin_phone :: string where
  "admin_phone = ''+2348000009999''"

definition seeded_admin :: "string \<Rightarrow> string \<Rightarrow> int \<Rightarrow> User" where
  "seeded_admin i passwordHash now =
     \<lparr>u_id = i, u_name = ''Reedr Admin'', u_phone = admin_phone, u_password = passwordHash, u_role = ADMIN,
      u_activeProfile = RIDER, u_rating = 5, u_createdAt = now\<rparr>"

definition seeded_user :: "string \<Rightarrow> string \<Rightarrow> int \<Rightarrow> nat \<Rightarrow> seed_driver \<Rightarrow> User" where
  "seeded_user newId passwordHash now i d =
     \<lparr>u_id = newId, u_name = sd_name d, u_phone = seed_phone i, u_password = passwordHash, u_role = USER,
      u_activeProfile = DRIVER, u_rating = 5, u_createdAt = now\<rparr>"

definition seeded_application :: "string \<Rightarrow> int \<Rightarrow> nat \<Rightarrow> seed_driver \<Rightarrow> string \<Rightarrow> DriverApplication" where
  "seeded_application newId now i d userId =
     \<lparr>da_id = newId, da_userId = userId, da_status = VERIFIED, da_fullLegalName = Some (sd_name d),
      da_dateOfBirth = Some 631152000000, da_residentialAddress = Some (sd_area d @ '', Lagos''),
      da_licenseNumber = Some (''LSD-SEED-'' @ padStart 4 (CHR ''0'') (decimal i)),
      da_licenseExpiryDate = Some 1893456000000, da_vehicleMake = Some ''Toyota'',
      da_vehicleModel = Some ''Corolla'', da_vehicleYear = Some 2018, da_vehicleColor = Some ''Silver'',
      da_plateNumber = Some (''LAG-'' @ decimal (100 + i) @ ''-XY''),
      da_registrationExpiryDate = Some 1893456000000, da_rejectionReason = None,
      da_submittedAt = Some now, da_reviewedAt = Some now, da_createdAt = now, da_updatedAt = now\<rparr>"

definition seeded_profile :: "string \<Rightarrow> seed_driver \<Rightarrow> string \<Rightarrow> string \<Rightarrow> DriverProfile" where
  "seeded_profile newId d userId applicationId =
     \<lparr>dp_id = newId, dp_userId = userId, dp_driverApplicationId = applicationId, dp_isOnline = True,
      dp_currentLat = Some (sd_lat d), dp_currentLng = Some (sd_lng d), dp_locationUpdatedAt = None\<rparr>"

subsection \<open>The script\<close>

definition seed_one :: "seed_ids \<Rightarrow> string \<Rightarrow> int \<Rightarrow> nat \<Rightarrow> seed_driver \<Rightarrow> world \<Rightarrow> unit result" where
  "seed_one ids passwordHash now i d w =
     (case user_upsert (seeded_user (si_user ids) passwordHash now i d) w of
        Inl e \<Rightarrow> (Inl e, w)
      | Inr (user, w1) \<Rightarrow>
          (case application_upsert (seeded_application (si_application ids) now i d (u_id user)) w1 of
             Inl e \<Rightarrow> (Inl e, w1)
           | Inr (application, w2) \<Rightarrow>
               (case profile_upsert d (seeded_profile (si_profile ids) d (u_id user) (da_id application)) w2 of
                  Inl e \<Rightarrow> (Inl e, w2)
                | Inr w3 \<Rightarrow> (Inr (), w3))))"

fun seed_drivers ::
  "(nat \<Rightarrow> seed_ids) \<Rightarrow> string \<Rightarrow> int \<Rightarrow> nat \<Rightarrow> seed_driver list \<Rightarrow> world \<Rightarrow> unit result" where
  "seed_drivers ids passwordHash now i [] w = (Inr (), w)"
| "seed_drivers ids passwordHash now i (d # ds) w =
     (case seed_one (ids i) passwordHash now i d w of
        (Inl e, w1) \<Rightarrow> (Inl e, w1)
      | (Inr _, w1) \<Rightarrow> seed_drivers ids passwordHash now (Suc i) ds w1)"

definition seed_main :: "string \<Rightarrow> (nat \<Rightarrow> seed_ids) \<Rightarrow> string \<Rightarrow> int \<Rightarrow> world \<Rightarrow> unit result" where
  "seed_main adminId ids passwordHash now w =
     (case user_upsert (seeded_admin adminId passwordHash now) w of
        Inl e \<Rightarrow> (Inl e, w)
      | Inr (_, w1) \<Rightarrow> seed_drivers ids passwordHash now 0 LAGOS_DRIVERS w1)"

end
