(* ===== verification/SeedSpecs.thy ===== *)
theory SeedSpecs
  imports Seed System
begin

section \<open>SeedSpecs: what seeding leaves\<close>

text \<open>
  The script can be run again: a second run right after the first finds everything it would write. Run
  later it overrules what its drivers did since.
\<close>

definition seeded :: "nat \<Rightarrow> seed_driver \<Rightarrow> world \<Rightarrow> bool" where
  "seeded i d w \<longleftrightarrow>
     (\<exists>u a p. lookup u_phone (seed_phone i) (users w) = Some u \<and>
        lookup da_userId (u_id u) (driverApplications w) = Some a \<and>
        lookup dp_userId (u_id u) (driverProfiles w) = Some p \<and> placed d p = p)"

definition seed_inv :: "world \<Rightarrow> bool" where
  "seed_inv w \<longleftrightarrow> unique_on u_id (users w) \<and> profile_keys_ok w"

lemma placed_same [simp]:
  "dp_id (placed d p) = dp_id p" "dp_userId (placed d p) = dp_userId p"
  "dp_driverApplicationId (placed d p) = dp_driverApplicationId p" "placed d (placed d p) = placed d p"
  by (simp_all add: placed_def)

lemma seed_phone_inj: "i < 10 \<Longrightarrow> j < 10 \<Longrightarrow> seed_phone i = seed_phone j \<Longrightarrow> i = j"
proof -
  assume small: "i < 10" "j < 10" and eq: "seed_phone i = seed_phone j"
  have dec: "decimal k = [char_of (48 + k)]" if "k < 10" for k using that by (simp add: decimal.simps)
  from eq have "(char_of (48 + i) :: char) = char_of (48 + j)"
    by (simp add: seed_phone_def padStart_def dec small)
  then have "(of_char (char_of (48 + i) :: char) :: nat) = of_char (char_of (48 + j) :: char)" by (rule arg_cong)
  with small show "i = j" by simp
qed

text \<open>What the upserts of one driver do.\<close>

lemma user_upsert_Inr:
  assumes "user_upsert row w = Inr (u, w1)"
  obtains us where "w1 = w\<lparr>users := users w @ us\<rparr>" "lookup u_phone (u_phone row) (users w1) = Some u"
    "unique_on u_id (users w) \<Longrightarrow> unique_on u_id (users w1)"
proof (cases "lookup u_phone (u_phone row) (users w)")
  case None
  with assms have "u = row" "w1 = w\<lparr>users := users w @ [row]\<rparr>"
    "create_row user_conflicts True row (users w) = Inr (users w @ [row])"
    by (auto simp: user_upsert_def user_create_Inr split: sum.splits)
  with None show ?thesis
    by (intro that [of "[row]"]) (simp_all add: lookup_append users_id.unique_create)
qed (use assms in \<open>auto simp: user_upsert_def intro: that [of "[]"]\<close>)

lemma application_upsert_Inr:
  assumes "application_upsert row w = Inr (a, w1)"
  obtains xs where "w1 = w\<lparr>driverApplications := driverApplications w @ xs\<rparr>"
    "lookup da_userId (da_userId row) (driverApplications w1) = Some a"
proof (cases "lookup da_userId (da_userId row) (driverApplications w)")
  case None
  with assms have "a = row" "w1 = w\<lparr>driverApplications := driverApplications w @ [row]\<rparr>"
    by (auto simp: application_upsert_def driverApplication_create_def on_table_Inr create_row_Inr split: sum.splits)
  with None show ?thesis by (intro that [of "[row]"]) (simp_all add: lookup_append)
qed (use assms in \<open>auto simp: application_upsert_def intro: that [of "[]"]\<close>)

text \<open>The position: the profile of the user is put in place, or a new one is there already.\<close>

definition positioned :: "seed_driver \<Rightarrow> string \<Rightarrow> DriverProfile list \<Rightarrow> DriverProfile list \<Rightarrow> bool" where
  "positioned d u ps qs \<longleftrightarrow>
     (if lookup dp_userId u ps = None then \<exists>p. qs = ps @ [p] \<and> dp_userId p = u \<and> placed d p = p
      else qs = update_where (\<lambda>p. dp_userId p = u) (placed d) ps)"

lemma profile_upsert_Inr:
  assumes "profile_upsert d row w = Inr w1" "placed d row = row" "profile_keys_ok w"
  shows "\<exists>qs. w1 = w\<lparr>driverProfiles := qs\<rparr> \<and> positioned d (dp_userId row) (driverProfiles w) qs \<and> profile_keys_ok w1"
proof (cases "lookup dp_userId (dp_userId row) (driverProfiles w)")
  case None
  from assms(1) None obtain fk where row: "create_row driverProfile_conflicts fk row (driverProfiles w) = Inr (driverProfiles w @ [row])"
    "w1 = w\<lparr>driverProfiles := driverProfiles w @ [row]\<rparr>"
    by (auto simp: profile_upsert_def driverProfile_create_def on_table_Inr create_row_Inr)
  with None assms(2,3) show ?thesis
    by (auto simp: positioned_def profile_keys_ok_def profiles_id.unique_create [OF row(1)]
        profiles_user.unique_create [OF row(1)] profiles_application.unique_create [OF row(1)])
next
  case (Some p)
  then have "w1 = w\<lparr>driverProfiles := update_where (\<lambda>p. dp_userId p = dp_userId row) (placed d) (driverProfiles w)\<rparr>"
    using assms(1,3) driverProfile_update_ok [of w "dp_userId row" p "placed d"]
    by (simp add: profile_upsert_def profile_keys_ok_def)
  with Some assms(3) show ?thesis by (simp add: positioned_def profile_keys_ok_def unique_on_update_where)
qed

lemma seed_one_Inr:
  assumes run: "seed_one ids h now i d w = (Inr (), w')" and inv: "seed_inv w"
  obtains us xs qs u a where
    "w' = w\<lparr>users := users w @ us, driverApplications := driverApplications w @ xs, driverProfiles := qs\<rparr>"
    "lookup u_phone (seed_phone i) (users w') = Some u" "lookup da_userId (u_id u) (driverApplications w') = Some a"
    "positioned d (u_id u) (driverProfiles w) qs" "seed_inv w'"
proof -
  from run obtain u w1 where 1: "user_upsert (seeded_user (si_user ids) h now i d) w = Inr (u, w1)"
    by (auto simp: seed_one_def split: sum.splits)
  with run obtain a w2 where 2: "application_upsert (seeded_application (si_application ids) now i d (u_id u)) w1 = Inr (a, w2)"
    by (auto simp: seed_one_def split: sum.splits)
  with run 1 have 3: "profile_upsert d (seeded_profile (si_profile ids) d (u_id u) (da_id a)) w2 = Inr w'"
    by (auto simp: seed_one_def split: sum.splits)
  obtain us where us: "w1 = w\<lparr>users := users w @ us\<rparr>" "lookup u_phone (seed_phone i) (users w1) = Some u"
    "unique_on u_id (users w1)"
    using user_upsert_Inr [OF 1] inv by (auto simp: seeded_user_def seed_inv_def)
  obtain xs where xs: "w2 = w1\<lparr>driverApplications := driverApplications w1 @ xs\<rparr>"
    "lookup da_userId (u_id u) (driverApplications w2) = Some a"
    using application_upsert_Inr [OF 2] by (auto simp: seeded_application_def)
  have keys: "profile_keys_ok w2" using inv by (simp add: us xs seed_inv_def profile_keys_ok_def)
  have here: "placed d (seeded_profile i' d u' a') = seeded_profile i' d u' a'" for i' u' a'
    by (simp add: placed_def seeded_profile_def)
  obtain qs where qs: "w' = w2\<lparr>driverProfiles := qs\<rparr>" "positioned d (u_id u) (driverProfiles w2) qs" "profile_keys_ok w'"
    using profile_upsert_Inr [OF 3 here keys] by (auto simp: seeded_profile_def)
  show ?thesis
    by (rule that [where us = us and xs = xs and qs = qs and u = u and a = a]) (use us xs qs in \<open>simp_all add: seed_inv_def\<close>)
qed

lemma positioned_lookup:
  assumes "positioned d u ps qs"
  shows "\<exists>p. lookup dp_userId u qs = Some p \<and> placed d p = p"
proof (cases "lookup dp_userId u ps")
  case (Some p)
  then have "dp_userId p = u" by (auto dest: lookup_SomeD)
  with Some assms show ?thesis by (simp add: positioned_def lookup_update_where)
qed (use assms in \<open>auto simp: positioned_def lookup_append\<close>)

lemma positioned_other:
  assumes "positioned d u ps qs" "v \<noteq> u" "lookup dp_userId v ps = Some p"
  shows "lookup dp_userId v qs = Some p"
proof (cases "lookup dp_userId u ps")
  case None
  with assms show ?thesis by (auto simp: positioned_def lookup_append)
next
  case (Some q)
  moreover have "dp_userId p = v" using assms(3) by (auto dest: lookup_SomeD)
  ultimately show ?thesis using assms by (simp add: positioned_def lookup_update_where)
qed

lemma seed_one_inv: "seed_one ids h now i d w = (Inr (), w') \<Longrightarrow> seed_inv w \<Longrightarrow> seed_inv w'"
  by (erule (1) seed_one_Inr)

lemma seed_one_users:
  assumes "seed_one ids h now i d w = (Inr (), w')" "seed_inv w" "lookup u_phone n (users w) = Some u"
  shows "lookup u_phone n (users w') = Some u"
  using assms by (auto elim!: seed_one_Inr simp: lookup_append)

lemma seed_one_seeded:
  assumes "seed_one ids h now i d w = (Inr (), w')" "seed_inv w"
  shows "seeded i d w'"
  using assms
proof (rule seed_one_Inr)
  fix us xs qs u a
  assume w': "w' = w\<lparr>users := users w @ us, driverApplications := driverApplications w @ xs, driverProfiles := qs\<rparr>"
    and u: "lookup u_phone (seed_phone i) (users w') = Some u"
    and a: "lookup da_userId (u_id u) (driverApplications w') = Some a"
    and ps: "positioned d (u_id u) (driverProfiles w) qs"
  from positioned_lookup [OF ps] obtain p where "lookup dp_userId (u_id u) (driverProfiles w') = Some p" "placed d p = p"
    by (auto simp: w')
  with u a show ?thesis by (auto simp: seeded_def)
qed

lemma seeded_kept:
  assumes "seed_one ids h now i d w = (Inr (), w')" "seed_inv w" "seeded j e w" "i < 10" "j < 10" "i \<noteq> j"
  shows "seeded j e w'"
  using assms(1,2)
proof (rule seed_one_Inr)
  fix us xs qs u a
  assume w': "w' = w\<lparr>users := users w @ us, driverApplications := driverApplications w @ xs, driverProfiles := qs\<rparr>"
    and u: "lookup u_phone (seed_phone i) (users w') = Some u"
    and ps: "positioned d (u_id u) (driverProfiles w) qs" and inv: "seed_inv w'"
  from assms(3) obtain v b p where v: "lookup u_phone (seed_phone j) (users w) = Some v"
    "lookup da_userId (u_id v) (driverApplications w) = Some b"
    "lookup dp_userId (u_id v) (driverProfiles w) = Some p" "placed e p = p"
    by (auto simp: seeded_def)
  have v': "lookup u_phone (seed_phone j) (users w') = Some v" using v(1) by (simp add: w' lookup_append)
  have "u_phone u \<noteq> u_phone v" using lookup_SomeD [OF u] lookup_SomeD [OF v'] seed_phone_inj assms(4-6) by auto
  moreover have "u \<in> set (users w')" "v \<in> set (users w')" using lookup_SomeD [OF u] lookup_SomeD [OF v'] by simp_all
  ultimately have "u_id v \<noteq> u_id u" using inv unique_on_eq unfolding seed_inv_def by metis
  from positioned_other [OF ps this v(3)] v v' show ?thesis by (auto simp: seeded_def w' lookup_append)
qed

lemma seeded_again:
  assumes "seeded i d w" "seed_inv w"
  shows "seed_one ids h now i d w = (Inr (), w)"
proof -
  from assms(1) obtain u a p where u: "lookup u_phone (seed_phone i) (users w) = Some u"
    and a: "lookup da_userId (u_id u) (driverApplications w) = Some a"
    and p: "lookup dp_userId (u_id u) (driverProfiles w) = Some p" "placed d p = p"
    by (auto simp: seeded_def)
  have keys: "unique_on dp_id (driverProfiles w)" "unique_on dp_userId (driverProfiles w)"
    "unique_on dp_driverApplicationId (driverProfiles w)"
    using assms(2) by (simp_all add: seed_inv_def profile_keys_ok_def)
  have "update_where (\<lambda>p. dp_userId p = u_id u) (placed d) (driverProfiles w) = driverProfiles w"
    unfolding update_where_def
  proof (rule map_idI)
    fix q assume "q \<in> set (driverProfiles w)"
    then have "dp_userId q = u_id u \<Longrightarrow> q = p" using lookup_SomeD [OF p(1)] unique_on_eq [OF keys(2)] by simp
    then show "(if dp_userId q = u_id u then placed d q else q) = q" using p(2) by auto
  qed
  then have "driverProfile_update (\<lambda>p. dp_userId p = u_id u) (placed d) w = Inr w"
    using driverProfile_update_ok [OF keys p(1), of "placed d"] by simp
  with u a p show ?thesis
    by (simp add: seed_one_def user_upsert_def application_upsert_def profile_upsert_def seeded_user_def
        seeded_application_def seeded_profile_def)
qed

text \<open>The whole list, by induction on it.\<close>

lemma seed_drivers_Inr:
  assumes "seed_drivers ids h now i ds w = (Inr (), w')" "seed_inv w" "i + length ds \<le> 10"
  shows "seed_inv w' \<and> (\<forall>n u. lookup u_phone n (users w) = Some u \<longrightarrow> lookup u_phone n (users w') = Some u) \<and>
    (\<forall>j < i. \<forall>d. seeded j d w \<longrightarrow> seeded j d w') \<and> (\<forall>k < length ds. seeded (i + k) (ds ! k) w')"
  using assms
proof (induction ds arbitrary: i w)
  case (Cons d ds)
  from Cons.prems(1) obtain w1 where 1: "seed_one (ids i) h now i d w = (Inr (), w1)"
    and 2: "seed_drivers ids h now (Suc i) ds w1 = (Inr (), w')"
    by (auto split: prod.splits sum.splits)
  note IH = Cons.IH [OF 2 seed_one_inv [OF 1 Cons.prems(2)]]
  have here: "seeded i d w'" using IH seed_one_seeded [OF 1 Cons.prems(2)] Cons.prems(3) by simp
  have "seeded (i + k) ((d # ds) ! k) w'" if "k < length (d # ds)" for k
    using that here IH Cons.prems(3) by (cases k) auto
  moreover have "seeded j e w'" if "j < i" "seeded j e w" for j e
    using IH seeded_kept [OF 1 Cons.prems(2) that(2)] that(1) Cons.prems(3) by auto
  moreover have "lookup u_phone n (users w') = Some u" if "lookup u_phone n (users w) = Some u" for n u
    using IH seed_one_users [OF 1 Cons.prems(2) that] Cons.prems(3) by auto
  ultimately show ?case using IH Cons.prems(3) by auto
qed simp

lemma seed_drivers_again:
  assumes "seed_inv w" "\<forall>k < length ds. seeded (i + k) (ds ! k) w"
  shows "seed_drivers ids h now i ds w = (Inr (), w)"
  using assms(2)
proof (induction ds arbitrary: i)
  case (Cons d ds)
  from Cons.prems have "seeded i d w" by force
  moreover have "\<forall>k < length ds. seeded (Suc i + k) (ds ! k) w" using Cons.prems by force
  ultimately show ?case using Cons.IH by (simp add: seeded_again [OF _ assms(1)])
qed simp

text \<open>
  C32: once the script has run to its end, running it again, with whatever identifiers, hash and clock,
  ends well and changes nothing: every one of its drivers is found, and is where it was put.
\<close>

theorem seeding_again_changes_nothing:
  assumes "unique_on u_id (users w)" "profile_keys_ok w" "seed_main adminId ids h now w = (Inr (), w')"
  shows "seed_main adminId' ids' h' now' w' = (Inr (), w')"
proof -
  from assms(3) obtain u w1 where 1: "user_upsert (seeded_admin adminId h now) w = Inr (u, w1)"
    and 2: "seed_drivers ids h now 0 LAGOS_DRIVERS w1 = (Inr (), w')"
    by (auto simp: seed_main_def split: sum.splits)
  obtain us where w1: "w1 = w\<lparr>users := users w @ us\<rparr>" "lookup u_phone admin_phone (users w1) = Some u"
    "unique_on u_id (users w1)"
    using user_upsert_Inr [OF 1] assms(1) by (auto simp: seeded_admin_def)
  have inv: "seed_inv w1" using assms(2) w1 by (simp add: seed_inv_def profile_keys_ok_def)
  have five: "length LAGOS_DRIVERS = 5" by (simp add: LAGOS_DRIVERS_def)
  note all = seed_drivers_Inr [OF 2 inv, unfolded five, simplified]
  from all have "seed_drivers ids' h' now' 0 LAGOS_DRIVERS w' = (Inr (), w')"
    by (intro seed_drivers_again) (simp_all add: five)
  with all w1(2) show ?thesis by (simp add: seed_main_def user_upsert_def seeded_admin_def)
qed

definition sample_ids :: "nat \<Rightarrow> seed_ids" where
  "sample_ids i = \<lparr>si_user = ''u'' @ decimal i, si_application = ''a'' @ decimal i, si_profile = ''p'' @ decimal i\<rparr>"

lemma seeding_again_changes_nothing_witness:
  "let w = snd (seed_main ''admin'' sample_ids ''hash'' 7 empty_world)
   in length (users w) = 6 \<and> length (driverProfiles w) = 5 \<and>
      seed_main ''root'' (\<lambda>_. sample_ids 9) ''other'' 8 w = (Inr (), w)"
proof -
  let ?w = "snd (seed_main ''admin'' sample_ids ''hash'' 7 empty_world)"
  have "fst (seed_main ''admin'' sample_ids ''hash'' 7 empty_world) = Inr ()" by code_simp
  then have run: "seed_main ''admin'' sample_ids ''hash'' 7 empty_world = (Inr (), ?w)" by (metis prod.collapse)
  have rows: "length (users ?w) = 6 \<and> length (driverProfiles ?w) = 5" by code_simp
  have "seed_main ''root'' (\<lambda>_. sample_ids 9) ''other'' 8 ?w = (Inr (), ?w)"
    by (rule seeding_again_changes_nothing [OF _ _ run]) (simp_all add: empty_world_def profile_keys_ok_def)
  with rows show ?thesis by (simp add: Let_def)
qed

text \<open>
  Run later, it is not so harmless: a seeded driver who went back to riding, and is offline since, is
  online again after the next run, with the profile of the account still the rider's. And a seeded
  application is verified without a document.
\<close>

lemma seeding_overrules_the_switch:
  "let w0 = snd (seed_main ''admin'' sample_ids ''hash'' 7 empty_world);
       w1 = snd (setActiveProfile 60 8 ''u0'' RIDER w0);
       w2 = snd (seed_main ''admin'' sample_ids ''hash'' 7 w1);
       state = (\<lambda>w. (map_option u_activeProfile (lookup u_id ''u0'' (users w)),
                     map_option dp_isOnline (lookup dp_userId ''u0'' (driverProfiles w))))
   in state w0 = (Some DRIVER, Some True) \<and> state w1 = (Some RIDER, Some False) \<and>
      state w2 = (Some RIDER, Some True)"
  by code_simp

lemma seeded_applications_have_no_documents:
  "let w = snd (seed_main ''admin'' sample_ids ''hash'' 7 empty_world)
   in driverDocuments w = [] \<and> map da_status (driverApplications w) = replicate 5 VERIFIED"
  by code_simp

end
