(* ===== verification/Market.thy ===== *)
theory Market
  imports Guarantees Logs
begin

section \<open>Market: the protocol the services implement\<close>

text \<open>
  The abstract specification of the ride services: a market maps a ride to its rider and its phase. A
  ride is open with the bids standing on it, each a driver and a fare, or a deal with one driver at one
  fare, or called off. A step is labelled with the user who takes it, or with nobody for the expiry jobs.
  The abstraction reads a ride's phase off the tables; every service operation is one step or none.
\<close>

datatype phase =
    Open "(string \<times> rat) set"
  | Deal TripStatus string rat
  | Called_off

type_synonym market = "string \<rightharpoonup> string \<times> phase"

fun without_bids_of :: "string \<Rightarrow> phase \<Rightarrow> phase" where
  "without_bids_of d (Open B) = Open {b \<in> B. fst b \<noteq> d}"
| "without_bids_of d p = p"

inductive market_step :: "string option \<Rightarrow> market \<Rightarrow> market \<Rightarrow> bool" where
  post: "m i = None \<Longrightarrow> market_step (Some r) m (m(i \<mapsto> (r, Open {})))"
| bid: "m i = Some (r, Open B) \<Longrightarrow>
    market_step (Some d) m (m(i \<mapsto> (r, Open (insert (d, fare) {b \<in> B. fst b \<noteq> d}))))"
| strike: "m i = Some (r, Open B) \<Longrightarrow> (d, fare) \<in> B \<Longrightarrow>
    market_step (Some r) m (m(i \<mapsto> (r, Deal TripStatus.MATCHED d fare)))"
| set_off: "m i = Some (r, Deal TripStatus.MATCHED d fare) \<Longrightarrow>
    market_step (Some d) m (m(i \<mapsto> (r, Deal TripStatus.STARTED d fare)))"
| arrive: "m i = Some (r, Deal TripStatus.STARTED d fare) \<Longrightarrow>
    market_step (Some d) m (m(i \<mapsto> (r, Deal TripStatus.COMPLETED d fare)))"
| call_off: "m i = Some (r, Open B) \<Longrightarrow> market_step (Some r) m (m(i \<mapsto> (r, Called_off)))"
| break_off: "m i = Some (r, Deal TripStatus.MATCHED d fare) \<Longrightarrow> u = r \<or> u = d \<Longrightarrow>
    market_step (Some u) m (m(i \<mapsto> (r, Called_off)))"
| lapse: "m i = Some (r, Open B) \<Longrightarrow> b \<in> B \<Longrightarrow> market_step None m (m(i \<mapsto> (r, Open (B - {b}))))"
| leave: "market_step None m (\<lambda>i. map_option (map_prod id (without_bids_of d)) (m i))"

inductive_cases market_stepE: "market_step a m m'"

subsection \<open>The abstraction\<close>

definition bids :: "world \<Rightarrow> string \<Rightarrow> (string \<times> rat) set" where
  "bids w i =
     set [(dp_userId p, ro_offeredFare f).
            f \<leftarrow> rideOffers w, pending_of_request i f, p \<leftarrow> driverProfiles w, dp_id p = ro_driverId f]"

definition phase_of :: "RideRequestStatus \<Rightarrow> (string \<times> rat) set \<Rightarrow> Trip option \<Rightarrow> phase" where
  "phase_of status B trip =
     (if status = RideRequestStatus.PENDING then Open B
      else if status = RideRequestStatus.CANCELLED then Called_off
      else (case trip of None \<Rightarrow> Called_off | Some t \<Rightarrow> Deal (t_status t) (t_driverId t) (t_agreedFare t)))"

definition market :: "world \<Rightarrow> market" where
  "market w i =
     map_option (\<lambda>r. (rr_riderId r, phase_of (rr_status r) (bids w i) (trip_of w i)))
       (lookup rr_id i (rideRequests w))"

text \<open>An operation by \<open>a\<close> takes one step of the protocol, or none.\<close>

definition acts :: "string option \<Rightarrow> world \<Rightarrow> world \<Rightarrow> bool" where
  "acts a w w' \<longleftrightarrow> market w' = market w \<or> market_step a (market w) (market w')"

lemma mem_bids:
  "b \<in> bids w i \<longleftrightarrow> (\<exists>f \<in> set (rideOffers w). pending_of_request i f \<and> snd b = ro_offeredFare f \<and>
     (ro_driverId f, fst b) \<in> profile_users w)"
proof
  assume "b \<in> bids w i"
  then obtain f p where "f \<in> set (rideOffers w)" "pending_of_request i f" "p \<in> set (driverProfiles w)"
    "dp_id p = ro_driverId f" "b = (dp_userId p, ro_offeredFare f)"
    by (auto simp: bids_def)
  then show "\<exists>f \<in> set (rideOffers w). pending_of_request i f \<and> snd b = ro_offeredFare f \<and>
      (ro_driverId f, fst b) \<in> profile_users w"
    by (intro bexI [of _ f]) (auto simp: profile_users_def intro!: image_eqI [of _ _ p])
next
  assume "\<exists>f \<in> set (rideOffers w). pending_of_request i f \<and> snd b = ro_offeredFare f \<and>
      (ro_driverId f, fst b) \<in> profile_users w"
  then obtain f p where "f \<in> set (rideOffers w)" "pending_of_request i f" "p \<in> set (driverProfiles w)"
    "ro_driverId f = dp_id p" "b = (dp_userId p, ro_offeredFare f)"
    by (cases b) (auto simp: profile_users_def)
  then show "b \<in> bids w i"
    by (auto simp: bids_def intro!: bexI [of _ f] bexI [of _ p])
qed

lemma bids_same:
  assumes "rideOffers w' = rideOffers w" "profile_users w' = profile_users w"
  shows "bids w' = bids w"
  by (rule ext, rule set_eqI) (simp add: mem_bids assms)

lemma acts_refl: "market w' = market w \<Longrightarrow> acts a w w'"
  by (simp add: acts_def)

lemma acts_unchanged [simp]: "acts a w w"
  by (simp add: acts_def)

lemma market_logs [simp]:
  "market (emit e w) = market w" "market (enqueue c w) = market w"
  "market (cancelScheduledExpiry o1 w) = market w" "market (scheduleExpiry secs o1 w) = market w"
  by (simp_all add: fun_eq_iff market_def bids_def trip_of_def emit_def enqueue_def
      cancelScheduledExpiry_def scheduleExpiry_def)

lemma market_fold [simp]: "market (fold cancelScheduledExpiry os w) = market w"
  by (induction os arbitrary: w) simp_all

lemma acts_logs [simp]:
  "acts a w (emit e w') = acts a w w'" "acts a w (cancelScheduledExpiry o1 w') = acts a w w'"
  "acts a w (scheduleExpiry secs o1 w') = acts a w w'"
  "acts a w (fold cancelScheduledExpiry os w') = acts a w w'"
  by (simp_all add: acts_def)

text \<open>A write to one ride, or one that the market does not see.\<close>

lemma market_set:
  assumes "market w' i = Some x" "\<And>j. j \<noteq> i \<Longrightarrow> market w' j = market w j"
  shows "market w' = (market w)(i \<mapsto> x)"
  using assms by (auto simp: fun_eq_iff)

lemma market_other:
  assumes "lookup rr_id j (rideRequests w') = lookup rr_id j (rideRequests w)"
    "trip_of w' j = trip_of w j" "bids w' j = bids w j"
  shows "market w' j = market w j"
  by (simp add: market_def assms)

lemma market_frame:
  assumes "rideRequests w' = rideRequests w" "rideOffers w' = rideOffers w" "trips w' = trips w"
    and "profiles_kept w w'" "refs_ok w" "keys_ok w'"
  shows "market w' = market w"
proof -
  have "bids w' i = bids w i" for i
  proof -
    have "(ro_driverId f, u) \<in> profile_users w' \<longleftrightarrow> (ro_driverId f, u) \<in> profile_users w"
      if "f \<in> set (rideOffers w)" for f u
    proof
      assume new: "(ro_driverId f, u) \<in> profile_users w'"
      from assms(5) that have "ro_driverId f \<in> dp_id ` set (driverProfiles w)" by (auto simp: refs_ok_def)
      then obtain v where v: "(ro_driverId f, v) \<in> profile_users w" by (auto simp: profile_users_def)
      with assms(4) have "(ro_driverId f, v) \<in> profile_users w'" by (auto simp: profiles_kept_def)
      with new assms(6) have "u = v"
        by (auto simp: profile_users_def keys_ok_def dest: unique_on_eq)
      with v show "(ro_driverId f, u) \<in> profile_users w" by simp
    qed (use assms(4) in \<open>auto simp: profiles_kept_def\<close>)
    then show ?thesis by (auto simp: set_eq_iff mem_bids assms(2))
  qed
  then show ?thesis by (simp add: fun_eq_iff market_def trip_of_def assms)
qed

subsection \<open>Posting and bidding\<close>

lemma acts_createRideRequest:
  assumes inv: "ride_inv w"
  shows "acts (Some u) w (snd (createRideRequest g km newId now u dto w))"
proof -
  have "acts (Some u) w w'" if created: "rideRequest_create r w = Inr w'"
    and r: "rr_status r = RideRequestStatus.PENDING" "rr_riderId r = u" for r w'
  proof -
    from created have w': "w' = w\<lparr>rideRequests := rideRequests w @ [r]\<rparr>"
      and row: "create_row rideRequest_conflicts (user_exists (rr_riderId r) w) r (rideRequests w)
         = Inr (rideRequests w @ [r])"
      by (auto simp: rideRequest_create_Inr)
    have new: "lookup rr_id (rr_id r) (rideRequests w) = None"
      using requests_id.created_key_fresh [OF row] by (simp add: lookup_None_image)
    have same: "bids w' = bids w" by (rule bids_same) (simp_all add: w' profile_users_def)
    have "rr_id r \<notin> ro_rideRequestId ` set (rideOffers w)"
      using ride_invD(2) [OF inv] new by (auto simp: refs_ok_def lookup_None_image)
    then have none: "bids w (rr_id r) = {}" by (force simp: mem_bids pending_of_request_def)
    have "market w' = (market w)(rr_id r \<mapsto> (u, Open {}))"
    proof (rule market_set)
      show "market w' (rr_id r) = Some (u, Open {})"
      proof -
        have "lookup rr_id (rr_id r) (rideRequests w') = Some r" using new by (simp add: w' lookup_append)
        with r show ?thesis by (simp add: market_def same none phase_of_def)
      qed
      show "market w' j = market w j" if "j \<noteq> rr_id r" for j
        using that by (intro market_other) (auto simp: w' lookup_append same [unfolded w'] split: option.split)
    qed
    moreover have "market w (rr_id r) = None" using new by (simp add: market_def)
    ultimately show ?thesis by (simp add: acts_def market_step.post)
  qed
  then show ?thesis
    by (auto simp: createRideRequest_def Let_def new_request_def split: sum.splits)
qed

text \<open>A driver bids through one profile, so with one row on each ride.\<close>

lemma profile_of:
  assumes "ride_inv w" "lookup dp_userId u (driverProfiles w) = Some p"
  shows "(q, u) \<in> profile_users w \<longleftrightarrow> q = dp_id p" "(dp_id p, v) \<in> profile_users w \<longleftrightarrow> v = u"
proof -
  have keys: "unique_on dp_id (driverProfiles w)" "unique_on dp_userId (driverProfiles w)"
    using ride_invD(1) [OF assms(1)] by (simp_all add: keys_ok_def)
  have p: "p \<in> set (driverProfiles w)" "dp_userId p = u" using lookup_SomeD [OF assms(2)] by simp_all
  then have pu: "(dp_id p, u) \<in> profile_users w" by (auto simp: profile_users_def)
  show "(q, u) \<in> profile_users w \<longleftrightarrow> q = dp_id p"
  proof
    assume "(q, u) \<in> profile_users w"
    then obtain p' where "p' \<in> set (driverProfiles w)" "dp_id p' = q" "dp_userId p' = u" by (auto simp: profile_users_def)
    with unique_on_eq [OF keys(2) _ p(1)] p(2) show "q = dp_id p" by blast
  qed (use pu in simp)
  show "(dp_id p, v) \<in> profile_users w \<longleftrightarrow> v = u"
  proof
    assume "(dp_id p, v) \<in> profile_users w"
    then obtain p' where "p' \<in> set (driverProfiles w)" "dp_id p' = dp_id p" "dp_userId p' = v" by (auto simp: profile_users_def)
    with unique_on_eq [OF keys(1) _ p(1)] p(2) show "v = u" by blast
  qed (use pu in simp)
qed

text \<open>The rows after an upsert: one at the key, the others as they were.\<close>

lemma upsert_rows:
  assumes inv: "ride_inv w" and ups: "rideOffer_upsert newId now i d fare w = Inr (f, w')"
  shows "\<exists>h \<in> set (rideOffers w'). ro_key h = (i, d)"
    "\<And>h. h \<in> set (rideOffers w') \<Longrightarrow> ro_key h = (i, d) \<Longrightarrow> ro_status h = OfferStatus.PENDING \<and> ro_offeredFare h = fare"
    "\<And>h. ro_key h \<noteq> (i, d) \<Longrightarrow> h \<in> set (rideOffers w') \<longleftrightarrow> h \<in> set (rideOffers w)"
proof -
  have "(\<exists>h \<in> set (rideOffers w'). ro_key h = (i, d)) \<and>
    (\<forall>h \<in> set (rideOffers w'). ro_key h = (i, d) \<longrightarrow> ro_status h = OfferStatus.PENDING \<and> ro_offeredFare h = fare) \<and>
    (\<forall>h. ro_key h \<noteq> (i, d) \<longrightarrow> h \<in> set (rideOffers w') \<longleftrightarrow> h \<in> set (rideOffers w))"
  proof (cases "lookup ro_key (i, d) (rideOffers w)")
    case None
    with ups have "rideOffers w' = rideOffers w @ [new_offer newId now i d fare]"
      by (auto simp: rideOffer_upsert_def rideOffer_create_Inr split: sum.splits)
    with None show ?thesis by (auto simp: new_offer_def ro_key_def lookup_None_iff)
  next
    case (Some g)
    then have g: "g \<in> set (rideOffers w)" "ro_key g = (i, d)" by (auto dest: lookup_SomeD)
    have only: "ro_id h = ro_id g \<longleftrightarrow> h = g" "ro_key h = (i, d) \<longleftrightarrow> h = g" if "h \<in> set (rideOffers w)" for h
      using ride_invD(1) [OF inv] g that by (auto simp: keys_ok_def dest: unique_on_eq)
    have key: "ro_key (resubmit fare h) = ro_key h" for h by (simp add: resubmit_def ro_key_def)
    from Some ups have "rideOffers w' = update_where (\<lambda>r. ro_id r = ro_id g) (resubmit fare) (rideOffers w)"
      by (auto simp: rideOffer_upsert_def split: sum.splits dest!: rideOffer_update_Inr)
    note w' = this
    have "resubmit fare g \<in> set (rideOffers w')" unfolding w' using g(1) by (rule in_update_where_changed) simp
    then have "\<exists>h \<in> set (rideOffers w'). ro_key h = (i, d)" using g(2) key by metis
    moreover have "ro_status h = OfferStatus.PENDING \<and> ro_offeredFare h = fare"
      if "h \<in> set (rideOffers w')" "ro_key h = (i, d)" for h
      using that only unfolding w' by (auto simp: resubmit_def elim!: in_update_whereE)
    moreover have "h \<in> set (rideOffers w') \<longleftrightarrow> h \<in> set (rideOffers w)" if "ro_key h \<noteq> (i, d)" for h
      using that g(2) only key unfolding w' by (auto elim!: in_update_whereE intro: in_update_where_same)
    ultimately show ?thesis by blast
  qed
  then show "\<exists>h \<in> set (rideOffers w'). ro_key h = (i, d)"
    "\<And>h. h \<in> set (rideOffers w') \<Longrightarrow> ro_key h = (i, d) \<Longrightarrow> ro_status h = OfferStatus.PENDING \<and> ro_offeredFare h = fare"
    "\<And>h. ro_key h \<noteq> (i, d) \<Longrightarrow> h \<in> set (rideOffers w') \<longleftrightarrow> h \<in> set (rideOffers w)"
    by blast+
qed

lemma upsert_bids:
  assumes inv: "ride_inv w" and p: "lookup dp_userId u (driverProfiles w) = Some p"
    and ups: "rideOffer_upsert newId now i (dp_id p) fare w = Inr (f, w')"
  shows "bids w' j = (if j = i then insert (u, fare) {b \<in> bids w i. fst b \<noteq> u} else bids w j)"
proof -
  note rows = upsert_rows [OF inv ups] and prof = profile_of [OF inv p]
  have pu: "profile_users w' = profile_users w"
    by (subst rideOffer_upsert_frame [OF ups]) (simp add: profile_users_def)
  have key: "pending_of_request k h \<longleftrightarrow> ro_status h = OfferStatus.PENDING \<and> fst (ro_key h) = k"
    "snd (ro_key h) = ro_driverId h" for k h
    by (auto simp: pending_of_request_def ro_key_def)
  have "(v, x) \<in> bids w' j \<longleftrightarrow> (v, x) \<in> (if j = i then insert (u, fare) {b \<in> bids w i. fst b \<noteq> u} else bids w j)" for v x
  proof (cases "j = i \<and> v = u")
    case True
    obtain h where h: "h \<in> set (rideOffers w')" "ro_key h = (i, dp_id p)" using rows(1) by blast
    have "ro_key h' = (i, dp_id p)" if "pending_of_request i h'" "(ro_driverId h', u) \<in> profile_users w" for h'
      using that prof(1) by (auto simp: ro_key_def pending_of_request_def)
    then have "x = fare" if "(u, x) \<in> bids w' i" using that rows(2) by (auto simp: mem_bids pu)
    moreover have "(u, fare) \<in> bids w' i"
    proof -
      have "ro_driverId h = dp_id p" "ro_rideRequestId h = i" using h(2) by (simp_all add: ro_key_def)
      with rows(2) [OF h] prof(1) have "pending_of_request i h \<and> fare = ro_offeredFare h \<and> (ro_driverId h, u) \<in> profile_users w"
        by (simp add: pending_of_request_def)
      with h(1) show ?thesis unfolding mem_bids pu fst_conv snd_conv by blast
    qed
    ultimately show ?thesis using True by auto
  next
    case False
    have nokey: "ro_key h \<noteq> (i, dp_id p)" if "pending_of_request j h" "(ro_driverId h, v) \<in> profile_users w" for h
    proof
      assume "ro_key h = (i, dp_id p)"
      then have "ro_driverId h = dp_id p" "j = i" using that(1) by (simp_all add: ro_key_def pending_of_request_def)
      moreover from this that(2) have "v = u" by (simp only: prof(2))
      ultimately show False using False by simp
    qed
    have same: "h \<in> set (rideOffers w') \<longleftrightarrow> h \<in> set (rideOffers w)"
      if "pending_of_request j h" "(ro_driverId h, v) \<in> profile_users w" for h by (rule rows(3) [OF nokey [OF that]])
    have "(v, x) \<in> bids w' j \<longleftrightarrow> (v, x) \<in> bids w j"
      unfolding mem_bids pu fst_conv snd_conv Bex_def by (rule ex_cong1) (use same in blast)
    with False show ?thesis by auto
  qed
  then show ?thesis by (simp add: set_eq_iff)
qed

lemma acts_submitOffer:
  assumes inv: "ride_inv w"
  shows "acts (Some u) w (snd (submitOffer secs newId now u i fare w))"
proof -
  have "acts (Some u) w w'" if load: "submitOffer_load u i w = Inr (p, r)"
    and ups: "rideOffer_upsert newId now i (dp_id p) fare w = Inr (f, w')" for p r f w'
  proof -
    from load have p: "lookup dp_userId u (driverProfiles w) = Some p"
      and r: "lookup rr_id i (rideRequests w) = Some r" "rr_status r = RideRequestStatus.PENDING"
      by (auto simp: submitOffer_load_def split: option.splits if_splits)
    have same: "rideRequests w' = rideRequests w" "trip_of w' = trip_of w"
      by (subst rideOffer_upsert_frame [OF ups], simp)+
    note bids = upsert_bids [OF inv p ups]
    have "market w' = (market w)(i \<mapsto> (rr_riderId r, Open (insert (u, fare) {b \<in> bids w i. fst b \<noteq> u})))"
      by (rule market_set) (use r in \<open>auto simp: market_def same bids phase_of_def\<close>)
    moreover have "market w i = Some (rr_riderId r, Open (bids w i))" using r by (simp add: market_def phase_of_def)
    ultimately show ?thesis by (auto simp: acts_def intro: market_step.bid)
  qed
  then show ?thesis by (auto simp: submitOffer_def submitOffer_finish_def split: sum.splits)
qed

subsection \<open>Deals\<close>

lemma lookup_set:
  assumes "\<And>r. rr_id (f r) = rr_id r"
  shows "lookup rr_id j (update_where (\<lambda>r. rr_id r = i) f rs)
    = (if j = i then map_option f (lookup rr_id i rs) else lookup rr_id j rs)"
  by (subst lookup_update_where) (auto simp: assms map_option_case split: option.split dest: lookup_SomeD)

lemma bids_rows:
  assumes "\<And>h. pending_of_request j h \<Longrightarrow> h \<in> set (rideOffers w') \<longleftrightarrow> h \<in> set (rideOffers w)"
    and "profile_users w' = profile_users w"
  shows "bids w' j = bids w j"
  using assms by (auto simp: set_eq_iff mem_bids)

lemma acts_acceptOffer:
  assumes inv: "ride_inv w"
  shows "acts (Some u) w (snd (acceptOffer newId now u offerId w))"
proof -
  have "acts (Some u) w w'" if load: "acceptOffer_load u offerId w = Inr v"
    and commit: "acceptOffer_commit newId now u v w = Inr w'" for v w'
  proof -
    let ?f = "ov_offer v" and ?r = "ov_request v" and ?t = "new_trip newId now u v"
    let ?i = "ro_rideRequestId ?f"
    note f = acceptOffer_load_Inr [OF load] and w' = acceptOffer_commit_Inr(1) [OF commit]
    have only: "ro_id h = ro_id ?f \<longleftrightarrow> h = ?f" if "h \<in> set (rideOffers w)" for h
      using ride_invD(1) [OF inv] f(1) that by (auto simp: keys_ok_def dest: unique_on_eq)
    have none: "trip_of w ?i = None" using linked_of [OF inv, of ?i] f(4,5) by (simp add: status_of_def)
    have trip: "trip_of w' j = (if j = ?i then Some ?t else trip_of w j)" for j
      using none trip_of_append [of w ?t j] by (auto simp: w' trip_of_def new_trip_def split: option.splits)
    have rows: "lookup rr_id j (rideRequests w')
      = (if j = ?i then Some (?r\<lparr>rr_status := RideRequestStatus.MATCHED\<rparr>) else lookup rr_id j (rideRequests w))" for j
      using f(4) by (simp add: w' lookup_set)
    have others: "bids w' j = bids w j" if "j \<noteq> ?i" for j
    proof (rule bids_rows)
      fix h assume h: "pending_of_request j h"
      show "h \<in> set (rideOffers w') \<longleftrightarrow> h \<in> set (rideOffers w)"
      proof
        assume "h \<in> set (rideOffers w')"
        then have "h \<in> set (accepted_offers ?f (rideOffers w))" by (simp add: w')
        then show "h \<in> set (rideOffers w)"
          by (cases rule: accepted_offers_cases) (use h in \<open>auto simp: pending_of_request_def\<close>)
      next
        assume "h \<in> set (rideOffers w)"
        with h that only show "h \<in> set (rideOffers w')"
          by (auto simp: w' accepted_offers_def competing_def pending_of_request_def intro!: in_update_where_same)
      qed
    qed (simp add: w' profile_users_def)
    have "market w' = (market w)(?i \<mapsto> (u, Deal TripStatus.MATCHED (ov_driverUserId v) (ro_offeredFare ?f)))"
    proof (rule market_set)
      show "market w' ?i = Some (u, Deal TripStatus.MATCHED (ov_driverUserId v) (ro_offeredFare ?f))"
        using f(6) by (simp add: market_def rows trip phase_of_def) (simp add: new_trip_def)
    qed (rule market_other; simp add: rows trip others)
    moreover have "market w ?i = Some (u, Open (bids w ?i))" using f(4-6) by (simp add: market_def phase_of_def)
    moreover have "(ov_driverUserId v, ro_offeredFare ?f) \<in> bids w ?i"
      using f(1,2,8) by (auto simp: mem_bids pending_of_request_def)
    ultimately show ?thesis by (auto simp: acts_def intro: market_step.strike)
  qed
  then show ?thesis
    by (auto simp: acceptOffer_def acceptOffer_finish_def split: sum.splits)
qed

text \<open>A trip moves with its request.\<close>

lemma acts_trip:
  assumes inv: "ride_inv w" and t: "lookup t_id tripId (trips w) = Some t"
    and f: "\<And>r. rr_id (f r) = rr_id r" "\<And>r. rr_riderId (f r) = rr_riderId r" "\<And>r. rr_status (f r) = s"
    and s: "s \<noteq> RideRequestStatus.PENDING" "s \<noteq> RideRequestStatus.CANCELLED"
    and h: "\<And>t. same_terms t (h t)" "\<And>t. t_status (h t) = s'"
    and w': "w' = w\<lparr>trips := update_where (\<lambda>t. t_id t = tripId) h (trips w),
        rideRequests := update_where (\<lambda>r. rr_id r = t_rideRequestId t) f (rideRequests w)\<rparr>"
  shows "\<exists>r. lookup rr_id (t_rideRequestId t) (rideRequests w) = Some r \<and>
    market w' = (market w)(t_rideRequestId t \<mapsto> (rr_riderId r, Deal s' (t_driverId t) (t_agreedFare t)))"
proof -
  let ?i = "t_rideRequestId t"
  have here: "t \<in> set (trips w)" "t_id t = tripId" using lookup_SomeD [OF t] by simp_all
  have tr: "trip_of w ?i = Some t" using inv here(1) by (simp add: trip_of_member)
  with linked_of [OF inv, of ?i] have "status_of w ?i \<noteq> None" by (cases "status_of w ?i") auto
  then obtain r where r: "lookup rr_id ?i (rideRequests w) = Some r" by (auto simp: status_of_def)
  have ht: "t_rideRequestId (h x) = t_rideRequestId x" for x using h(1) [of x] by (simp add: same_terms_def)
  have trips: "trip_of w' j = (if j = ?i then Some (h t) else trip_of w j)" for j
  proof -
    have "trip_of w' j = map_option (\<lambda>x. if t_id x = tripId then h x else x) (trip_of w j)"
      using ht by (simp add: w' trip_of_def lookup_update_where)
    moreover have "t_id x = tripId \<longleftrightarrow> j = ?i" if "trip_of w j = Some x" for x
      using that tr here inv by (auto simp: trip_of_member ride_inv_def keys_ok_def dest: unique_on_eq)
    ultimately show ?thesis using tr by (cases "trip_of w j") auto
  qed
  have rows: "lookup rr_id j (rideRequests w') = (if j = ?i then Some (f r) else lookup rr_id j (rideRequests w))" for j
    using r f(1) by (simp add: w' lookup_set)
  have same: "bids w' = bids w" by (rule bids_same) (simp_all add: w' profile_users_def)
  have "market w' = (market w)(?i \<mapsto> (rr_riderId r, Deal s' (t_driverId t) (t_agreedFare t)))"
  proof (rule market_set)
    show "market w' ?i = Some (rr_riderId r, Deal s' (t_driverId t) (t_agreedFare t))"
      using f(2,3) s h(1) [of t] h(2) by (simp add: market_def rows trips phase_of_def same_terms_def)
  qed (rule market_other; simp add: rows trips same)
  with r show ?thesis by blast
qed

lemma acts_trip_result:
  "(\<And>w'. c = Inr w' \<Longrightarrow> acts a w w') \<Longrightarrow> acts a w (snd (trip_result tripId e w c))"
  by (auto simp: trip_result_def split: sum.splits option.splits)

text \<open>The deal a trip is, before it moves.\<close>

lemma market_trip:
  assumes inv: "ride_inv w" and t: "lookup t_id tripId (trips w) = Some t"
    and r: "lookup rr_id (t_rideRequestId t) (rideRequests w) = Some r" and live: "t_status t \<noteq> TripStatus.CANCELLED"
  shows "market w (t_rideRequestId t) = Some (rr_riderId r, Deal (t_status t) (t_driverId t) (t_agreedFare t))"
proof -
  have tr: "trip_of w (t_rideRequestId t) = Some t" using inv lookup_SomeD [OF t] by (simp add: trip_of_member)
  moreover have "linked (Some (rr_status r)) (Some (t_status t))"
    using linked_of [OF inv, of "t_rideRequestId t"] tr r by (simp add: status_of_def)
  ultimately show ?thesis using r live by (cases "rr_status r") (simp_all add: market_def phase_of_def)
qed

lemma acts_startTrip:
  assumes inv: "ride_inv w"
  shows "acts (Some u) w (snd (startTrip tripId now u w))"
proof -
  have "acts (Some u) w w'" if load: "start_load tripId u w = Inr t" and commit: "start_commit tripId now t w = Inr w'" for t w'
  proof -
    from load have t: "lookup t_id tripId (trips w) = Some t" "t_driverId t = u" "t_status t = TripStatus.MATCHED"
      by (auto simp: start_load_def findOwnedByDriver_Inr split: sum.splits if_splits)
    obtain r where r: "lookup rr_id (t_rideRequestId t) (rideRequests w) = Some r"
      "market w' = (market w)(t_rideRequestId t \<mapsto> (rr_riderId r, Deal TripStatus.STARTED (t_driverId t) (t_agreedFare t)))"
      using acts_trip [OF inv t(1), where w' = w' and s = RideRequestStatus.IN_PROGRESS and s' = TripStatus.STARTED
          and f = "\<lambda>r. r\<lparr>rr_status := RideRequestStatus.IN_PROGRESS\<rparr>"
          and h = "\<lambda>t. t\<lparr>t_status := TripStatus.STARTED, t_startedAt := Some now\<rparr>"] commit
      by (auto simp: start_commit_def same_terms_def split: sum.splits dest!: trip_update_Inr rideRequest_update_Inr)
    with market_trip [OF inv t(1) r(1)] t(2,3) show ?thesis by (simp add: acts_def market_step.set_off)
  qed
  then show ?thesis by (auto simp: startTrip_def split: sum.splits intro: acts_trip_result)
qed

lemma acts_completeTrip:
  assumes inv: "ride_inv w"
  shows "acts (Some u) w (snd (completeTrip tripId now u w))"
proof -
  have "acts (Some u) w w'" if load: "complete_load tripId u w = Inr t" and commit: "complete_commit tripId now t w = Inr w'" for t w'
  proof -
    from load have t: "lookup t_id tripId (trips w) = Some t" "t_driverId t = u" "t_status t = TripStatus.STARTED"
      by (auto simp: complete_load_def findOwnedByDriver_Inr split: sum.splits if_splits)
    obtain r where r: "lookup rr_id (t_rideRequestId t) (rideRequests w) = Some r"
      "market w' = (market w)(t_rideRequestId t \<mapsto> (rr_riderId r, Deal TripStatus.COMPLETED (t_driverId t) (t_agreedFare t)))"
      using acts_trip [OF inv t(1), where w' = w' and s = RideRequestStatus.COMPLETED and s' = TripStatus.COMPLETED
          and f = "\<lambda>r. r\<lparr>rr_status := RideRequestStatus.COMPLETED\<rparr>"
          and h = "\<lambda>t. t\<lparr>t_status := TripStatus.COMPLETED, t_endedAt := Some now\<rparr>"] commit
      by (auto simp: complete_commit_def same_terms_def split: sum.splits dest!: trip_update_Inr rideRequest_update_Inr)
    with market_trip [OF inv t(1) r(1)] t(2,3) show ?thesis by (simp add: acts_def market_step.arrive)
  qed
  then show ?thesis by (auto simp: completeTrip_def split: sum.splits intro: acts_trip_result)
qed

lemma acts_cancelRideRequest:
  assumes inv: "ride_inv w"
  shows "acts (Some u) w (snd (cancelRideRequest i now u reason w))"
proof -
  have "acts (Some u) w w'" if load: "cancel_load i u w = Inr v" and commit: "cancel_commit i now reason v w = Inr w'" for v w'
  proof -
    let ?r = "rv_request v"
    from load have view: "load_request i w = Inr v" and can: "canCancel v u"
      and st: "rr_status ?r = RideRequestStatus.PENDING \<or> rr_status ?r = RideRequestStatus.MATCHED"
      by (auto simp: cancel_load_def split: sum.splits if_splits)
    note r = load_request_Inr [OF view] and w' = cancel_commit_Inr [OF commit]
    have rows: "lookup rr_id j (rideRequests w')
      = (if j = i then Some (cancelled_request now reason ?r) else lookup rr_id j (rideRequests w))" for j
      using r(1) by (simp add: w'(1) lookup_set cancelled_request_def)
    have trips: "trip_of w' j = trip_of w j" if "j \<noteq> i" for j
    proof -
      have "trip_of w' j = map_option (\<lambda>x. if map_option t_id (rv_trip v) = Some (t_id x) then cancelled_trip reason x else x) (trip_of w j)"
        by (simp add: trip_of_def w'(3) lookup_update_where cancelled_trip_def)
      moreover have "map_option t_id (rv_trip v) \<noteq> Some (t_id x)" if "trip_of w j = Some x" for x
        using that \<open>j \<noteq> i\<close> inv r(2) by (auto simp: trip_of_member ride_inv_def keys_ok_def dest: unique_on_eq)
      ultimately show ?thesis by (cases "trip_of w j") auto
    qed
    have pu: "profile_users w' = profile_users w"
      using commit by (auto simp: profile_users_def cancel_commit_def rideOffer_updateMany_def
          split: sum.splits option.splits dest!: rideRequest_update_Inr trip_update_Inr)
    have others: "bids w' j = bids w j" if "j \<noteq> i" for j
      by (rule bids_rows [OF _ pu])
        (use that in \<open>auto simp: w'(2) pending_of_request_def elim!: in_update_whereE intro!: in_update_where_same\<close>)
    have "market w' = (market w)(i \<mapsto> (rr_riderId ?r, Called_off))"
    proof (rule market_set)
      show "market w' i = Some (rr_riderId ?r, Called_off)"
        by (simp add: market_def rows phase_of_def) (simp add: cancelled_request_def)
    qed (rule market_other; simp add: rows trips others)
    moreover have "market_step (Some u) (market w) ((market w)(i \<mapsto> (rr_riderId ?r, Called_off)))"
    proof (cases "rr_status ?r = RideRequestStatus.PENDING")
      case True
      then have "trip_of w i = None" using linked_of [OF inv, of i] r(1) by (simp add: status_of_def)
      with can r(2) have "u = rr_riderId ?r" by (auto simp: canCancel_def isOwnerRider_def isMatchedDriver_def)
      moreover have "market w i = Some (rr_riderId ?r, Open (bids w i))" using True r(1) by (simp add: market_def phase_of_def)
      ultimately show ?thesis by (auto intro: market_step.call_off)
    next
      case False
      with st have matched: "rr_status ?r = RideRequestStatus.MATCHED" by simp
      with linked_of [OF inv, of i] r(1) obtain t where t: "trip_of w i = Some t" "t_status t = TripStatus.MATCHED"
        by (auto simp: status_of_def)
      then have "market w i = Some (rr_riderId ?r, Deal TripStatus.MATCHED (t_driverId t) (t_agreedFare t))"
        using matched r(1) by (simp add: market_def phase_of_def)
      moreover have "u = rr_riderId ?r \<or> u = t_driverId t"
        using can r(2) t(1) by (auto simp: canCancel_def isOwnerRider_def isMatchedDriver_def)
      ultimately show ?thesis by (rule market_step.break_off)
    qed
    ultimately show ?thesis by (simp add: acts_def)
  qed
  then show ?thesis
    by (auto simp: cancelRideRequest_def split: sum.splits option.splits)
qed

subsection \<open>Expiry\<close>

lemma profile_users_unique:
  assumes "ride_inv w"
  shows "(q, u) \<in> profile_users w \<Longrightarrow> (q, v) \<in> profile_users w \<Longrightarrow> u = v"
    "(q, u) \<in> profile_users w \<Longrightarrow> (q', u) \<in> profile_users w \<Longrightarrow> q = q'"
  using ride_invD(1) [OF assms] by (auto simp: profile_users_def keys_ok_def dest: unique_on_eq)

lemma acts_expireIfStillPending:
  assumes inv: "ride_inv w"
  shows "acts None w (snd (expireIfStillPending offerId w))"
proof -
  have "acts None w w'" if load: "expireIfStillPending_load offerId w = Inr (Some (f, d))"
    and commit: "expireOffer_commit offerId w = Inr w'" for f d w'
  proof -
    let ?i = "ro_rideRequestId f" and ?b = "(u_id d, ro_offeredFare f)"
    from load have f: "lookup ro_id offerId (rideOffers w) = Some f" "ro_status f = OfferStatus.PENDING"
      and d: "driver_user_of f w = Inr d"
      by (auto simp: expireIfStillPending_load_def split: option.splits sum.splits if_splits)
    from commit have w': "w' = w\<lparr>rideOffers := update_where (\<lambda>h. ro_id h = offerId)
        (\<lambda>f. f\<lparr>ro_status := OfferStatus.EXPIRED\<rparr>) (rideOffers w)\<rparr>"
      by (auto simp: expireOffer_commit_def dest!: rideOffer_update_Inr)
    have here: "f \<in> set (rideOffers w)" "ro_id f = offerId" using lookup_SomeD [OF f(1)] by simp_all
    have keys: "unique_on ro_id (rideOffers w)" "unique_on ro_key (rideOffers w)"
      using ride_invD(1) [OF inv] by (simp_all add: keys_ok_def)
    have only: "ro_id h = offerId \<longleftrightarrow> h = f" if "h \<in> set (rideOffers w)" for h
      using unique_on_eq [OF keys(1) that here(1)] here(2) by auto
    have rows: "h \<in> set (rideOffers w') \<longleftrightarrow> h \<in> set (rideOffers w) \<and> h \<noteq> f" if "pending_of_request j h" for h j
    proof
      assume "h \<in> set (rideOffers w')"
      then have "h \<in> set (update_where (\<lambda>h. ro_id h = offerId) (\<lambda>f. f\<lparr>ro_status := OfferStatus.EXPIRED\<rparr>) (rideOffers w))"
        by (simp add: w')
      then show "h \<in> set (rideOffers w) \<and> h \<noteq> f"
      proof (cases rule: in_update_whereE)
        case same
        with only show ?thesis by blast
      next
        case (changed y)
        with that show ?thesis by (simp add: pending_of_request_def)
      qed
    next
      assume "h \<in> set (rideOffers w) \<and> h \<noteq> f"
      with only show "h \<in> set (rideOffers w')" by (auto simp: w' intro: in_update_where_same)
    qed
    have pu: "profile_users w' = profile_users w" by (simp add: w' profile_users_def)
    note driver = driver_user_of_Inr [OF d]
    have status: "status_of w ?i = Some RideRequestStatus.PENDING"
      using ride_invD(4) [OF inv] here(1) f(2) by (simp add: pending_ok_def)
    then obtain r where r: "lookup rr_id ?i (rideRequests w) = Some r" "rr_status r = RideRequestStatus.PENDING"
      by (auto simp: status_of_def)
    have left: "bids w' ?i = bids w ?i - {?b}"
    proof -
      have "b \<in> bids w' ?i \<longleftrightarrow> b \<in> bids w ?i \<and> b \<noteq> ?b" for b
      proof
        assume "b \<in> bids w' ?i"
        then obtain h where h: "h \<in> set (rideOffers w)" "h \<noteq> f" "pending_of_request ?i h"
          "snd b = ro_offeredFare h" "(ro_driverId h, fst b) \<in> profile_users w"
          using rows by (auto simp: mem_bids pu)
        then have "b \<in> bids w ?i" by (auto simp: mem_bids)
        moreover have "fst b \<noteq> u_id d"
        proof
          assume "fst b = u_id d"
          with h(5) driver have "ro_driverId h = ro_driverId f" using profile_users_unique(2) [OF inv] by simp
          with h(3) have "ro_key h = ro_key f" by (simp add: ro_key_def pending_of_request_def)
          with unique_on_eq [OF keys(2) h(1) here(1)] h(2) show False by simp
        qed
        ultimately show "b \<in> bids w ?i \<and> b \<noteq> ?b" by auto
      next
        assume b: "b \<in> bids w ?i \<and> b \<noteq> ?b"
        then obtain h where h: "h \<in> set (rideOffers w)" "pending_of_request ?i h"
          "snd b = ro_offeredFare h" "(ro_driverId h, fst b) \<in> profile_users w"
          by (auto simp: mem_bids)
        moreover have "h \<noteq> f" using b h(3,4) profile_users_unique(1) [OF inv driver] by (cases b) auto
        ultimately show "b \<in> bids w' ?i" using rows by (auto simp: mem_bids pu)
      qed
      then show ?thesis by auto
    qed
    have others: "bids w' j = bids w j" if "j \<noteq> ?i" for j
      using that by (intro bids_rows [OF _ pu]) (auto simp: rows pending_of_request_def)
    have same_views: "rideRequests w' = rideRequests w" "trip_of w' = trip_of w" by (simp_all add: w')
    have "market w' = (market w)(?i \<mapsto> (rr_riderId r, Open (bids w ?i - {?b})))"
    proof (rule market_set)
      show "market w' ?i = Some (rr_riderId r, Open (bids w ?i - {?b}))"
        using r by (simp add: market_def phase_of_def left same_views)
    qed (rule market_other; simp add: others same_views)
    moreover have "market w ?i = Some (rr_riderId r, Open (bids w ?i))" using r by (simp add: market_def phase_of_def)
    moreover have "?b \<in> bids w ?i" using here(1) f(2) driver by (auto simp: mem_bids pending_of_request_def)
    ultimately show ?thesis by (auto simp: acts_def intro: market_step.lapse)
  qed
  then show ?thesis by (auto simp: expireIfStillPending_def split: sum.splits option.splits)
qed

lemma acts_expireAllPendingOffersForDriver:
  assumes inv: "ride_inv w"
  shows "acts None w (snd (expireAllPendingOffersForDriver q w))"
proof -
  have "acts None w w'" if p: "lookup dp_id q (driverProfiles w) = Some p"
    and w': "w' = w\<lparr>rideOffers := update_where (pending_of_driver q)
        (\<lambda>f. f\<lparr>ro_status := OfferStatus.EXPIRED\<rparr>) (rideOffers w)\<rparr>" for p w'
  proof -
    have pu: "profile_users w' = profile_users w" by (simp add: w' profile_users_def)
    have driver: "(q, dp_userId p) \<in> profile_users w"
      using lookup_SomeD [OF p] by (auto simp: profile_users_def intro!: image_eqI)
    have rows: "h \<in> set (rideOffers w') \<longleftrightarrow> h \<in> set (rideOffers w) \<and> ro_driverId h \<noteq> q" if "pending_of_request j h" for h j
      using that by (auto simp: w' pending_of_request_def pending_of_driver_def elim!: in_update_whereE intro!: in_update_where_same)
    have same: "(h, u) \<in> profile_users w \<Longrightarrow> h = q \<longleftrightarrow> u = dp_userId p" for h u
      using driver profile_users_unique [OF inv] by metis
    have "b \<in> bids w' j \<longleftrightarrow> b \<in> bids w j \<and> fst b \<noteq> dp_userId p" for b j
      unfolding mem_bids pu using rows same by blast
    then have bids: "bids w' j = {b \<in> bids w j. fst b \<noteq> dp_userId p}" for j by auto
    have same_views: "rideRequests w' = rideRequests w" "trip_of w' = trip_of w" by (simp_all add: w')
    have "market w' = (\<lambda>j. map_option (map_prod id (without_bids_of (dp_userId p))) (market w j))"
    proof
      fix j
      show "market w' j = map_option (map_prod id (without_bids_of (dp_userId p))) (market w j)"
        by (cases "lookup rr_id j (rideRequests w)"; cases "trip_of w j")
          (simp_all add: market_def bids phase_of_def same_views)
    qed
    then show ?thesis by (simp add: acts_def market_step.leave)
  qed
  then show ?thesis
    by (auto simp: expireAllPendingOffersForDriver_def rideOffer_updateMany_def split: option.splits)
qed

lemma acts_process_job:
  assumes "ride_inv w"
  shows "acts None w (snd (process_job j w))"
proof (cases j)
  case (ExpireOffer i)
  with acts_expireIfStillPending [OF assms, of i] show ?thesis
    by (auto split: prod.splits sum.splits option.splits)
qed (simp add: acts_expireAllPendingOffersForDriver assms)

subsection \<open>The system implements the protocol\<close>

lemma api_op_acts:
  assumes op: "api_op env f" and inv: "world_inv w"
  shows "\<exists>a. acts a w (f w)"
  using api_op_classified [OF op, of w]
  unfolding classified_def
proof (elim disjE)
  assume "bystander w (f w)"
  then have "market (f w) = market w"
    using market_frame [OF _ _ _ api_op_profiles_kept [OF op]] ride_invD(2) [OF world_invD(1) [OF inv]]
      ride_invD(1) [OF world_invD(1) [OF api_op_world_inv [OF op inv]]]
    by (simp add: bystander_def)
  then show ?thesis by (auto intro: acts_refl)
next
  note acts = acts_createRideRequest acts_submitOffer acts_acceptOffer acts_cancelRideRequest acts_startTrip
    acts_completeTrip acts_process_job
  assume "ride_op env w (f w)"
  then show ?thesis by cases (use acts [OF world_invD(1) [OF inv]] in metis)+
qed

text \<open>
  C2: the services implement the protocol of the market. In a consistent database each operation on
  rides is, on the market, one step of the protocol taken by the user it runs for, or nothing: a ride is
  posted by its rider, a bid replaces its driver's former one, only the rider strikes a deal and only at a
  standing bid, only the driver of the deal sets off and arrives, and a deal is broken off by one of the
  two; the queue's jobs withdraw one bid, or all of a driver who is offline.
\<close>

theorem services_implement_the_market:
  assumes "world_inv w"
  shows "acts (Some u) w (snd (createRideRequest g km newId now u dto w)) \<and>
    acts (Some u) w (snd (submitOffer secs newId now u i fare w)) \<and>
    acts (Some u) w (snd (acceptOffer newId now u i w)) \<and>
    acts (Some u) w (snd (cancelRideRequest i now u reason w)) \<and>
    acts (Some u) w (snd (startTrip i now u w)) \<and>
    acts (Some u) w (snd (completeTrip i now u w)) \<and>
    acts None w (snd (process_job j w))"
  using world_invD(1) [OF assms]
  by (simp add: acts_createRideRequest acts_submitOffer acts_acceptOffer acts_cancelRideRequest acts_startTrip
      acts_completeTrip acts_process_job)

lemma services_implement_the_market_witness:
  "acts (Some ''r'') offered_world (snd (acceptOffer ''t'' 13 ''r'' ''o'' offered_world)) \<and>
   market offered_world ''q'' = Some (''r'', Open {(''d'', 12)}) \<and>
   market (snd (acceptOffer ''t'' 13 ''r'' ''o'' offered_world)) ''q'' = Some (''r'', Deal TripStatus.MATCHED ''d'' 12)"
proof (intro conjI)
  show "acts (Some ''r'') offered_world (snd (acceptOffer ''t'' 13 ''r'' ''o'' offered_world))"
    using services_implement_the_market [OF reachable_world_inv [OF reachable(1)]] by blast
  show "market offered_world ''q'' = Some (''r'', Open {(''d'', 12)})" by code_simp
  show "market (snd (acceptOffer ''t'' 13 ''r'' ''o'' offered_world)) ''q'' = Some (''r'', Deal TripStatus.MATCHED ''d'' 12)"
    by code_simp
qed

text \<open>Runs: every fare agreed was bid.\<close>

lemma market_step_deal:
  assumes "market_step a m m'" "m' i = Some (r, Deal s d fare)"
  shows "(\<exists>s'. m i = Some (r, Deal s' d fare)) \<or> (\<exists>B. m i = Some (r, Open B) \<and> (d, fare) \<in> B)"
  using assms
proof cases
  case (leave d')
  then obtain p where "m i = Some (r, p)" "without_bids_of d' p = Deal s d fare" using assms(2) by auto
  then show ?thesis by (cases p) auto
qed (use assms(2) in \<open>auto split: if_splits\<close>)

definition protocol_run :: "market \<Rightarrow> market \<Rightarrow> bool" where
  "protocol_run = (\<lambda>m m'. \<exists>a. market_step a m m')\<^sup>*\<^sup>*"

lemma acts_protocol_run: "acts a w w' \<Longrightarrow> protocol_run (market w) (market w')"
  by (auto simp: acts_def protocol_run_def)

text \<open>
  C7: the whole backend is a run of the protocol, and nobody pays a fare that was not bid. The market of
  a reachable database is reached from the empty market by steps of the protocol; and when a ride has a
  deal, whatever its stage, there was a database on the way in which the ride was open and the driver's
  bid at that fare was standing, for the same rider.
\<close>

theorem agreed_fares_were_bid:
  assumes "(system_step env)\<^sup>*\<^sup>* empty_world w"
  shows "protocol_run Map.empty (market w) \<and>
    (\<forall>i r s d fare. market w i = Some (r, Deal s d fare) \<longrightarrow>
      (\<exists>w0 B. (system_step env)\<^sup>*\<^sup>* empty_world w0 \<and> (system_step env)\<^sup>*\<^sup>* w0 w \<and>
         market w0 i = Some (r, Open B) \<and> (d, fare) \<in> B))"
  using assms
proof (induction rule: rtranclp_induct)
  case base
  have "market empty_world = Map.empty" by (simp add: fun_eq_iff market_def empty_world_def)
  then show ?case by (simp add: protocol_run_def)
next
  case (step w w')
  from step.hyps(2) reachable_world_inv [OF step.hyps(1)] obtain a where a: "acts a w w'"
    unfolding system_step_def by (metis api_op_acts)
  have "protocol_run Map.empty (market w')"
    using step.IH acts_protocol_run [OF a] unfolding protocol_run_def by (meson rtranclp_trans)
  moreover have "\<exists>w0 B. (system_step env)\<^sup>*\<^sup>* empty_world w0 \<and> (system_step env)\<^sup>*\<^sup>* w0 w' \<and>
      market w0 i = Some (r, Open B) \<and> (d, fare) \<in> B"
    if deal: "market w' i = Some (r, Deal s d fare)" for i r s d fare
  proof -
    from a deal market_step_deal consider s' where "market w i = Some (r, Deal s' d fare)"
      | B where "market w i = Some (r, Open B)" "(d, fare) \<in> B"
      unfolding acts_def by metis
    then show ?thesis
    proof cases
      case 1
      with step.IH step.hyps(2) show ?thesis by (meson rtranclp.rtrancl_into_rtrancl)
    next
      case 2
      with step.hyps show ?thesis by blast
    qed
  qed
  ultimately show ?case by blast
qed

lemma agreed_fares_were_bid_witness:
  "market rated_world ''q'' = Some (''r'', Deal TripStatus.COMPLETED ''d'' 12) \<and>
   (\<exists>w0 B. (system_step sample_env)\<^sup>*\<^sup>* w0 rated_world \<and> market w0 ''q'' = Some (''r'', Open B) \<and> (''d'', 12) \<in> B)"
proof
  show last: "market rated_world ''q'' = Some (''r'', Deal TripStatus.COMPLETED ''d'' 12)" by code_simp
  show "\<exists>w0 B. (system_step sample_env)\<^sup>*\<^sup>* w0 rated_world \<and> market w0 ''q'' = Some (''r'', Open B) \<and> (''d'', 12) \<in> B"
    using agreed_fares_were_bid [OF reachable(2)] last by blast
qed

end
