(* ===== verification/Server.thy ===== *)
theory Server
  imports Sessions GatewaySpecs Market
begin

section \<open>Server: HTTP, sockets and jobs on one database\<close>

text \<open>
  The server as a whole. Its state is the throttle's, the database, the gateway and the access tokens
  handed out; a step is a HTTP request, a job of the queue, the nightly clean-up or an event of a socket.
  The events an HTTP handler or a job emits reach the gateway in the same process. A socket connects with
  a token the gateway verifies as the JWT guard does; a client can present any token, but one that
  verifies is one the server issued.
\<close>

record 't server =
  sv_throttle :: 't
  sv_world :: world
  sv_gateway :: gateway
  sv_issued :: "string list"

definition issued_only :: "'t http_env \<Rightarrow> int \<Rightarrow> string list \<Rightarrow> string option \<Rightarrow> bool" where
  "issued_only he now issued token \<longleftrightarrow>
     (\<forall>tok. token = Some tok \<longrightarrow> he_verify he tok now \<noteq> None \<longrightarrow> tok \<in> set issued)"

text \<open>The gateway's \<open>verifyAsync\<close> at a time: the \<open>sub\<close> of a token the server's secret verifies.\<close>

definition ws_at :: "'t http_env \<Rightarrow> ws_env \<Rightarrow> int \<Rightarrow> ws_env" where
  "ws_at he ws now = ws\<lparr>env_verify := (\<lambda>tok. Option.bind (he_verify he tok now) jp_sub)\<rparr>"

definition effect :: "world \<Rightarrow> 't server \<Rightarrow> 't server" where
  "effect w' s = s\<lparr>sv_world := w', sv_gateway := deliver (sv_world s) w' (sv_gateway s)\<rparr>"

definition on_socket :: "world \<times> gateway \<Rightarrow> 't server \<Rightarrow> 't server" where
  "on_socket wg s = s\<lparr>sv_world := fst wg, sv_gateway := snd wg\<rparr>"

definition live_part :: "'t server \<Rightarrow> world \<times> gateway" where
  "live_part s = (sv_world s, sv_gateway s)"

inductive server_step :: "'t http_env \<Rightarrow> ws_env \<Rightarrow> 't server \<Rightarrow> 't server \<Rightarrow> bool" for he ws where
  request: "serve he gn now rq (sv_throttle s, sv_world s) = Some (rp, t', w') \<Longrightarrow>
    issued_only he now (sv_issued s) (rq_token rq) \<Longrightarrow>
    server_step he ws s ((effect w' s)\<lparr>sv_throttle := t', sv_issued := sv_issued s @ tokens_in rp\<rparr>)"
| job: "server_step he ws s (effect (snd (process_job j (sv_world s))) s)"
| clean_up: "server_step he ws s (effect (removeExpiredRefreshTokens now (sv_world s)) s)"
| connect: "socket \<notin> fst ` set (gw_sockets (sv_gateway s)) \<Longrightarrow>
    issued_only he now (sv_issued s) (extractToken token header) \<Longrightarrow>
    server_step he ws s
      (s\<lparr>sv_gateway := handleConnection (ws_config (he_api he) (ws_at he ws now)) socket token header (sv_gateway s)\<rparr>)"
| disconnect: "server_step he ws s
    (on_socket (handleDisconnect (ws_config (he_api he) ws) now socket (live_part s)) s)"
| offer: "(socket, u) \<in> set (gw_sockets (sv_gateway s)) \<Longrightarrow>
    server_step he ws s
      (on_socket (snd (onOfferSubmit (ws_config (he_api he) ws) newId now socket u body (live_part s))) s)"
| accept: "(socket, u) \<in> set (gw_sockets (sv_gateway s)) \<Longrightarrow>
    server_step he ws s
      (on_socket (snd (onOfferAccept (ws_config (he_api he) ws) newId now socket u offerId (live_part s))) s)"
| location: "(socket, u) \<in> set (gw_sockets (sv_gateway s)) \<Longrightarrow>
    server_step he ws s
      (on_socket (onLocationUpdate (ws_config (he_api he) ws) now socket u place (live_part s)) s)"
| subscribe: "(socket, u) \<in> set (gw_sockets (sv_gateway s)) \<Longrightarrow>
    server_step he ws s (s\<lparr>sv_gateway := onTrackSubscribe (ws_config (he_api he) ws) now socket u area (sv_gateway s)\<rparr>)"
| unsubscribe: "(socket, u) \<in> set (gw_sockets (sv_gateway s)) \<Longrightarrow>
    server_step he ws s (s\<lparr>sv_gateway := onTrackUnsubscribe u (sv_gateway s)\<rparr>)"

lemma live_part_simps [simp]:
  "live_part (s\<lparr>sv_throttle := t\<rparr>) = live_part s" "live_part (s\<lparr>sv_issued := is\<rparr>) = live_part s"
  "live_part (s\<lparr>sv_gateway := g\<rparr>) = (sv_world s, g)" "live_part (on_socket wg s) = wg"
  "live_part (effect w' s) = (w', deliver (sv_world s) w' (sv_gateway s))"
  "fst (live_part s) = sv_world s" "snd (live_part s) = sv_gateway s"
  by (simp_all add: live_part_def on_socket_def effect_def)

lemma server_fields [simp]:
  "sv_world (effect w' s) = w'" "sv_issued (effect w' s) = sv_issued s"
  "gw_sockets (sv_gateway (effect w' s)) = gw_sockets (sv_gateway s)"
  "sv_world (on_socket wg s) = fst wg" "sv_gateway (on_socket wg s) = snd wg" "sv_issued (on_socket wg s) = sv_issued s"
  by (simp_all add: effect_def on_socket_def deliver_def fold_handle_event_fields)

subsection \<open>Each step is one of backend and gateway\<close>

definition live_move :: "api_env \<Rightarrow> world \<times> gateway \<Rightarrow> world \<times> gateway \<Rightarrow> bool" where
  "live_move env wg wg' \<longleftrightarrow> wg' = wg \<or> (\<exists>ws. live_step env ws wg wg')"

lemma live_move_operates:
  assumes "w' = w \<or> system_step env w w'"
  shows "live_move env (w, g) (w', deliver w w' g)"
  using assms unfolding live_move_def system_step_def
  by (auto simp: deliver_def intro: live_step.operation [unfolded deliver_def])

lemma server_step_live:
  assumes "server_step he ws s s'"
  shows "live_move (he_api he) (live_part s) (live_part s')"
  using assms
proof cases
  case (request gn now rq rp t' w')
  then show ?thesis using live_move_operates [OF served_operates [OF request(2)]] by (simp add: live_part_def effect_def)
next
  case (job j)
  have "system_step (he_api he) (sv_world s) (snd (process_job j (sv_world s)))"
    unfolding system_step_def by (rule exI, rule conjI [OF api_op.run_job refl])
  then show ?thesis using live_move_operates by (simp add: job live_part_def effect_def)
next
  case (clean_up now)
  have "system_step (he_api he) (sv_world s) (removeExpiredRefreshTokens now (sv_world s))"
    unfolding system_step_def by (rule exI, rule conjI [OF api_op.clean_up refl])
  then show ?thesis using live_move_operates by (simp add: clean_up live_part_def effect_def)
next
  case (connect socket now token header)
  then show ?thesis
    by (simp add: live_move_def) (metis live_part_def live_step.connect)
next
  case (subscribe socket u now area)
  then show ?thesis by (simp add: live_move_def) (metis live_part_def live_step.subscribe)
next
  case (unsubscribe socket u)
  then show ?thesis by (simp add: live_move_def) (metis live_part_def live_step.unsubscribe)
qed (simp_all add: live_move_def, (metis live_part_simps(7) live_step.disconnect live_step.offer live_step.accept live_step.location)+)

lemma live_move_world:
  assumes "live_move env wg wg'"
  shows "fst wg' = fst wg \<or> system_step env (fst wg) (fst wg')"
  using assms live_step_world unfolding live_move_def by blast

lemma live_move_inv: "live_move env wg wg' \<Longrightarrow> live_inv wg \<Longrightarrow> live_inv wg'"
  using live_inv_step unfolding live_move_def by blast

subsection \<open>The invariant of the server\<close>

text \<open>Every socket belongs to an account of the database.\<close>

definition sockets_ok :: "world \<Rightarrow> gateway \<Rightarrow> bool" where
  "sockets_ok w g \<longleftrightarrow> snd ` set (gw_sockets g) \<subseteq> fst ` identities w"

definition server_inv :: "'t http_env \<Rightarrow> 't server \<Rightarrow> bool" where
  "server_inv he s \<longleftrightarrow>
     live_inv (live_part s) \<and> sockets_ok (sv_world s) (sv_gateway s) \<and>
     (\<forall>tok \<in> set (sv_issued s). signed_for (api_crypto (he_api he)) tok (sv_world s))"

lemma handlers_sockets:
  "gw_sockets (snd (snd (onOfferSubmit env newId now socket u body s))) = gw_sockets (snd s)"
  "gw_sockets (snd (snd (onOfferAccept env newId now socket u offerId s))) = gw_sockets (snd s)"
  "gw_sockets (snd (onLocationUpdate env now socket u place s)) = gw_sockets (snd s)"
  "gw_sockets (onTrackSubscribe env now socket u area g) = gw_sockets g"
  "gw_sockets (onTrackUnsubscribe u g) = gw_sockets g"
  by (cases s; auto simp: onOfferSubmit_def onOfferAccept_def onLocationUpdate_def onTrackSubscribe_def
      onTrackUnsubscribe_def relay_location_def Let_def deliver_def fold_handle_event_fields
      split: prod.splits bool.splits sum.splits option.splits)+

lemma disconnect_sockets:
  "set (gw_sockets (snd (handleDisconnect env now socket s))) \<subseteq> set (gw_sockets (snd s))"
  by (cases s; auto simp: handleDisconnect_def Let_def deliver_def fold_handle_event_fields
      split: prod.splits option.splits if_splits)

lemma roles_kept_ids: "roles_kept w w' \<Longrightarrow> fst ` identities w \<subseteq> fst ` identities w'"
  by (auto simp: roles_kept_def)

lemma sockets_ok_step:
  assumes "sockets_ok w g" "set (gw_sockets g') \<subseteq> set (gw_sockets g)" "roles_kept w w'"
  shows "sockets_ok w' g'"
  unfolding sockets_ok_def
  by (rule order_trans [OF image_mono [OF assms(2)]])
    (rule order_trans [OF assms(1) [unfolded sockets_ok_def] roles_kept_ids [OF assms(3)]])

text \<open>What the verification of a token has to say: what was signed.\<close>

definition honest :: "'t http_env \<Rightarrow> bool" where
  "honest he \<longleftrightarrow>
     (\<forall>u role now p. he_verify he (jwt_sign (api_crypto (he_api he)) u role) now = Some p \<longrightarrow>
        p = \<lparr>jp_sub = Some u, jp_role = Some role\<rparr>)"

lemma connected_user:
  assumes "honest he" "signed_for (api_crypto (he_api he)) tok w" "Option.bind (he_verify he tok now) jp_sub = Some u"
  shows "u \<in> fst ` identities w"
proof -
  from assms(2) obtain i role where i: "(i, role) \<in> identities w" "tok = jwt_sign (api_crypto (he_api he)) i role"
    by (auto simp: signed_for_def)
  from assms(3) obtain p where "he_verify he tok now = Some p" "jp_sub p = Some u" by (auto simp: bind_eq_Some_conv)
  with assms(1) i have "u = i" by (force simp: honest_def)
  with i(1) show ?thesis by force
qed

lemma server_step_inv:
  assumes step: "server_step he ws s s'" and inv: "server_inv he s" and honest: "honest he"
  shows "server_inv he s'"
proof -
  note live = server_step_live [OF step]
  have "live_inv (live_part s')" using live_move_inv [OF live] inv by (simp add: server_inv_def)
  moreover have "sv_world s' = sv_world s \<or> system_step (he_api he) (sv_world s) (sv_world s')"
    using live_move_world [OF live] by simp
  note kept = operates_kept(1) [OF this]
  have old: "signed_for (api_crypto (he_api he)) tok (sv_world s')" if "tok \<in> set (sv_issued s)" for tok
    using that inv signed_for_kept [OF _ kept] by (auto simp: server_inv_def)
  have socks: "sockets_ok (sv_world s) (sv_gateway s)" using inv by (simp add: server_inv_def)
  note same = sockets_ok_step [OF socks _ kept]
  from step have "sockets_ok (sv_world s') (sv_gateway s') \<and>
    (\<forall>tok \<in> set (sv_issued s'). signed_for (api_crypto (he_api he)) tok (sv_world s'))"
  proof cases
    case (request gn now rq rp t' w')
    then show ?thesis using same old tokens_in_served [OF request(2)] by auto
  next
    case (connect socket now token header)
    have "sockets_ok (sv_world s) (sv_gateway s')"
    proof (cases "Option.bind (extractToken token header) (env_verify (ws_config (he_api he) (ws_at he ws now)))")
      case None
      then show ?thesis using socks by (simp add: connect handleConnection_def sockets_ok_def)
    next
      case (Some u)
      then obtain tok where tok: "extractToken token header = Some tok" "Option.bind (he_verify he tok now) jp_sub = Some u"
        by (auto simp: bind_eq_Some_conv ws_config_def ws_at_def)
      then have "tok \<in> set (sv_issued s)" using connect(3) by (auto simp: issued_only_def bind_eq_Some_conv)
      then have "u \<in> fst ` identities (sv_world s)"
        using connected_user [OF honest _ tok(2)] inv by (auto simp: server_inv_def)
      then show ?thesis using socks Some by (simp add: connect handleConnection_def sockets_ok_def)
    qed
    then show ?thesis using old by (simp add: connect)
  next
    case (disconnect now socket)
    have "set (gw_sockets (sv_gateway s')) \<subseteq> set (gw_sockets (sv_gateway s))"
      using disconnect_sockets [of _ now socket "live_part s"] by (simp add: disconnect)
    from same [OF this] show ?thesis using old by (simp add: disconnect)
  qed (use same old in \<open>simp_all add: handlers_sockets\<close>)
  ultimately show ?thesis by (simp add: server_inv_def)
qed

definition start_of :: "'t server \<Rightarrow> bool" where
  "start_of s \<longleftrightarrow> world_inv (sv_world s) \<and> events (sv_world s) = [] \<and> sv_gateway s = empty_gateway \<and> sv_issued s = []"

lemma start_inv: "start_of s \<Longrightarrow> server_inv he s"
  by (simp add: start_of_def server_inv_def live_part_def)
    (simp add: live_inv_def sockets_ok_def sent_ok_def relay_ok_def in_step_def empty_gateway_def)

interpretation servers: invariant_system start_of "server_step he ws" "\<lambda>s. honest he \<longrightarrow> server_inv he s" for he ws
  by unfold_locales (auto intro: start_inv server_step_inv)

lemma server_run_world:
  assumes "(server_step he ws)\<^sup>*\<^sup>* s s'"
  shows "(system_step (he_api he))\<^sup>*\<^sup>* (sv_world s) (sv_world s')"
  using assms
proof (induction rule: rtranclp_induct)
  case (step s' s'')
  from live_move_world [OF server_step_live [OF step(2)]] step.IH show ?case
    by (auto intro: rtranclp.rtrancl_into_rtrancl)
qed simp

lemma run_protocol:
  assumes "(system_step env)\<^sup>*\<^sup>* w w'" "world_inv w"
  shows "protocol_run (market w) (market w')"
proof (rule backend.steps_monotone [OF assms])
  show "protocol_run (market w) (market w)" for w by (simp add: protocol_run_def)
  show "protocol_run (market w) (market w'')" if "protocol_run (market w) (market w')" "protocol_run (market w') (market w'')"
    for w w' w'' using that unfolding protocol_run_def by (rule rtranclp_trans)
  show "protocol_run (market w) (market w')" if "world_inv w" "system_step env w w'" for w w'
    using that api_op_acts [of env _ w] acts_protocol_run unfolding system_step_def by blast
qed

text \<open>A run: someone registers over HTTP and opens a socket with the token of the response.\<close>

definition start_server :: "nat server" where
  "start_server = \<lparr>sv_throttle = 0, sv_world = empty_world, sv_gateway = empty_gateway, sv_issued = []\<rparr>"

lemma start_of_start_server: "start_of start_server"
  by (simp add: start_of_def start_server_def world_inv_empty) (simp add: empty_world_def)

lemma honest_sample: "honest sample_http"
proof -
  have "p = \<lparr>jp_sub = Some u, jp_role = Some role\<rparr>"
    if "he_verify sample_http (jwt_sign (api_crypto (he_api sample_http)) u role) now = Some p" for u role now p
    using that by (cases role)
      (simp_all add: sample_http_def sample_env_def sample_crypto_def sample_verify_def)
  then show ?thesis by (simp add: honest_def)
qed

lemma sample_run:
  "\<exists>s. (server_step sample_http sample_ws)\<^sup>*\<^sup>* start_server s \<and> gw_sockets (sv_gateway s) = [(''s'', ''n'')]"
proof -
  let ?served = "serve sample_http sample_generated 5 register_request (sv_throttle start_server, sv_world start_server)"
  have "map_option (\<lambda>(rp, t, w). tokens_in rp) ?served = Some [''un'']" by code_simp
  then obtain rp t w where served: "?served = Some (rp, t, w)" "tokens_in rp = [''un'']" by auto
  let ?s = "(effect w start_server)\<lparr>sv_throttle := t, sv_issued := [''un'']\<rparr>"
  let ?t = "?s\<lparr>sv_gateway := handleConnection (ws_config (he_api sample_http) (ws_at sample_http sample_ws 6)) ''s'' (Some ''un'') None (sv_gateway ?s)\<rparr>"
  have one: "server_step sample_http sample_ws start_server ?s"
    using server_step.request [OF served(1), of sample_ws] served(2)
    by (simp add: issued_only_def register_request_def sample_request_def start_server_def)
  have empty: "gw_sockets (sv_gateway start_server) = []" by (simp add: start_server_def empty_gateway_def)
  have two: "server_step sample_http sample_ws ?s ?t"
    by (rule server_step.connect) (simp_all add: empty issued_only_def extractToken_def)
  have "gw_sockets (sv_gateway ?t) = [(''s'', ''n'')]"
    by (simp add: empty handleConnection_def extractToken_def ws_config_def ws_at_def sample_http_def sample_verify_def)
  with converse_rtranclp_into_rtranclp [of "server_step sample_http sample_ws", OF one r_into_rtranclp [of "server_step sample_http sample_ws", OF two]]
  show ?thesis by blast
qed

text \<open>
  C3: the server as a whole does what its parts promise. Take any run of requests, jobs, clean-ups and
  socket events from a consistent database and an empty gateway. On the database it is a run of the operations of the API, on the market a run of the
  protocol, and together with the gateway a run of the live system, so the gateway's table of drivers
  under way is the one the log of events gives and every message sent had an addressee entitled to it.
\<close>

theorem servers_run_the_protocols:
  assumes run: "(server_step he ws)\<^sup>*\<^sup>* s0 s" and start: "start_of s0"
  shows "(system_step (he_api he))\<^sup>*\<^sup>* (sv_world s0) (sv_world s) \<and>
    protocol_run (market (sv_world s0)) (market (sv_world s)) \<and>
    (live_move (he_api he))\<^sup>*\<^sup>* (live_part s0) (live_part s) \<and>
    world_inv (sv_world s) \<and> in_step (sv_world s) (sv_gateway s) \<and>
    (\<forall>(c, m) \<in> set (gw_sent (sv_gateway s)). entitled (sv_world s) c m)"
proof -
  note world = server_run_world [OF run]
  have inv0: "world_inv (sv_world s0)" "live_inv (live_part s0)"
    using start start_inv [OF start] by (simp_all add: start_of_def server_inv_def)
  have live: "(live_move (he_api he))\<^sup>*\<^sup>* (live_part s0) (live_part s)"
    using run by (induction rule: rtranclp_induct) (auto intro: rtranclp.rtrancl_into_rtrancl server_step_live)
  then have "live_inv (live_part s)"
    using inv0(2) by (induction rule: rtranclp_induct) (auto intro: live_move_inv)
  then have "world_inv (sv_world s)" "in_step (sv_world s) (sv_gateway s)" "sent_ok (sv_world s) (sv_gateway s)"
    by (simp_all add: live_inv_def)
  with world live run_protocol [OF world inv0(1)] show ?thesis by (simp add: sent_ok_def)
qed

lemma servers_run_the_protocols_witness:
  "\<exists>s :: nat server. gw_sockets (sv_gateway s) = [(''s'', ''n'')] \<and> world_inv (sv_world s) \<and>
     protocol_run (market (sv_world start_server)) (market (sv_world s))"
  using sample_run servers_run_the_protocols [OF _ start_of_start_server] by blast

text \<open>
  C13: a socket acts for an account. When verified tokens say what was signed, every socket that is
  connected belongs to a row of the users table, and what it submits or accepts is, on the market, a
  step of that user.
\<close>

theorem sockets_act_for_accounts:
  assumes "(server_step he ws)\<^sup>*\<^sup>* s0 s" "start_of s0"
    and "\<And>u role now p. he_verify he (jwt_sign (api_crypto (he_api he)) u role) now = Some p \<Longrightarrow>
      p = \<lparr>jp_sub = Some u, jp_role = Some role\<rparr>"
    and "(socket, u) \<in> set (gw_sockets (sv_gateway s))"
  shows "u \<in> u_id ` set (users (sv_world s)) \<and>
    acts (Some u) (sv_world s)
      (fst (snd (onOfferSubmit (ws_config (he_api he) ws) newId now socket u body (live_part s)))) \<and>
    acts (Some u) (sv_world s)
      (fst (snd (onOfferAccept (ws_config (he_api he) ws) newId now socket u offerId (live_part s))))"
proof (intro conjI)
  have "honest he" using assms(3) by (simp add: honest_def)
  with servers.reachable_inv [OF assms(2,1)] have inv: "server_inv he s" by blast
  then have ride: "ride_inv (sv_world s)" by (simp add: server_inv_def live_inv_def world_invD(1))
  have "u \<in> snd ` set (gw_sockets (sv_gateway s))" using assms(4) by force
  then show "u \<in> u_id ` set (users (sv_world s))"
    using inv by (auto simp: server_inv_def sockets_ok_def identities_def)
  show "acts (Some u) (sv_world s)
      (fst (snd (onOfferSubmit (ws_config (he_api he) ws) newId now socket u body (live_part s))))"
    using acts_submitOffer [OF ride, of u "env_expirySeconds (ws_config (he_api he) ws)" newId now
        "sop_rideRequestId body" "sop_offeredFare body"]
    by (auto simp: onOfferSubmit_def live_part_def Let_def split: prod.splits bool.splits sum.splits)
  show "acts (Some u) (sv_world s)
      (fst (snd (onOfferAccept (ws_config (he_api he) ws) newId now socket u offerId (live_part s))))"
    using acts_acceptOffer [OF ride, of u newId now offerId]
    by (auto simp: onOfferAccept_def live_part_def Let_def split: prod.splits bool.splits sum.splits)
qed

lemma sockets_act_for_accounts_witness:
  "\<exists>s :: nat server. gw_sockets (sv_gateway s) = [(''s'', ''n'')] \<and> ''n'' \<in> u_id ` set (users (sv_world s))"
proof -
  obtain s where s: "(server_step sample_http sample_ws)\<^sup>*\<^sup>* start_server s" "gw_sockets (sv_gateway s) = [(''s'', ''n'')]"
    using sample_run by blast
  have "''n'' \<in> u_id ` set (users (sv_world s))"
    by (rule sockets_act_for_accounts [OF s(1) start_of_start_server, THEN conjunct1])
      (use honest_sample s(2) in \<open>simp_all add: honest_def\<close>)
  with s(2) show ?thesis by blast
qed

end
