(* ===== verification/Spec2Isabelle.thy ===== *)
theory Spec2Isabelle
  imports AccountSpecs Columns Interleaving GatewaySpecs Scheduling ComponentSpecs
    AccountFlows Refusals WiringSpecs Config SeedSpecs Server
begin

text \<open>
  \<^bold>\<open>A model of the ride-hailing backend\<close> (a NestJS application over Postgres, Redis and BullMQ).

  \<^bold>\<open>The program.\<close> Riders post ride requests, verified drivers bid on them, the rider accepts one bid,
  the driver drives the trip, both rate each other. Drivers are onboarded by an application that an
  admin reviews. The services (\<open>src/src/*/*.service.ts\<close>) share one Postgres schema
  (\<open>src/prisma/schema.prisma\<close>), tell each other what happened by domain events, schedule expiries on a
  queue, cache a driver's identity in Redis, keep uploads in a storage directory; the WebSocket gateway
  listens to the events and talks to the connected clients.

  \<^bold>\<open>The model, theory by theory.\<close>
  \<^item> Prelude, Schema, World: tables as lists of rows with their unique constraints (the locale
    \<open>table_constraint\<close>, interpreted once for every constraint of the schema), the records and enums of
    the schema, the shared state \<open>world\<close>, its error values, one accessor per Prisma call with its
    foreign keys, and \<open>transaction\<close>, which keeps all writes or none.
  \<^item> Matching, Offers, RideRequests, Trips, Ratings: the life of a ride
    (\<open>matching.service.ts\<close>, \<open>offers.service.ts\<close> with \<open>offer-expiry.processor.ts\<close>,
    \<open>ride-requests.service.ts\<close>, \<open>trips.service.ts\<close>, \<open>ratings.service.ts\<close>).
  \<^item> Cache, Drivers, Users: \<open>cache.service.ts\<close> with the JSON of a cached identity, \<open>drivers.service.ts\<close>,
    \<open>users.service.ts\<close>, the two guards of \<open>common/guards\<close> and \<open>jwt.strategy.ts\<close>.
  \<^item> Storage, Documents, Applications: \<open>local-disk-storage.service.ts\<close>, \<open>driver-documents.service.ts\<close>,
    \<open>driver-application.service.ts\<close>.
  \<^item> Auth: \<open>auth.service.ts\<close>, \<open>token-cleanup.service.ts\<close>.
  \<^item> RateLimiter, Geo, Realtime: \<open>ws-rate-limiter.ts\<close>, \<open>haversine.ts\<close>, \<open>realtime.gateway.ts\<close>.
  \<^item> Calendar, Validation, Responses, Endpoints: the DTO classes as the checks the validation pipe makes
    (with the calendar arithmetic of the age check), the response DTOs as projections, every controller
    behind its guards, file filter and pipe, the exception filter and the response envelope. The locale
    \<open>handler_relation\<close> gives each relation between the worlds before and after a handler its rules for
    the guarded handler; the invariant, the progress relation, the classification of effects, the
    column invariants, the sessions and the refusals interpret it.
  \<^item> Wiring: the modules (\<open>*.module.ts\<close>), the constructor dependencies of every class, and how Nest's
    container loads the modules and resolves the dependencies.
  \<^item> Router, Health, Http: the route tables of the controllers' decorators, the dispatch of a path, the
    health probe, and \<open>serve\<close>, a request's way through routing, throttle, JWT guard, handler, envelope
    and error filter.
  \<^item> Config: \<open>env.validation.ts\<close> and what \<open>main.ts\<close>, the modules, the gateway and the upload endpoints
    read of the environment.
  \<^item> Seed: \<open>prisma/seed.ts\<close>.

  An operation of a service is a function from its arguments and the world to a result, an \<open>error\<close> or a
  value, and the world it leaves; the effects made before an exception stay. An operation that awaits
  between its reads and its writes is composed of its phases (\<open>_load\<close>, \<open>_commit\<close>, \<open>_finish\<close>), so that two
  requests can be interleaved on the same definitions. The clock and generated identifiers are arguments.

  \<^bold>\<open>What is proved.\<close>
  \<^item> Lifecycle, Progress, Frames, Reputation, System hold the invariant of the database
    (\<open>world_inv\<close>: keys and references, each request in agreement with its offers and its trip, ratings
    that are averages, applications and profiles, accounts, the cache, who is online), its preservation
    by every operation, the order in which rides move (\<open>moves\<close>), and the step relation \<open>system_step\<close>
    over all operations of the API.
  \<^item> Scenario and Journey build concrete worlds, reached by the operations themselves, at which the
    properties are instantiated.
  \<^item> RideSpecs, TripSpecs, AccountSpecs, ComponentSpecs state what single operations do on every branch;
    Guarantees states what holds of every reachable world and along every run, Columns what the stored
    values satisfy.
  \<^item> Logs sorts the operations by what they add to the event log and the queue. Scheduling keeps the
    expiry jobs in step with the pending offers.
  \<^item> Relay and Live put the gateway beside the services (\<open>live_step\<close>: an operation with its events
    delivered, or a handler run for a socket) with the invariant \<open>live_inv\<close>; GatewaySpecs states who
    receives what.
  \<^item> Market is the abstract specification of the rides: open rides with the bids standing on them, deals,
    and the steps of the protocol with the user who may take each (\<open>market_step\<close>). \<open>market\<close> reads it off
    the tables; every service operation is one such step or none, so every fare agreed was bid.
  \<^item> Server runs HTTP requests, jobs and socket events on one database (\<open>server_step\<close>); a run of it is a run
    of the API, of the protocol of the market and of the live system, and every socket acts for an account.
  \<^item> Interleaving runs several requests at once, phase by phase, in any order: what the database's
    constraints still ensure, and the two races that leave a state no serial order produces.
  \<^item> HttpSpecs: the routing is complete and unambiguous, each request is one operation of \<open>system_step\<close>
    or changes nothing, what is open without a token, what the probe answers. Sessions adds the tokens
    the server issued to a run of requests (\<open>http_step\<close>) and shows for whom a request acts; Refusals,
    that a refused request changes nothing; AccountFlows follows an account over several requests.
  \<^item> WiringSpecs: every dependency resolves. SeedSpecs: seeding is idempotent, and what it overrules.
  \<^item> System, Scheduling, Columns, Live, Sessions, Refusals and Server interpret the locale \<open>invariant_system\<close>,
    the contract of a step relation with an invariant.

  \<^bold>\<open>Bounds and termination.\<close> Every operation is a total function; the loops of the code run over lists
  of rows and are structural recursions or list functions, so there is no fuel. A ride request changes
  its status at most four times along any run.

  \<^bold>\<open>Library code that the services call is a parameter.\<close> Hashing and tokens (bcrypt, SHA-256, JWT) are
  the record \<open>crypto\<close>, with hypotheses such as "a password matches its own hash" stated where they are
  used; PostGIS is the record \<open>geography\<close>; phone-number and UUID formats
  are predicates of \<open>api_env\<close>; file-system failures are a predicate on paths. The counting of the
  throttler, the verification of a token and Terminus's summary are fields of \<open>http_env\<close>, Joi's number
  and URI syntax are the record \<open>joi\<close>, the modules of the libraries are given by what their
  documentation says they export (\<open>documented\<close>).

  \<^bold>\<open>Not modelled.\<close> Swagger metadata, logging, helmet and compression, opening and closing
  the connections to Postgres and Redis; multer's enforcement of the upload limits, which refuses a call without running it; the multipart and JSON parsing of a request, which
  arrives here as the class its handler declares or as one the pipe refuses, and the wording of the
  pipe's complaints; BullMQ's own scheduling (any job may run at any time and any number of times);
  floating-point rounding (a \<open>Float\<close> is a real number); daylight saving time (the server's zone is a
  constant offset).
\<close>

end
